theory Spec2Isabelle
  imports Complex_Main "HOL-Library.Word"
begin

section \<open>Seq2SeqModel (models/seq2seq.py)\<close>

text \<open>
  The class builds a TensorFlow 1.x graph and runs it in a session. The embedding has
  two layers: the values the tensors of the graph take on one fed batch (integer tensors
  as lists of \<open>int32\<close> words, floating-point tensors as lists of reals, which leaves
  rounding and non-finite values out), and the Python object itself (which attributes
  \<open>__init__\<close> sets, which exceptions it raises). The recurrent cell, the embedding
  tables and the dense layers are learned functions: they are parameters of the model.
\<close>

subsection \<open>Exceptions\<close>

datatype error =
    AssertionError
  | AttributeError string
  | ValueError
  | IndexError
  | TypeError
  | InvalidArgumentError

subsection \<open>Integer tensors\<close>

type_synonym int32 = "32 word"

text \<open>A rank-2 tensor \<open>[batch_size, time]\<close> is the list of its rows.\<close>

type_synonym 'a matrix = "'a list list"

text \<open>\<open>tf.ones(shape=[rows, cols], dtype=tf.int32)\<close>\<close>

definition ones :: "nat \<Rightarrow> nat \<Rightarrow> int32 matrix" where
  "ones rows cols = replicate rows (replicate cols 1)"

text \<open>\<open>tensor * scalar\<close>, elementwise in \<open>int32\<close>\<close>

definition times_scalar :: "int32 matrix \<Rightarrow> int32 \<Rightarrow> int32 matrix" where
  "times_scalar t k = map (map (\<lambda>x. x * k)) t"

text \<open>
  \<open>tf.concat([a, b], axis=-1)\<close> on rank-2 tensors: the row counts must agree, and row
  \<open>i\<close> of the result is row \<open>i\<close> of \<open>a\<close> followed by row \<open>i\<close> of \<open>b\<close>.
\<close>

definition concat_last :: "'a matrix \<Rightarrow> 'a matrix \<Rightarrow> error + 'a matrix" where
  "concat_last a b =
     (if length a = length b then Inr (map2 (@) a b) else Inl InvalidArgumentError)"

subsection \<open>build_placeholders, mode train (lines 71-105)\<close>

record train_placeholders =
  decoder_start_token :: "int32 matrix"
  decoder_end_token :: "int32 matrix"
  decoder_inputs_train :: "int32 matrix"
  decoder_inputs_train_length :: "int32 list"
  decoder_targets_train :: "int32 matrix"
  decoder_targets_train_length :: "int32 list"

text \<open>
  \<open>GO\<close> and \<open>EOS\<close> come from \<open>utils.config\<close>, which is not part of the sources: they
  are parameters. \<open>batch_size\<close> is \<open>tf.shape(self.encoder_inputs)[0]\<close>, the row count of
  the fed encoder batch.
\<close>

definition build_placeholders_train ::
  "int32 \<Rightarrow> int32 \<Rightarrow> int32 matrix \<Rightarrow> int32 matrix \<Rightarrow> int32 list \<Rightarrow> error + train_placeholders"
where
  "build_placeholders_train GO EOS encoder_inputs decoder_inputs decoder_inputs_length =
     (let batch_size = length encoder_inputs;
          start_token = times_scalar (ones batch_size 1) GO;
          end_token = times_scalar (ones batch_size 1) EOS
      in case concat_last start_token decoder_inputs of
           Inl e \<Rightarrow> Inl e
         | Inr inputs_train \<Rightarrow>
             (case concat_last decoder_inputs end_token of
                Inl e \<Rightarrow> Inl e
              | Inr targets_train \<Rightarrow>
                  Inr \<lparr> decoder_start_token = start_token,
                        decoder_end_token = end_token,
                        decoder_inputs_train = inputs_train,
                        decoder_inputs_train_length = map (\<lambda>l. l + 1) decoder_inputs_length,
                        decoder_targets_train = targets_train,
                        decoder_targets_train_length = map (\<lambda>l. l + 1) decoder_inputs_length \<rparr>))"

subsection \<open>Configuration and the Python object\<close>

text \<open>The \<open>config\<close> dict, with the keys \<open>init_config\<close> reads.\<close>

record config =
  hidden_units :: int
  embedding_size :: int
  encoder_max_time_steps :: int
  decoder_max_time_steps :: int
  encoder_depth :: int
  decoder_depth :: int
  encoder_vocab_size :: int
  decoder_vocab_size :: int
  logger_name :: string
  dropout_rate :: real
  use_fp16 :: bool
  optimizer_type :: string
  learning_rate :: real
  max_gradient_norm :: real
  use_bidirectional :: bool
  use_dropout :: bool

text \<open>
  Recurrent states are Python values: one tensor, or a tuple. The tensors that matter are
  the last states of the three recurrences of \<open>build_encoder\<close>: the forward and the
  backward cell of \<open>bidirectional_dynamic_rnn\<close>, layer \<open>k\<close> of the upper
  \<open>dynamic_rnn\<close>, and layer \<open>k\<close> of the unidirectional \<open>dynamic_rnn\<close>; and the
  state layer \<open>k\<close> of the decoder cell returns.
\<close>

datatype state_tensor = Bi_fw | Bi_bw | Upper nat | Stack nat | Decoder nat

datatype pyvalue = Tensor state_tensor | Tuple "pyvalue list"

text \<open>
  A \<open>Seq2SeqModel\<close> object is its \<open>mode\<close>, the names of the attributes set on
  \<open>self\<close> so far, in the order of the assignments, and the value of
  \<open>self.encoder_last_state\<close> once it is set. The default graph is global to the
  process and outlives a constructor that raises: it is the list of the nodes created so
  far, named after the variable or attribute that first holds them. The exceptions are
  those of the Python statements of the class, and those of TensorFlow that the depths
  and the step count of a configuration can cause while the graph is built: on an empty
  list of cells, on an empty list of tensors to stack, and on an initial state of the
  decoder that has not the structure of the decoder cell's state. The sizes of a
  configuration (\<open>hidden_units\<close>, \<open>embedding_size\<close> and the two vocabulary sizes) are
  taken to be positive: what TensorFlow does with a variable of another shape is left
  out.
\<close>

record seq2seq_model =
  mode :: string
  attrs :: "string list"
  encoder_last_state :: "pyvalue option"

type_synonym graph = "string list"

type_synonym build = "(error + seq2seq_model) \<times> graph"

text \<open>
  \<open>str.lower()\<close> on ASCII text. The capital letters are the codes 65 to 90; adding 32
  to such a code sets bit 5, which is clear in all of them.
\<close>

fun lower_char :: "char \<Rightarrow> char" where
  "lower_char (Char b0 b1 b2 b3 b4 b5 b6 b7) =
     (let n = (of_char (Char b0 b1 b2 b3 b4 b5 b6 b7) :: nat)
      in if 65 \<le> n \<and> n \<le> 90 then Char b0 b1 b2 b3 b4 True b6 b7
         else Char b0 b1 b2 b3 b4 b5 b6 b7)"

definition lower :: "string \<Rightarrow> string" where
  "lower s = map lower_char s"

text \<open>Assignments \<open>self.name = value\<close>, and one builder after the other.\<close>

definition setattrs :: "string list \<Rightarrow> seq2seq_model \<Rightarrow> seq2seq_model" where
  "setattrs names m = m\<lparr>attrs := attrs m @ names\<rparr>"

definition and_then :: "build \<Rightarrow> (seq2seq_model \<Rightarrow> graph \<Rightarrow> build) \<Rightarrow> build" where
  "and_then r f = (case r of (Inl e, g) \<Rightarrow> (Inl e, g) | (Inr m, g) \<Rightarrow> f m g)"

subsection \<open>init_config (lines 23-48)\<close>

definition init_config :: "config \<Rightarrow> seq2seq_model \<Rightarrow> graph \<Rightarrow> build" where
  "init_config cfg m g =
     (Inr (setattrs [''config'', ''hidden_units'', ''embedding_size'',
                     ''encoder_max_time_steps'', ''decoder_max_time_steps'',
                     ''encoder_depth'', ''decoder_depth'', ''encoder_vocab_size'',
                     ''decoder_vocab_size'', ''logger_name'', ''dropout_rate'', ''dtype'',
                     ''optimizer_type'', ''learning_rate'', ''max_gradient_norm'',
                     ''use_bidirectional'', ''use_dropout'', ''global_step'',
                     ''global_epoch_step'', ''global_epoch_step_op''] m),
      g @ [''global_step'', ''global_epoch_step'', ''global_epoch_step_op''])"

subsection \<open>build_placeholders (lines 50-116)\<close>

definition build_placeholders :: "config \<Rightarrow> seq2seq_model \<Rightarrow> graph \<Rightarrow> build" where
  "build_placeholders cfg m g =
     (let common = [''keep_prob'', ''encoder_inputs'', ''encoder_inputs_length'',
                    ''batch_size'']
      in if mode m = ''train''
         then (let names = [''decoder_inputs'', ''decoder_inputs_length'',
                            ''decoder_start_token'', ''decoder_end_token'',
                            ''decoder_inputs_train'', ''decoder_inputs_train_length'',
                            ''decoder_targets_train'', ''decoder_targets_train_length'']
               in (Inr (setattrs (common @ names) m), g @ common @ names))
         else (Inr (setattrs (common @ [''decoder_inputs'', ''decoder_inputs_inference'',
                                        ''decoder_inputs_inference_length'']) m),
               g @ common @ [''decoder_inputs'', ''decoder_inputs_inference_length'']))"

subsection \<open>Cells (lines 118-146)\<close>

datatype rnn_cell = GRUCell | DropoutWrapper rnn_cell | MultiRNNCell "rnn_cell list"

definition build_single_cell :: "config \<Rightarrow> rnn_cell" where
  "build_single_cell cfg = (if use_dropout cfg then DropoutWrapper GRUCell else GRUCell)"

text \<open>
  \<open>range(depth)\<close> is empty for \<open>depth \<le> 0\<close>, and \<open>tf.nn.rnn_cell.MultiRNNCell\<close>
  raises \<open>ValueError\<close> on an empty list of cells. The argument \<open>depth\<close> defaults to
  \<open>None\<close>; \<open>None\<close> and \<open>0\<close> are both false.
\<close>

definition multi_cell :: "config \<Rightarrow> int \<Rightarrow> error + rnn_cell" where
  "multi_cell cfg depth =
     (let cells = replicate (nat depth) (build_single_cell cfg)
      in if cells = [] then Inl ValueError else Inr (MultiRNNCell cells))"

definition build_encoder_cell :: "config \<Rightarrow> int option \<Rightarrow> error + rnn_cell" where
  "build_encoder_cell cfg depth =
     multi_cell cfg (case depth of None \<Rightarrow> encoder_depth cfg
                     | Some d \<Rightarrow> if d \<noteq> 0 then d else encoder_depth cfg)"

definition build_decoder_cell :: "config \<Rightarrow> int option \<Rightarrow> error + rnn_cell" where
  "build_decoder_cell cfg depth =
     multi_cell cfg (case depth of None \<Rightarrow> decoder_depth cfg
                     | Some d \<Rightarrow> if d \<noteq> 0 then d else decoder_depth cfg)"

subsection \<open>build_encoder (lines 148-241)\<close>

text \<open>
  The last state \<open>dynamic_rnn\<close> returns has the structure of the cell's state: a tuple
  with one entry per cell for a \<open>MultiRNNCell\<close>, one tensor for a GRU cell, wrapped in
  dropout or not. Every cell inside a \<open>MultiRNNCell\<close> of this file is such a single
  cell.
\<close>

fun state_of :: "rnn_cell \<Rightarrow> (nat \<Rightarrow> state_tensor) \<Rightarrow> pyvalue" where
  "state_of (MultiRNNCell cells) layer = Tuple (map (\<lambda>k. Tensor (layer k)) [0..<length cells])"
| "state_of cell layer = Tensor (layer 0)"

text \<open>\<open>a + b\<close> on tuples\<close>

fun tuple_add :: "pyvalue \<Rightarrow> pyvalue \<Rightarrow> error + pyvalue" where
  "tuple_add (Tuple xs) (Tuple ys) = Inr (Tuple (xs @ ys))"
| "tuple_add a b = Inl TypeError"

text \<open>\<open>t[i]\<close> on a tuple\<close>

fun getitem :: "pyvalue \<Rightarrow> nat \<Rightarrow> error + pyvalue" where
  "getitem (Tuple xs) i = (if i < length xs then Inr (xs ! i) else Inl IndexError)"
| "getitem (Tensor t) i = Inl TypeError"

definition build_encoder :: "config \<Rightarrow> seq2seq_model \<Rightarrow> graph \<Rightarrow> build" where
  "build_encoder cfg m g =
     (let embed = [''encoder_embeddings'', ''encoder_inputs_embedded'',
                   ''encoder_inputs_embedded_dense''];
          m1 = setattrs embed m;
          g1 = g @ embed
      in if use_bidirectional cfg
         then
           (let bi_last_state = Tuple [Tensor Bi_fw, Tensor Bi_bw];
                g2 = g1 @ [''cell_fw'', ''cell_bw'', ''bi_outputs'', ''bi_last_state''];
                upper_cell =
                  (if encoder_depth cfg > 2
                   then (case build_encoder_cell cfg (Some (encoder_depth cfg - 1)) of
                           Inl e \<Rightarrow> Inl e | Inr c \<Rightarrow> Inr (Some c))
                   else if encoder_depth cfg = 2 then Inr (Some (build_single_cell cfg))
                   else Inr None)
            in case upper_cell of
                 Inl e \<Rightarrow> (Inl e, g2)
               | Inr (Some cell) \<Rightarrow>
                   (let upper_last_state = state_of cell Upper;
                        g3 = g2 @ [''upper_cell'', ''upper_outputs'', ''upper_last_state'']
                    in case getitem bi_last_state 0 of
                         Inl e \<Rightarrow> (Inl e, g3)
                       | Inr fw \<Rightarrow>
                           (case tuple_add (Tuple [fw])
                                   (if encoder_depth cfg = 2 then Tuple [upper_last_state]
                                    else upper_last_state) of
                              Inl e \<Rightarrow> (Inl e, g3)
                            | Inr st \<Rightarrow>
                                (Inr ((setattrs [''encoder_outputs'', ''encoder_last_state'']
                                         m1)\<lparr>encoder_last_state := Some st\<rparr>), g3)))
               | Inr None \<Rightarrow>
                   (case getitem bi_last_state 0 of
                      Inl e \<Rightarrow> (Inl e, g2)
                    | Inr fw \<Rightarrow>
                        (Inr ((setattrs [''encoder_outputs'', ''encoder_last_state'']
                                 m1)\<lparr>encoder_last_state := Some (Tuple [fw])\<rparr>), g2)))
         else
           (case build_encoder_cell cfg None of
              Inl e \<Rightarrow> (Inl e, g1)
            | Inr cell \<Rightarrow>
                (Inr ((setattrs [''encoder_cell'', ''encoder_outputs'', ''encoder_last_state'']
                         m1)\<lparr>encoder_last_state := Some (state_of cell Stack)\<rparr>),
                 g1 @ [''encoder_cell'', ''encoder_outputs'', ''encoder_last_state''])))"

subsection \<open>build_decoder: attributes and construction-time exceptions (lines 243-363)\<close>

text \<open>
  One call of a cell on a state, while the graph is built, as far as the structure of the
  state goes. \<open>MultiRNNCell.call\<close> raises \<open>ValueError\<close> when the state is no tuple,
  reads \<open>state[i]\<close> for each of its cells in turn, which raises \<open>IndexError\<close> when the
  tuple is shorter than the list of cells, and returns the tuple of the new states, one
  per cell; entries of the state beyond the last cell are not looked at. A single cell
  returns one tensor. Every state \<open>build_encoder\<close> sets is a tuple of tensors.
\<close>

fun cell_call :: "rnn_cell \<Rightarrow> pyvalue \<Rightarrow> error + pyvalue" where
  "cell_call (MultiRNNCell cells) (Tuple xs) =
     (if length xs < length cells then Inl IndexError
      else Inr (Tuple (map (\<lambda>k. Tensor (Decoder k)) [0..<length cells])))"
| "cell_call (MultiRNNCell cells) (Tensor t) = Inl ValueError"
| "cell_call cell state = Inr (Tensor (Decoder 0))"

text \<open>
  \<open>nest.assert_same_structure(state, new_state)\<close>, which \<open>tf.nn.dynamic_rnn\<close> runs
  after the call of its cell when it is given \<open>sequence_length\<close>: it raises
  \<open>ValueError\<close> unless this holds.
\<close>

fun same_structure :: "pyvalue \<Rightarrow> pyvalue \<Rightarrow> bool" where
  "same_structure (Tensor a) (Tensor b) = True"
| "same_structure (Tuple []) (Tuple []) = True"
| "same_structure (Tuple (x # xs)) (Tuple (y # ys)) =
     (same_structure x y \<and> same_structure (Tuple xs) (Tuple ys))"
| "same_structure a b = False"

text \<open>
  \<open>tf.nn.dynamic_rnn(cell, initial_state, sequence_length)\<close> while the graph is built:
  the body of its loop is built once, that is one call of the cell on the initial state,
  and the comparison of the new state with it.
\<close>

definition dynamic_rnn_build :: "rnn_cell \<Rightarrow> pyvalue \<Rightarrow> error + pyvalue" where
  "dynamic_rnn_build cell initial_state =
     (case cell_call cell initial_state of
        Inl e \<Rightarrow> Inl e
      | Inr new_state \<Rightarrow>
          if same_structure initial_state new_state then Inr new_state else Inl ValueError)"

text \<open>
  The structure of \<open>state\<close> through the loop \<open>for _ in range(decoder_max_time_steps)\<close>
  of the inference mode, which calls the cell itself: nothing compares the new state with
  the old one.
\<close>

fun decoder_loop_build :: "rnn_cell \<Rightarrow> nat \<Rightarrow> pyvalue \<Rightarrow> error + pyvalue" where
  "decoder_loop_build cell 0 state = Inr state"
| "decoder_loop_build cell (Suc k) state =
     (case cell_call cell state of
        Inl e \<Rightarrow> Inl e
      | Inr state' \<Rightarrow> decoder_loop_build cell k state')"

text \<open>
  In inference mode the loop body runs \<open>decoder_max_time_steps\<close> times while the graph
  is built; \<open>tf.stack\<close> reads \<open>values[0]\<close>, so it raises \<open>IndexError\<close> on the empty
  list a non-positive step count leaves. Reading \<open>self.encoder_last_state\<close> raises
  \<open>AttributeError\<close> when it was never set.
\<close>

definition build_decoder :: "config \<Rightarrow> seq2seq_model \<Rightarrow> graph \<Rightarrow> build" where
  "build_decoder cfg m g =
     (case encoder_last_state m of
        None \<Rightarrow> (Inl (AttributeError ''encoder_last_state''), g)
      | Some decoder_initial_state \<Rightarrow>
     (let m1 = setattrs [''decoder_initial_state''] m
      in case build_decoder_cell cfg None of
           Inl e \<Rightarrow> (Inl e, g)
         | Inr cell \<Rightarrow>
             (let m2 = setattrs [''decoder_cell'', ''decoder_embeddings''] m1;
                  g2 = g @ [''decoder_cell'', ''decoder_embeddings'']
              in if mode m = ''train''
                 then (let names = [''decoder_inputs_embedded'', ''decoder_outputs'',
                                    ''decoder_last_state'', ''decoder_logits'',
                                    ''decoder_masks'', ''loss'']
                       in case dynamic_rnn_build cell decoder_initial_state of
                            Inl e \<Rightarrow> (Inl e, g2 @ [''decoder_inputs_embedded''])
                          | Inr last_state \<Rightarrow> (Inr (setattrs names m2), g2 @ names))
                 else
                   (let names = [''decoder_initial_tokens'',
                                 ''decoder_initial_tokens_embedded''];
                        lists = [''decoder_outputs'', ''decoder_logits'',
                                 ''decoder_probabilities'', ''decoder_predicts'',
                                 ''decoder_scores''];
                        steps = nat (decoder_max_time_steps cfg);
                        m3 = setattrs (names @ lists) m2;
                        m4 = (if 0 < steps then setattrs [''decoder_last_state''] m3 else m3);
                        g3 = g2 @ names @ concat (replicate steps
                               [''output'', ''state'', ''logits'', ''probabilities'',
                                ''predicts'', ''scores'', ''input''])
                    in case decoder_loop_build cell steps decoder_initial_state of
                         Inl e \<Rightarrow> (Inl e, g2 @ names)
                       | Inr last_state \<Rightarrow>
                           if steps = 0 then (Inl IndexError, g3)
                           else (Inr (setattrs lists m4), g3 @ lists)))))"

subsection \<open>build_optimizer (lines 365-389)\<close>

text \<open>Reading \<open>self.name\<close>: \<open>AttributeError\<close> when it was never assigned.\<close>

definition getattr :: "seq2seq_model \<Rightarrow> string \<Rightarrow> error option" where
  "getattr m name = (if name \<in> set (attrs m) then None else Some (AttributeError name))"

text \<open>Reading several attributes in order: the first one missing raises.\<close>

fun getattrs :: "seq2seq_model \<Rightarrow> string list \<Rightarrow> error option" where
  "getattrs m [] = None"
| "getattrs m (name # names) =
     (case getattr m name of Some e \<Rightarrow> Some e | None \<Rightarrow> getattrs m names)"

definition build_optimizer :: "config \<Rightarrow> seq2seq_model \<Rightarrow> graph \<Rightarrow> build" where
  "build_optimizer cfg m g =
     (if mode m = ''train''
      then (let m1 = setattrs [''trainable_verbs''] m;
                m2 = (if lower (optimizer_type cfg) = ''adam''
                      then setattrs [''optimizer''] m1 else m1);
                g2 = (if lower (optimizer_type cfg) = ''adam'' then g @ [''optimizer''] else g)
            in case getattrs m2 [''loss'', ''trainable_verbs''] of
                 Some e \<Rightarrow> (Inl e, g2)
               | None \<Rightarrow>
                   (let m3 = setattrs [''gradients'', ''clip_gradients''] m2;
                        g3 = g2 @ [''gradients'', ''clip_gradients'']
                    in case getattrs m3 [''optimizer'', ''clip_gradients'',
                                         ''trainable_verbs'', ''global_step''] of
                         Some e \<Rightarrow> (Inl e, g3)
                       | None \<Rightarrow> (Inr (setattrs [''train_op''] m3), g3 @ [''train_op''])))
      else (Inr m, g))"

subsection \<open>__init__ (lines 7-21)\<close>

definition construct :: "config \<Rightarrow> string \<Rightarrow> graph \<Rightarrow> build" where
  "construct cfg mode_arg g =
     (if lower mode_arg \<notin> set [''train'', ''inference''] then (Inl AssertionError, g)
      else
        and_then (and_then (and_then (and_then
          (init_config cfg
             \<lparr>mode = lower mode_arg, attrs = [''mode'', ''logger''],
              encoder_last_state = None\<rparr> g)
          (build_placeholders cfg)) (build_encoder cfg)) (build_decoder cfg))
          (build_optimizer cfg))"

subsection \<open>train, eval, inference up to \<open>sess.run\<close> (lines 418-487)\<close>

text \<open>
  Each method evaluates its \<open>input_feed\<close> dict and its \<open>output_feed\<close> before it calls
  \<open>sess.run\<close>: the attribute reads in source order, then the request handed to the
  session: the value fed for \<open>keep_prob\<close> and the names of the fetched tensors.
\<close>

record request =
  keep_prob_fed :: real
  fetches :: "string list"

definition train_request :: "config \<Rightarrow> seq2seq_model \<Rightarrow> error + request" where
  "train_request cfg m =
     (case getattrs m [''encoder_inputs'', ''encoder_inputs_length'', ''decoder_inputs'',
                       ''decoder_inputs_length'', ''keep_prob'', ''dropout_rate'',
                       ''loss'', ''train_op''] of
        Some e \<Rightarrow> Inl e
      | None \<Rightarrow> Inr \<lparr>keep_prob_fed = 1 - dropout_rate cfg, fetches = [''loss'', ''train_op'']\<rparr>)"

definition eval_request :: "seq2seq_model \<Rightarrow> error + request" where
  "eval_request m =
     (case getattrs m [''encoder_inputs'', ''encoder_inputs_length'', ''decoder_inputs'',
                       ''decoder_inputs_length'', ''keep_prob'', ''loss''] of
        Some e \<Rightarrow> Inl e
      | None \<Rightarrow> Inr \<lparr>keep_prob_fed = 1, fetches = [''loss'']\<rparr>)"

definition inference_request :: "seq2seq_model \<Rightarrow> error + request" where
  "inference_request m =
     (case getattrs m [''encoder_inputs'', ''encoder_inputs_length'', ''keep_prob'',
                       ''decoder_predicts'', ''decoder_scores''] of
        Some e \<Rightarrow> Inl e
      | None \<Rightarrow> Inr \<lparr>keep_prob_fed = 1, fetches = [''decoder_predicts'', ''decoder_scores'']\<rparr>)"

subsection \<open>Floating-point tensors and the learned functions\<close>

text \<open>
  A vector of activations is a list of reals. All the operations below act on each row
  of a batch on its own, so a tensor \<open>[batch_size, ...]\<close> is the list of its rows.
\<close>

type_synonym vec = "real list"

text \<open>
  A token id inside a vocabulary. \<open>tf.nn.embedding_lookup\<close> and the sparse
  cross-entropy raise \<open>InvalidArgumentError\<close> on any other id or label when they run on
  a CPU (on a GPU they give zeros and NaN instead); the model follows the CPU.
\<close>

definition valid_id :: "int \<Rightarrow> int32 \<Rightarrow> bool" where
  "valid_id vocab_size t \<longleftrightarrow> 0 \<le> sint t \<and> sint t < vocab_size"

text \<open>
  What the decoder has learned, on one row: the row of \<open>decoder_embeddings\<close> for a
  token id of the vocabulary, one step of \<open>self.decoder_cell\<close> at keep probability 1,
  where its dropout wrappers change nothing, and unit \<open>k\<close> of the dense layer
  \<open>decoder_logits\<close>.
\<close>

record ('x, 's) decoder =
  embedding_lookup :: "int \<Rightarrow> 'x"
  decoder_cell :: "'x \<Rightarrow> 's \<Rightarrow> vec \<times> 's"
  logits_unit :: "nat \<Rightarrow> vec \<Rightarrow> real"

text \<open>\<open>tf.layers.dense(inputs, units)\<close> on one row: one output per unit\<close>

definition dense :: "nat \<Rightarrow> (nat \<Rightarrow> vec \<Rightarrow> real) \<Rightarrow> vec \<Rightarrow> vec" where
  "dense units unit x = map (\<lambda>k. unit k x) [0..<units]"

text \<open>\<open>tf.nn.softmax(logits, -1)\<close> on one row\<close>

definition softmax :: "vec \<Rightarrow> vec" where
  "softmax xs = map (\<lambda>x. exp x / sum_list (map exp xs)) xs"

text \<open>\<open>tf.reduce_max(t, -1)\<close> on one non-empty row\<close>

definition reduce_max :: "vec \<Rightarrow> real" where
  "reduce_max xs = fold max (tl xs) (hd xs)"

text \<open>
  \<open>tf.argmax(t, -1)\<close> on one non-empty row: the index of a largest entry, here the
  first one (TensorFlow does not say which one it returns among equal entries).
\<close>

definition argmax :: "vec \<Rightarrow> nat" where
  "argmax xs = length (takeWhile (\<lambda>x. x \<noteq> reduce_max xs) xs)"

subsection \<open>build_decoder, mode inference: the decoder loop (lines 298-357)\<close>

text \<open>
  The local variables \<open>input\<close> and \<open>state\<close> and the five lists the loop appends to,
  each entry of a list being one tensor \<open>[batch_size, ...]\<close>.
\<close>

record ('x, 's) decoder_loop_state =
  input :: "'x list"
  state :: "'s list"
  decoder_outputs :: "vec list list"
  decoder_logits :: "vec list list"
  decoder_probabilities :: "vec list list"
  decoder_predicts :: "nat list list"
  decoder_scores :: "real list list"

text \<open>One pass through the body of \<open>for _ in range(self.decoder_max_time_steps)\<close>\<close>

definition decode_step ::
  "('x, 's) decoder \<Rightarrow> nat \<Rightarrow> ('x, 's) decoder_loop_state \<Rightarrow> ('x, 's) decoder_loop_state"
where
  "decode_step dec units st =
     (let result = map2 (decoder_cell dec) (input st) (state st);
          output = map fst result;
          state' = map snd result;
          logits = map (dense units (logits_unit dec)) output;
          probabilities = map softmax logits;
          predicts = map argmax probabilities;
          scores = map reduce_max probabilities
      in \<lparr> input = map (\<lambda>p. embedding_lookup dec (int p)) predicts,
           state = state',
           decoder_outputs = decoder_outputs st @ [output],
           decoder_logits = decoder_logits st @ [logits],
           decoder_probabilities = decoder_probabilities st @ [probabilities],
           decoder_predicts = decoder_predicts st @ [predicts],
           decoder_scores = decoder_scores st @ [scores] \<rparr>)"

fun decoder_loop ::
  "('x, 's) decoder \<Rightarrow> nat \<Rightarrow> nat \<Rightarrow> ('x, 's) decoder_loop_state \<Rightarrow> ('x, 's) decoder_loop_state"
where
  "decoder_loop dec units 0 st = st"
| "decoder_loop dec units (Suc k) st = decoder_loop dec units k (decode_step dec units st)"

text \<open>
  \<open>tf.stack(values, axis=1)\<close> of tensors \<open>[batch_size]\<close>: it reads \<open>values[0]\<close>, which
  raises \<open>IndexError\<close> on the empty list; the tensors must have one shape; row \<open>i\<close> of
  the result collects entry \<open>i\<close> of every tensor.
\<close>

definition stack_axis1 :: "'a list list \<Rightarrow> error + 'a list list" where
  "stack_axis1 values =
     (case values of
        [] \<Rightarrow> Inl IndexError
      | v # _ \<Rightarrow>
          if list_all (\<lambda>w. length w = length v) values
          then Inr (map (\<lambda>i. map (\<lambda>w. w ! i) values) [0..<length v])
          else Inl InvalidArgumentError)"

text \<open>
  What the encoder accepts when it runs: the two fed tensors have the same batch size, the
  tokens are ids of the encoder vocabulary, and, with \<open>use_bidirectional\<close>, every
  length lies between 0 and the width of the batch (\<open>tf.reverse_sequence\<close>, which
  feeds the backward cell, checks it).
\<close>

definition encoder_batch_ok :: "config \<Rightarrow> int32 matrix \<Rightarrow> int32 list \<Rightarrow> bool" where
  "encoder_batch_ok cfg encoder_inputs encoder_inputs_length \<longleftrightarrow>
     length encoder_inputs_length = length encoder_inputs
     \<and> list_all (list_all (valid_id (encoder_vocab_size cfg))) encoder_inputs
     \<and> (use_bidirectional cfg \<longrightarrow>
          list_all (\<lambda>(row, len). 0 \<le> sint len \<and> sint len \<le> int (length row))
            (zip encoder_inputs encoder_inputs_length))"

text \<open>
  The encoder on a batch: one last state per row, from the row's tokens and its length.
  The function of a row is a parameter.
\<close>

definition run_encoder ::
  "config \<Rightarrow> (int32 list \<Rightarrow> int32 \<Rightarrow> 's) \<Rightarrow> int32 matrix \<Rightarrow> int32 list \<Rightarrow> error + 's list"
where
  "run_encoder cfg encoder encoder_inputs encoder_inputs_length =
     (if encoder_batch_ok cfg encoder_inputs encoder_inputs_length
      then Inr (map2 encoder encoder_inputs encoder_inputs_length)
      else Inl InvalidArgumentError)"

text \<open>
  The value of \<open>(decoder_predicts, decoder_scores)\<close>. When the graph runs, the initial
  tokens must be ids of the decoder vocabulary, and \<open>tf.argmax\<close> over an axis of size 0
  is an error; the predictions, which are embedded in turn, are indices of the logits.
\<close>

definition build_decoder_inference ::
  "config \<Rightarrow> int32 \<Rightarrow> ('x, 's) decoder \<Rightarrow> nat \<Rightarrow> 's list
     \<Rightarrow> error + nat matrix \<times> real matrix"
where
  "build_decoder_inference cfg GO dec batch_size decoder_initial_state =
     (let units = nat (decoder_vocab_size cfg);
          decoder_initial_tokens = map (\<lambda>x. x * GO) (replicate batch_size 1);
          st = decoder_loop dec units (nat (decoder_max_time_steps cfg))
                 \<lparr> input = map (\<lambda>t. embedding_lookup dec (sint t)) decoder_initial_tokens,
                   state = decoder_initial_state,
                   decoder_outputs = [], decoder_logits = [], decoder_probabilities = [],
                   decoder_predicts = [], decoder_scores = [] \<rparr>
      in case stack_axis1 (decoder_predicts st) of
           Inl e \<Rightarrow> Inl e
         | Inr predicts \<Rightarrow>
             (case stack_axis1 (decoder_scores st) of
                Inl e \<Rightarrow> Inl e
              | Inr scores \<Rightarrow>
                  if \<not> list_all (valid_id (decoder_vocab_size cfg)) decoder_initial_tokens
                     \<or> units = 0
                  then Inl InvalidArgumentError
                  else Inr (predicts, scores)))"

subsection \<open>inference (lines 468-487)\<close>

definition inference ::
  "seq2seq_model \<Rightarrow> config \<Rightarrow> int32 \<Rightarrow> (int32 list \<Rightarrow> int32 \<Rightarrow> 's) \<Rightarrow> ('x, 's) decoder
     \<Rightarrow> int32 matrix \<Rightarrow> int32 list \<Rightarrow> error + nat matrix \<times> real matrix"
where
  "inference m cfg GO encoder dec encoder_inputs encoder_inputs_length =
     (case inference_request m of
        Inl e \<Rightarrow> Inl e
      | Inr req \<Rightarrow>
          (case run_encoder cfg encoder encoder_inputs encoder_inputs_length of
             Inl e \<Rightarrow> Inl e
           | Inr last_state \<Rightarrow>
               build_decoder_inference cfg GO dec (length encoder_inputs) last_state))"

subsection \<open>Greedy decoding as the specification words it\<close>

text \<open>
  Following the specification (4.3, Inference), for one example: from an input and a
  state, one cell invocation gives an output and the next state; the output is projected
  to logits; softmax gives the probabilities; the index of the largest one is the
  prediction and its probability the score; the embedded prediction is the next input.
  The recursion runs for the given number of steps and looks at no token to stop.
\<close>

fun spec_greedy_decode ::
  "('x, 's) decoder \<Rightarrow> nat \<Rightarrow> nat \<Rightarrow> 'x \<Rightarrow> 's \<Rightarrow> (nat \<times> real) list" where
  "spec_greedy_decode dec units 0 x s = []"
| "spec_greedy_decode dec units (Suc k) x s =
     (let (out, s') = decoder_cell dec x s;
          probs = softmax (dense units (logits_unit dec) out);
          p = argmax probs
      in (p, probs ! p) # spec_greedy_decode dec units k (embedding_lookup dec (int p)) s')"

subsection \<open>build_decoder, mode train: the loss (lines 265-296)\<close>

text \<open>
  \<open>tf.nn.dynamic_rnn\<close> with \<open>sequence_length\<close>, on one row: the cell runs on the time
  steps below the row's length; from there on the output is zero and the state is copied
  through. The output has one entry per time step of the input.
\<close>

fun dynamic_rnn_row ::
  "('x \<Rightarrow> 's \<Rightarrow> vec \<times> 's) \<Rightarrow> vec \<Rightarrow> int \<Rightarrow> nat \<Rightarrow> 'x list \<Rightarrow> 's \<Rightarrow> vec list" where
  "dynamic_rnn_row cell zero_output sequence_length time [] s = []"
| "dynamic_rnn_row cell zero_output sequence_length time (x # xs) s =
     (if int time < sequence_length
      then (let (out, s') = cell x s
            in out # dynamic_rnn_row cell zero_output sequence_length (Suc time) xs s')
      else zero_output # dynamic_rnn_row cell zero_output sequence_length (Suc time) xs s)"

text \<open>\<open>tf.reduce_max\<close> of an \<open>int32\<close> vector; the lowest \<open>int32\<close> when it is empty\<close>

definition reduce_max_int32 :: "int32 list \<Rightarrow> int32" where
  "reduce_max_int32 xs = fold (\<lambda>x m. if sint m < sint x then x else m) xs (- (2 ^ 31))"

text \<open>
  \<open>tf.sequence_mask(lengths, maxlen, dtype)\<close>: one row per length, \<open>maxlen\<close> wide,
  entry \<open>j\<close> of a row is 1 when \<open>j\<close> is below the row's length and 0 otherwise.
\<close>

definition sequence_mask :: "int32 list \<Rightarrow> int32 \<Rightarrow> real matrix" where
  "sequence_mask lengths maxlen =
     map (\<lambda>l. map (\<lambda>j. if int j < sint l then 1 else 0) [0..<nat (sint maxlen)]) lengths"

text \<open>
  \<open>tf.nn.sparse_softmax_cross_entropy_with_logits\<close> on one position, for a label that
  is an index of the logits.
\<close>

definition sparse_softmax_cross_entropy :: "vec \<Rightarrow> int32 \<Rightarrow> real" where
  "sparse_softmax_cross_entropy logits label = - ln (softmax logits ! nat (sint label))"

text \<open>
  \<open>tf.contrib.seq2seq.sequence_loss(logits, targets, weights)\<close> with its defaults:
  logits and targets are flattened, the cross-entropy of every position is multiplied by
  the flattened weights (an elementwise product of two vectors: equal sizes, or one of
  them of size 1, which is broadcast; an error otherwise), and the sum is divided by the
  sum of the weights plus \<open>1e-12\<close>. Every label must be an index of the logits, whose
  size is \<open>num_classes\<close>, the last dimension of \<open>logits\<close>.
\<close>

definition broadcast_mul :: "real list \<Rightarrow> real list \<Rightarrow> error + real list" where
  "broadcast_mul xs ys =
     (if length xs = length ys then Inr (map2 (*) xs ys)
      else if length ys = 1 then Inr (map (\<lambda>x. x * hd ys) xs)
      else if length xs = 1 then Inr (map (\<lambda>y. hd xs * y) ys)
      else Inl InvalidArgumentError)"

definition weighted_crossent ::
  "vec matrix \<Rightarrow> int32 matrix \<Rightarrow> real matrix \<Rightarrow> error + real list" where
  "weighted_crossent logits targets weights =
     (let logits_flat = concat logits;
          targets_flat = concat targets;
          num_classes = (case logits_flat of [] \<Rightarrow> 0 | v # _ \<Rightarrow> length v)
      in if length logits_flat \<noteq> length targets_flat
            \<or> \<not> list_all (valid_id (int num_classes)) targets_flat
         then Inl InvalidArgumentError
         else broadcast_mul (map2 sparse_softmax_cross_entropy logits_flat targets_flat)
                (concat weights))"

definition sequence_loss :: "vec matrix \<Rightarrow> int32 matrix \<Rightarrow> real matrix \<Rightarrow> error + real" where
  "sequence_loss logits targets weights =
     (case weighted_crossent logits targets weights of
        Inl e \<Rightarrow> Inl e
      | Inr crossent \<Rightarrow>
          (let total_size = sum_list (concat weights) + 1 / 10 ^ 12
           in Inr (sum_list crossent / total_size)))"

text \<open>
  The tensors \<open>decoder_logits\<close> (here \<open>decoder_logits_train\<close>, the loop state of the
  inference mode has the other \<open>decoder_logits\<close>) and \<open>decoder_masks\<close>. The
  embedded tokens must be ids of the decoder vocabulary, and \<open>dynamic_rnn\<close> needs one
  length and one initial state per row of its input.
\<close>

record decoder_train =
  decoder_logits_train :: "vec matrix"
  decoder_masks :: "real matrix"

definition build_decoder_train ::
  "config \<Rightarrow> ('x, 's) decoder \<Rightarrow> train_placeholders \<Rightarrow> 's list \<Rightarrow> error + decoder_train" where
  "build_decoder_train cfg dec ph decoder_initial_state =
     (let decoder_inputs_embedded =
            map (map (\<lambda>t. embedding_lookup dec (sint t))) (decoder_inputs_train ph);
          lengths = decoder_inputs_train_length ph
      in if \<not> list_all (list_all (valid_id (decoder_vocab_size cfg))) (decoder_inputs_train ph)
            \<or> length lengths \<noteq> length decoder_inputs_embedded
            \<or> length decoder_initial_state \<noteq> length decoder_inputs_embedded
         then Inl InvalidArgumentError
         else
           (let decoder_outputs =
                  map (\<lambda>(xs, len, s).
                         dynamic_rnn_row (decoder_cell dec)
                           (replicate (nat (hidden_units cfg)) 0) (sint len) 0 xs s)
                    (zip decoder_inputs_embedded (zip lengths decoder_initial_state));
                logits = map (map (dense (nat (decoder_vocab_size cfg)) (logits_unit dec)))
                           decoder_outputs;
                masks = sequence_mask (decoder_inputs_train_length ph)
                          (reduce_max_int32 (decoder_targets_train_length ph))
            in Inr \<lparr>decoder_logits_train = logits, decoder_masks = masks\<rparr>))"

text \<open>
  The training graph on one fed batch: encoder, placeholders, decoder; and
  \<open>self.loss\<close>.
\<close>

definition train_graph ::
  "config \<Rightarrow> int32 \<Rightarrow> int32 \<Rightarrow> (int32 list \<Rightarrow> int32 \<Rightarrow> 's) \<Rightarrow> ('x, 's) decoder
     \<Rightarrow> int32 matrix \<Rightarrow> int32 list \<Rightarrow> int32 matrix \<Rightarrow> int32 list
     \<Rightarrow> error + train_placeholders \<times> decoder_train" where
  "train_graph cfg GO EOS encoder dec encoder_inputs encoder_inputs_length
        decoder_inputs decoder_inputs_length =
     (case run_encoder cfg encoder encoder_inputs encoder_inputs_length of
        Inl e \<Rightarrow> Inl e
      | Inr last_state \<Rightarrow>
          (case build_placeholders_train GO EOS encoder_inputs decoder_inputs
                  decoder_inputs_length of
             Inl e \<Rightarrow> Inl e
           | Inr ph \<Rightarrow>
               (case build_decoder_train cfg dec ph last_state of
                  Inl e \<Rightarrow> Inl e
                | Inr d \<Rightarrow> Inr (ph, d))))"

definition loss ::
  "config \<Rightarrow> int32 \<Rightarrow> int32 \<Rightarrow> (int32 list \<Rightarrow> int32 \<Rightarrow> 's) \<Rightarrow> ('x, 's) decoder
     \<Rightarrow> int32 matrix \<Rightarrow> int32 list \<Rightarrow> int32 matrix \<Rightarrow> int32 list \<Rightarrow> error + real" where
  "loss cfg GO EOS encoder dec encoder_inputs encoder_inputs_length
        decoder_inputs decoder_inputs_length =
     (case train_graph cfg GO EOS encoder dec encoder_inputs encoder_inputs_length
             decoder_inputs decoder_inputs_length of
        Inl e \<Rightarrow> Inl e
      | Inr (ph, d) \<Rightarrow>
          sequence_loss (decoder_logits_train d) (decoder_targets_train ph) (decoder_masks d))"

text \<open>
  The contribution of example \<open>i\<close> to the loss: \<open>sequence_loss\<close> sums the weighted
  cross-entropies of all positions and divides by the total weight; the positions of
  example \<open>i\<close> are one stretch of the flattened vector, as long as a row of the targets.
  This is the quantity the specification's property on loss masking speaks of; the class
  itself computes the sum only.
\<close>

definition example_loss ::
  "config \<Rightarrow> int32 \<Rightarrow> int32 \<Rightarrow> (int32 list \<Rightarrow> int32 \<Rightarrow> 's) \<Rightarrow> ('x, 's) decoder
     \<Rightarrow> int32 matrix \<Rightarrow> int32 list \<Rightarrow> int32 matrix \<Rightarrow> int32 list \<Rightarrow> nat \<Rightarrow> error + real" where
  "example_loss cfg GO EOS encoder dec encoder_inputs encoder_inputs_length
        decoder_inputs decoder_inputs_length i =
     (case train_graph cfg GO EOS encoder dec encoder_inputs encoder_inputs_length
             decoder_inputs decoder_inputs_length of
        Inl e \<Rightarrow> Inl e
      | Inr (ph, d) \<Rightarrow>
          (case weighted_crossent (decoder_logits_train d) (decoder_targets_train ph)
                  (decoder_masks d) of
             Inl e \<Rightarrow> Inl e
           | Inr crossent \<Rightarrow>
               if length (decoder_targets_train ph) \<le> i then Inl IndexError
               else
                 (let width = length (decoder_targets_train ph ! i);
                      total_size = sum_list (concat (decoder_masks d)) + 1 / 10 ^ 12
                  in Inr (sum_list (take width (drop (i * width) crossent)) / total_size))))"

subsection \<open>Dropout and the session (lines 118-126 and 418-466)\<close>

text \<open>
  \<open>tf.nn.dropout(x, keep_prob)\<close> on one entry, with the uniform draw \<open>u\<close> from
  \<open>[0, 1)\<close> made explicit: \<open>x / keep_prob * floor(keep_prob + u)\<close>.
\<close>

definition dropout :: "real \<Rightarrow> real \<Rightarrow> real \<Rightarrow> real" where
  "dropout keep_prob u x = x / keep_prob * of_int \<lfloor>keep_prob + u\<rfloor>"

text \<open>
  One call of the cell \<open>build_single_cell\<close> returns: the GRU cell, and when
  \<open>use_dropout\<close> is set, dropout on its output with the fed \<open>keep_prob\<close>, one draw
  per entry. \<open>DropoutWrapper\<close> applies dropout whenever the keep probability is a
  tensor, whatever value is fed.
\<close>

definition single_cell_call ::
  "config \<Rightarrow> real \<Rightarrow> (nat \<Rightarrow> real) \<Rightarrow> ('x \<Rightarrow> 's \<Rightarrow> vec \<times> 's) \<Rightarrow> 'x \<Rightarrow> 's \<Rightarrow> vec \<times> 's" where
  "single_cell_call cfg keep_prob noise gru x s =
     (let (output, s') = gru x s
      in if use_dropout cfg
         then (map2 (dropout keep_prob) (map noise [0..<length output]) output, s')
         else (output, s'))"

text \<open>What a session holds: the values of the variables, and \<open>global_step\<close>.\<close>

record 'p session =
  variables :: 'p
  global_step :: int

text \<open>
  The rest of the training graph is left open: the GRU cell of call site \<open>k\<close> at given
  variables, the loss tensor as a function of the variables, of the cells it calls and of
  the fed batch, its gradients \<open>tf.gradients(ys=self.loss, xs=self.trainable_verbs)\<close>,
  one flattened tensor per trainable variable or \<open>None\<close> for a variable the loss does
  not depend on, and the variables \<open>self.optimizer.apply_gradients\<close> leaves behind for
  given gradients.
\<close>

record ('p, 'b, 'x, 's) network =
  gru_cell :: "'p \<Rightarrow> nat \<Rightarrow> 'x \<Rightarrow> 's \<Rightarrow> vec \<times> 's"
  loss_tensor :: "'p \<Rightarrow> (nat \<Rightarrow> 'x \<Rightarrow> 's \<Rightarrow> vec \<times> 's) \<Rightarrow> 'b \<Rightarrow> real"
  gradients :: "'p \<Rightarrow> (nat \<Rightarrow> 'x \<Rightarrow> 's \<Rightarrow> vec \<times> 's) \<Rightarrow> 'b \<Rightarrow> vec option list"
  apply_gradients :: "'p \<Rightarrow> vec option list \<Rightarrow> 'p"

text \<open>
  \<open>tf.global_norm(t_list)\<close>, as documented:
  \<open>sqrt(sum([l2norm(t)**2 for t in t_list]))\<close>, the entries that are \<open>None\<close> being
  ignored; \<open>l2norm(t)**2\<close> is the sum of the squares of the entries of \<open>t\<close>.
\<close>

definition global_norm :: "vec option list \<Rightarrow> real" where
  "global_norm t_list =
     sqrt (sum_list (map (\<lambda>t. case t of None \<Rightarrow> 0 | Some v \<Rightarrow> sum_list (map (\<lambda>x. x * x) v))
                       t_list))"

text \<open>
  \<open>tf.clip_by_global_norm(t_list, clip_norm)\<close>, as documented: it returns the clipped
  list and the global norm; entry \<open>i\<close> of the clipped list is
  \<open>t_list[i] * clip_norm / max(global_norm, clip_norm)\<close>, and \<open>None\<close> stays \<open>None\<close>.
\<close>

definition clip_by_global_norm :: "vec option list \<Rightarrow> real \<Rightarrow> vec option list \<times> real" where
  "clip_by_global_norm t_list clip_norm =
     (let use_norm = global_norm t_list
      in (map (map_option (map (\<lambda>x. x * clip_norm / max use_norm clip_norm))) t_list,
          use_norm))"

text \<open>
  The value of \<open>self.clip_gradients\<close> for given gradients (line 385), and what running
  \<open>self.train_op\<close> does to the session (lines 382 to 389): the optimizer is given the
  clipped gradients, and it increments \<open>global_step\<close>.
\<close>

definition clip_gradients :: "config \<Rightarrow> vec option list \<Rightarrow> vec option list" where
  "clip_gradients cfg gradients_value =
     fst (clip_by_global_norm gradients_value (max_gradient_norm cfg))"

definition train_op ::
  "config \<Rightarrow> ('p, 'b, 'x, 's) network \<Rightarrow> (nat \<Rightarrow> 'x \<Rightarrow> 's \<Rightarrow> vec \<times> 's) \<Rightarrow> 'b \<Rightarrow> 'p session
     \<Rightarrow> 'p session" where
  "train_op cfg net cells batch sess =
     (let gradients_value = gradients net (variables sess) cells batch
      in sess\<lparr>variables := apply_gradients net (variables sess)
                                (clip_gradients cfg gradients_value),
               global_step := global_step sess + 1\<rparr>)"

text \<open>
  \<open>sess.run(fetches, feed_dict)\<close> on the training graph, with the draws of this run
  made explicit (\<open>noise k j\<close> for entry \<open>j\<close> of call site \<open>k\<close>): it evaluates the loss,
  and it runs \<open>train_op\<close> only when that is among the fetches.
\<close>

definition sess_run ::
  "config \<Rightarrow> ('p, 'b, 'x, 's) network \<Rightarrow> request \<Rightarrow> 'b \<Rightarrow> (nat \<Rightarrow> nat \<Rightarrow> real) \<Rightarrow> 'p session
     \<Rightarrow> real \<times> 'p session" where
  "sess_run cfg net req batch noise sess =
     (let cells = (\<lambda>k. single_cell_call cfg (keep_prob_fed req) (noise k)
                          (gru_cell net (variables sess) k));
          loss_value = loss_tensor net (variables sess) cells batch
      in (loss_value,
          if ''train_op'' \<in> set (fetches req)
          then train_op cfg net cells batch sess
          else sess))"

definition train ::
  "seq2seq_model \<Rightarrow> config \<Rightarrow> ('p, 'b, 'x, 's) network \<Rightarrow> 'b \<Rightarrow> (nat \<Rightarrow> nat \<Rightarrow> real)
     \<Rightarrow> 'p session \<Rightarrow> error + real \<times> 'p session" where
  "train m cfg net batch noise sess =
     (case train_request cfg m of
        Inl e \<Rightarrow> Inl e
      | Inr req \<Rightarrow> Inr (sess_run cfg net req batch noise sess))"

text \<open>\<open>eval\<close> (the name is taken)\<close>

definition eval_loss ::
  "seq2seq_model \<Rightarrow> config \<Rightarrow> ('p, 'b, 'x, 's) network \<Rightarrow> 'b \<Rightarrow> (nat \<Rightarrow> nat \<Rightarrow> real)
     \<Rightarrow> 'p session \<Rightarrow> error + real \<times> 'p session" where
  "eval_loss m cfg net batch noise sess =
     (case eval_request m of
        Inl e \<Rightarrow> Inl e
      | Inr req \<Rightarrow> Inr (sess_run cfg net req batch noise sess))"

subsection \<open>An example configuration\<close>

text \<open>
  A small bidirectional model with one layer on each side, for the concrete instances
  below.
\<close>

definition example_config :: config where
  "example_config =
     \<lparr>hidden_units = 8, embedding_size = 4, encoder_max_time_steps = 3,
      decoder_max_time_steps = 2, encoder_depth = 1, decoder_depth = 1,
      encoder_vocab_size = 10, decoder_vocab_size = 10, logger_name = ''seq2seq'',
      dropout_rate = 1 / 2, use_fp16 = False, optimizer_type = ''adam'',
      learning_rate = 1 / 1000, max_gradient_norm = 5, use_bidirectional = True,
      use_dropout = True\<rparr>"

text \<open>A trivial encoder and decoder over one-point types, for the same purpose.\<close>

definition example_encoder :: "int32 list \<Rightarrow> int32 \<Rightarrow> unit" where
  "example_encoder tokens len = ()"

definition example_decoder :: "(unit, unit) decoder" where
  "example_decoder =
     \<lparr>embedding_lookup = (\<lambda>t. ()), decoder_cell = (\<lambda>x s. ([0], s)),
      logits_unit = (\<lambda>k v. 0)\<rparr>"

text \<open>The same decoder with logits that tell the classes apart: logit \<open>k\<close> is \<open>k\<close>.\<close>

definition example_decoder_graded :: "(unit, unit) decoder" where
  "example_decoder_graded =
     \<lparr>embedding_lookup = (\<lambda>t. ()), decoder_cell = (\<lambda>x s. ([0], s)),
      logits_unit = (\<lambda>k v. real k)\<rparr>"

section \<open>Teacher-forced decoder inputs and targets\<close>

lemma map2_append_replicate_left:
  "length xs = n \<Longrightarrow> map2 (@) (replicate n [g]) xs = map ((#) g) xs"
  by (induction xs arbitrary: n) auto

lemma map2_append_replicate_right:
  "length xs = n \<Longrightarrow> map2 (@) xs (replicate n [e]) = map (\<lambda>r. r @ [e]) xs"
  by (induction xs arbitrary: n) auto

lemma token_column: "times_scalar (ones n (Suc 0)) k = replicate n [k]"
  by (simp add: times_scalar_def ones_def)

text \<open>
  C1. When the decoder batch has as many rows as the encoder batch, the training
  placeholders are built, and: every row of \<open>decoder_inputs_train\<close> is \<open>GO\<close> followed by
  the raw decoder row; every row of \<open>decoder_targets_train\<close> is the raw decoder row
  followed by \<open>EOS\<close>; both length vectors are \<open>decoder_inputs_length + 1\<close>, elementwise
  in \<open>int32\<close>.
\<close>

theorem build_placeholders_train_shift:
  assumes "length decoder_inputs = length encoder_inputs"
  shows "\<exists>ph. build_placeholders_train GO EOS encoder_inputs decoder_inputs decoder_inputs_length
               = Inr ph
           \<and> decoder_inputs_train ph = map ((#) GO) decoder_inputs
           \<and> decoder_targets_train ph = map (\<lambda>r. r @ [EOS]) decoder_inputs
           \<and> decoder_inputs_train_length ph = map (\<lambda>l. l + 1) decoder_inputs_length
           \<and> decoder_targets_train_length ph = map (\<lambda>l. l + 1) decoder_inputs_length"
  using assms
  by (simp add: build_placeholders_train_def concat_last_def token_column Let_def
      map2_append_replicate_left map2_append_replicate_right)

theorem build_placeholders_train_shift_witness:
  "\<exists>ph. build_placeholders_train 1 2 [[4, 5, 6], [4, 5, 0]] [[7, 8], [7, 0]] [2, 1] = Inr ph
       \<and> decoder_inputs_train ph = [[1, 7, 8], [1, 7, 0]]
       \<and> decoder_targets_train ph = [[7, 8, 2], [7, 0, 2]]
       \<and> decoder_inputs_train_length ph = [3, 2]
       \<and> decoder_targets_train_length ph = [3, 2]"
  using build_placeholders_train_shift
    [of "[[7, 8], [7, 0]]" "[[4, 5, 6], [4, 5, 0]]" 1 2 "[2, 1]"]
  by simp

section \<open>Construction and the two modes\<close>


lemma mode_setattrs [simp]: "mode (setattrs ns m) = mode m"
  by (simp add: setattrs_def)

lemma attrs_setattrs [simp]: "attrs (setattrs ns m) = attrs m @ ns"
  by (simp add: setattrs_def)

lemma init_config_Inr:
  "init_config cfg m g = (Inr (setattrs [''config'', ''hidden_units'', ''embedding_size'',
                     ''encoder_max_time_steps'', ''decoder_max_time_steps'',
                     ''encoder_depth'', ''decoder_depth'', ''encoder_vocab_size'',
                     ''decoder_vocab_size'', ''logger_name'', ''dropout_rate'', ''dtype'',
                     ''optimizer_type'', ''learning_rate'', ''max_gradient_norm'',
                     ''use_bidirectional'', ''use_dropout'', ''global_step'',
                     ''global_epoch_step'', ''global_epoch_step_op''] m),
      g @ [''global_step'', ''global_epoch_step'', ''global_epoch_step_op''])"
  by (simp add: init_config_def)

lemma build_placeholders_mode:
  "build_placeholders cfg m g = (r, g') \<Longrightarrow> \<exists>m'. r = Inr m' \<and> mode m' = mode m"
  by (auto simp: build_placeholders_def Let_def split: if_splits)

lemma build_encoder_mode:
  "build_encoder cfg m g = (Inr m', g') \<Longrightarrow> mode m' = mode m"
  by (auto simp: build_encoder_def Let_def split: if_splits sum.splits option.splits)

lemma build_decoder_mode:
  "build_decoder cfg m g = (Inr m', g') \<Longrightarrow> mode m' = mode m"
  by (auto simp: build_decoder_def Let_def split: if_splits sum.splits option.splits)

lemma build_optimizer_mode:
  "build_optimizer cfg m g = (Inr m', g') \<Longrightarrow> mode m' = mode m"
  by (auto simp: build_optimizer_def Let_def split: if_splits sum.splits option.splits)

lemma and_then_Inr:
  "and_then r f = (Inr m', g') \<Longrightarrow> \<exists>m g. r = (Inr m, g) \<and> f m g = (Inr m', g')"
  by (auto simp: and_then_def split: prod.splits sum.splits)


lemma construct_invalid:
  "lower mode_arg \<notin> set [''train'', ''inference''] \<Longrightarrow>
     construct cfg mode_arg g = (Inl AssertionError, g)"
  unfolding construct_def by (rule if_P)

lemma construct_valid:
  "lower mode_arg \<in> set [''train'', ''inference''] \<Longrightarrow>
     construct cfg mode_arg g =
      and_then (and_then (and_then (and_then
          (init_config cfg
             \<lparr>mode = lower mode_arg, attrs = [''mode'', ''logger''],
              encoder_last_state = None\<rparr> g)
          (build_placeholders cfg)) (build_encoder cfg)) (build_decoder cfg))
          (build_optimizer cfg)"
  unfolding construct_def by (rule if_not_P) simp

lemma construct_chain:
  assumes "construct cfg mode_arg g = (Inr m, g')"
  shows "\<exists>m0 g0 m1 g1 m2 g2 m3 g3.
           lower mode_arg \<in> set [''train'', ''inference'']
         \<and> init_config cfg \<lparr>mode = lower mode_arg, attrs = [''mode'', ''logger''],
              encoder_last_state = None\<rparr> g = (Inr m0, g0)
         \<and> build_placeholders cfg m0 g0 = (Inr m1, g1)
         \<and> build_encoder cfg m1 g1 = (Inr m2, g2)
         \<and> build_decoder cfg m2 g2 = (Inr m3, g3)
         \<and> build_optimizer cfg m3 g3 = (Inr m, g')"
proof -
  have valid: "lower mode_arg \<in> set [''train'', ''inference'']"
  proof (rule ccontr)
    assume "\<not> ?thesis"
    from construct_invalid [OF this, of cfg g] assms show False by simp
  qed
  from construct_valid [OF valid, of cfg g] assms
  have c: "and_then (and_then (and_then (and_then
          (init_config cfg
             \<lparr>mode = lower mode_arg, attrs = [''mode'', ''logger''],
              encoder_last_state = None\<rparr> g)
          (build_placeholders cfg)) (build_encoder cfg)) (build_decoder cfg))
          (build_optimizer cfg) = (Inr m, g')"
    by simp
  from and_then_Inr [OF c] obtain m3 g3 where
    d: "and_then (and_then (and_then
          (init_config cfg \<lparr>mode = lower mode_arg, attrs = [''mode'', ''logger''],
              encoder_last_state = None\<rparr> g)
          (build_placeholders cfg)) (build_encoder cfg)) (build_decoder cfg) = (Inr m3, g3)"
    and o: "build_optimizer cfg m3 g3 = (Inr m, g')"
    by blast
  from and_then_Inr [OF d] obtain m2 g2 where
    e: "and_then (and_then
          (init_config cfg \<lparr>mode = lower mode_arg, attrs = [''mode'', ''logger''],
              encoder_last_state = None\<rparr> g)
          (build_placeholders cfg)) (build_encoder cfg) = (Inr m2, g2)"
    and d': "build_decoder cfg m2 g2 = (Inr m3, g3)"
    by blast
  from and_then_Inr [OF e] obtain m1 g1 where
    p: "and_then
          (init_config cfg \<lparr>mode = lower mode_arg, attrs = [''mode'', ''logger''],
              encoder_last_state = None\<rparr> g)
          (build_placeholders cfg) = (Inr m1, g1)"
    and e': "build_encoder cfg m1 g1 = (Inr m2, g2)"
    by blast
  from and_then_Inr [OF p] obtain m0 g0 where
    i: "init_config cfg \<lparr>mode = lower mode_arg, attrs = [''mode'', ''logger''],
              encoder_last_state = None\<rparr> g = (Inr m0, g0)"
    and p': "build_placeholders cfg m0 g0 = (Inr m1, g1)"
    by blast
  from valid i p' e' d' o show ?thesis by blast
qed

lemma init_config_attrs:
  "init_config cfg m g = (Inr m', g') \<Longrightarrow>
     mode m' = mode m \<and>
     attrs m' = attrs m @
           [''config'', ''hidden_units'', ''embedding_size'',
            ''encoder_max_time_steps'', ''decoder_max_time_steps'',
            ''encoder_depth'', ''decoder_depth'', ''encoder_vocab_size'',
            ''decoder_vocab_size'', ''logger_name'', ''dropout_rate'', ''dtype'',
            ''optimizer_type'', ''learning_rate'', ''max_gradient_norm'',
            ''use_bidirectional'', ''use_dropout'', ''global_step'',
            ''global_epoch_step'', ''global_epoch_step_op'']"
  by (auto simp: init_config_def)

lemma build_placeholders_attrs_train:
  "build_placeholders cfg m g = (Inr m', g') \<Longrightarrow> mode m = ''train'' \<Longrightarrow>
     mode m' = mode m \<and>
     attrs m' = attrs m @ [''keep_prob'', ''encoder_inputs'', ''encoder_inputs_length'',
                            ''batch_size'', ''decoder_inputs'', ''decoder_inputs_length'',
              ''decoder_start_token'', ''decoder_end_token'',
              ''decoder_inputs_train'', ''decoder_inputs_train_length'',
              ''decoder_targets_train'', ''decoder_targets_train_length'']"
  by (auto simp: build_placeholders_def Let_def)

lemma build_placeholders_attrs_inference:
  "build_placeholders cfg m g = (Inr m', g') \<Longrightarrow> mode m \<noteq> ''train'' \<Longrightarrow>
     mode m' = mode m \<and>
     attrs m' = attrs m @ [''keep_prob'', ''encoder_inputs'', ''encoder_inputs_length'',
                            ''batch_size'', ''decoder_inputs'', ''decoder_inputs_inference'',
              ''decoder_inputs_inference_length'']"
  by (auto simp: build_placeholders_def Let_def)

lemma build_encoder_attrs:
  "build_encoder cfg m g = (Inr m', g') \<Longrightarrow>
     mode m' = mode m \<and> set (attrs m) \<subseteq> set (attrs m') \<and>
     set (attrs m') \<subseteq> set (attrs m) \<union>
       set [''encoder_embeddings'', ''encoder_inputs_embedded'',
            ''encoder_inputs_embedded_dense'', ''encoder_cell'', ''encoder_outputs'',
            ''encoder_last_state'']"
  by (auto simp: build_encoder_def Let_def split: if_splits sum.splits option.splits)

lemma build_decoder_attrs_train:
  "build_decoder cfg m g = (Inr m', g') \<Longrightarrow> mode m = ''train'' \<Longrightarrow>
     mode m' = mode m \<and>
     attrs m' = attrs m @ [''decoder_initial_state'', ''decoder_cell'', ''decoder_embeddings'',
                  ''decoder_inputs_embedded'', ''decoder_outputs'', ''decoder_last_state'',
                  ''decoder_logits'', ''decoder_masks'', ''loss'']"
  by (auto simp: build_decoder_def Let_def split: sum.splits option.splits)

lemma build_decoder_attrs_inference:
  "build_decoder cfg m g = (Inr m', g') \<Longrightarrow> mode m \<noteq> ''train'' \<Longrightarrow>
     mode m' = mode m \<and>
     attrs m' = attrs m @ [''decoder_initial_state'', ''decoder_cell'', ''decoder_embeddings'',
                  ''decoder_initial_tokens'', ''decoder_initial_tokens_embedded'',
                  ''decoder_outputs'', ''decoder_logits'', ''decoder_probabilities'',
                  ''decoder_predicts'', ''decoder_scores'', ''decoder_last_state'',
                  ''decoder_outputs'', ''decoder_logits'', ''decoder_probabilities'',
                  ''decoder_predicts'', ''decoder_scores'']"
  by (auto simp: build_decoder_def Let_def split: sum.splits if_splits option.splits)

lemma build_optimizer_attrs:
  "build_optimizer cfg m g = (Inr m', g') \<Longrightarrow>
     set (attrs m) \<subseteq> set (attrs m') \<and>
     set (attrs m') \<subseteq> set (attrs m) \<union>
        set [''trainable_verbs'', ''optimizer'', ''gradients'', ''clip_gradients'', ''train_op'']"
  by (auto simp: build_optimizer_def Let_def split: if_splits option.splits)

lemma build_optimizer_attrs_inference:
  "build_optimizer cfg m g = (Inr m', g') \<Longrightarrow> mode m \<noteq> ''train'' \<Longrightarrow> m' = m"
  by (auto simp: build_optimizer_def)

lemma construct_modes:
  assumes "init_config cfg m g = (Inr m0, g0)"
    and "build_placeholders cfg m0 g0 = (Inr m1, g1)"
    and "build_encoder cfg m1 g1 = (Inr m2, g2)"
    and "build_decoder cfg m2 g2 = (Inr m3, g3)"
    and "build_optimizer cfg m3 g3 = (Inr m4, g4)"
  shows "mode m3 = mode m4" "mode m2 = mode m4" "mode m1 = mode m4" "mode m0 = mode m4"
    "mode m = mode m4"
  using build_optimizer_mode [OF assms(5)] build_decoder_mode [OF assms(4)]
    build_encoder_mode [OF assms(3)] build_placeholders_mode [OF assms(2)]
    init_config_attrs [OF assms(1)]
  by simp_all

lemma not_encoder_attr:
  "''decoder_predicts'' \<notin> set [''encoder_embeddings'', ''encoder_inputs_embedded'',
            ''encoder_inputs_embedded_dense'', ''encoder_cell'', ''encoder_outputs'',
            ''encoder_last_state'']"
  "''decoder_scores'' \<notin> set [''encoder_embeddings'', ''encoder_inputs_embedded'',
            ''encoder_inputs_embedded_dense'', ''encoder_cell'', ''encoder_outputs'',
            ''encoder_last_state'']"
  "''decoder_inputs_length'' \<notin> set [''encoder_embeddings'', ''encoder_inputs_embedded'',
            ''encoder_inputs_embedded_dense'', ''encoder_cell'', ''encoder_outputs'',
            ''encoder_last_state'']"
  "''loss'' \<notin> set [''encoder_embeddings'', ''encoder_inputs_embedded'',
            ''encoder_inputs_embedded_dense'', ''encoder_cell'', ''encoder_outputs'',
            ''encoder_last_state'']"
  "''train_op'' \<notin> set [''encoder_embeddings'', ''encoder_inputs_embedded'',
            ''encoder_inputs_embedded_dense'', ''encoder_cell'', ''encoder_outputs'',
            ''encoder_last_state'']"
  by simp_all

lemma not_optimizer_attr:
  "''decoder_predicts'' \<notin> set [''trainable_verbs'', ''optimizer'', ''gradients'',
      ''clip_gradients'', ''train_op'']"
  "''decoder_scores'' \<notin> set [''trainable_verbs'', ''optimizer'', ''gradients'',
      ''clip_gradients'', ''train_op'']"
  by simp_all

lemma train_model_attrs:
  assumes "construct cfg mode_arg g = (Inr m, g')" and "mode m = ''train''"
  shows "''decoder_predicts'' \<notin> set (attrs m)" and "''decoder_scores'' \<notin> set (attrs m)"
    and "''encoder_inputs'' \<in> set (attrs m)" and "''encoder_inputs_length'' \<in> set (attrs m)"
    and "''keep_prob'' \<in> set (attrs m)"
    and "''decoder_inputs'' \<in> set (attrs m)" and "''decoder_inputs_length'' \<in> set (attrs m)"
    and "''loss'' \<in> set (attrs m)"
proof -
  from construct_chain [OF assms(1)] obtain m0 g0 m1 g1 m2 g2 m3 g3 where
    i: "init_config cfg \<lparr>mode = lower mode_arg, attrs = [''mode'', ''logger''],
              encoder_last_state = None\<rparr> g = (Inr m0, g0)"
    and p: "build_placeholders cfg m0 g0 = (Inr m1, g1)"
    and e: "build_encoder cfg m1 g1 = (Inr m2, g2)"
    and d: "build_decoder cfg m2 g2 = (Inr m3, g3)"
    and o: "build_optimizer cfg m3 g3 = (Inr m, g')"
    by blast
  note modes = construct_modes [OF i p e d o, unfolded assms(2)]
  note I = init_config_attrs [OF i, THEN conjunct2]
    and P = build_placeholders_attrs_train [OF p modes(4), THEN conjunct2]
    and E = build_encoder_attrs [OF e, THEN conjunct2]
    and D = build_decoder_attrs_train [OF d modes(2), THEN conjunct2]
    and O = build_optimizer_attrs [OF o]
  have a1: "''decoder_predicts'' \<notin> set (attrs m1)" "''decoder_scores'' \<notin> set (attrs m1)"
    "''encoder_inputs'' \<in> set (attrs m1)" "''encoder_inputs_length'' \<in> set (attrs m1)"
    "''keep_prob'' \<in> set (attrs m1)"
    "''decoder_inputs'' \<in> set (attrs m1)" "''decoder_inputs_length'' \<in> set (attrs m1)"
    unfolding P I by simp_all
  have a2: "''decoder_predicts'' \<notin> set (attrs m2)" "''decoder_scores'' \<notin> set (attrs m2)"
    "''encoder_inputs'' \<in> set (attrs m2)" "''encoder_inputs_length'' \<in> set (attrs m2)"
    "''keep_prob'' \<in> set (attrs m2)"
    "''decoder_inputs'' \<in> set (attrs m2)" "''decoder_inputs_length'' \<in> set (attrs m2)"
    using a1 E not_encoder_attr by blast+
  have a3: "''decoder_predicts'' \<notin> set (attrs m3)" "''decoder_scores'' \<notin> set (attrs m3)"
    "''encoder_inputs'' \<in> set (attrs m3)" "''encoder_inputs_length'' \<in> set (attrs m3)"
    "''keep_prob'' \<in> set (attrs m3)"
    "''decoder_inputs'' \<in> set (attrs m3)" "''decoder_inputs_length'' \<in> set (attrs m3)"
    "''loss'' \<in> set (attrs m3)"
    unfolding D using a2 by simp_all
  show "''decoder_predicts'' \<notin> set (attrs m)" "''decoder_scores'' \<notin> set (attrs m)"
    "''encoder_inputs'' \<in> set (attrs m)" "''encoder_inputs_length'' \<in> set (attrs m)"
    "''keep_prob'' \<in> set (attrs m)"
    "''decoder_inputs'' \<in> set (attrs m)" "''decoder_inputs_length'' \<in> set (attrs m)"
    "''loss'' \<in> set (attrs m)"
    using a3 O not_optimizer_attr by blast+
qed

lemma inference_model_attrs:
  assumes "construct cfg mode_arg g = (Inr m, g')" and "mode m \<noteq> ''train''"
  shows "''decoder_inputs_length'' \<notin> set (attrs m)" and "''loss'' \<notin> set (attrs m)"
    and "''train_op'' \<notin> set (attrs m)"
    and "''encoder_inputs'' \<in> set (attrs m)" and "''encoder_inputs_length'' \<in> set (attrs m)"
    and "''decoder_inputs'' \<in> set (attrs m)" and "''keep_prob'' \<in> set (attrs m)"
    and "''decoder_predicts'' \<in> set (attrs m)" and "''decoder_scores'' \<in> set (attrs m)"
proof -
  from construct_chain [OF assms(1)] obtain m0 g0 m1 g1 m2 g2 m3 g3 where
    i: "init_config cfg \<lparr>mode = lower mode_arg, attrs = [''mode'', ''logger''],
              encoder_last_state = None\<rparr> g = (Inr m0, g0)"
    and p: "build_placeholders cfg m0 g0 = (Inr m1, g1)"
    and e: "build_encoder cfg m1 g1 = (Inr m2, g2)"
    and d: "build_decoder cfg m2 g2 = (Inr m3, g3)"
    and o: "build_optimizer cfg m3 g3 = (Inr m, g')"
    by blast
  note modes = construct_modes [OF i p e d o]
  have n: "mode m3 \<noteq> ''train''" "mode m2 \<noteq> ''train''" "mode m0 \<noteq> ''train''"
    using modes assms(2) by simp_all
  note I = init_config_attrs [OF i, THEN conjunct2]
    and P = build_placeholders_attrs_inference [OF p n(3), THEN conjunct2]
    and E = build_encoder_attrs [OF e, THEN conjunct2]
    and D = build_decoder_attrs_inference [OF d n(2), THEN conjunct2]
    and O = build_optimizer_attrs_inference [OF o n(1)]
  have a1: "''decoder_inputs_length'' \<notin> set (attrs m1)" "''loss'' \<notin> set (attrs m1)"
    "''train_op'' \<notin> set (attrs m1)"
    "''encoder_inputs'' \<in> set (attrs m1)" "''encoder_inputs_length'' \<in> set (attrs m1)"
    "''decoder_inputs'' \<in> set (attrs m1)" "''keep_prob'' \<in> set (attrs m1)"
    unfolding P I by simp_all
  have a2: "''decoder_inputs_length'' \<notin> set (attrs m2)" "''loss'' \<notin> set (attrs m2)"
    "''train_op'' \<notin> set (attrs m2)"
    "''encoder_inputs'' \<in> set (attrs m2)" "''encoder_inputs_length'' \<in> set (attrs m2)"
    "''decoder_inputs'' \<in> set (attrs m2)" "''keep_prob'' \<in> set (attrs m2)"
    using a1 E not_encoder_attr by blast+
  show "''decoder_inputs_length'' \<notin> set (attrs m)" "''loss'' \<notin> set (attrs m)"
    "''train_op'' \<notin> set (attrs m)"
    "''encoder_inputs'' \<in> set (attrs m)" "''encoder_inputs_length'' \<in> set (attrs m)"
    "''decoder_inputs'' \<in> set (attrs m)" "''keep_prob'' \<in> set (attrs m)"
    "''decoder_predicts'' \<in> set (attrs m)" "''decoder_scores'' \<in> set (attrs m)"
    unfolding O D using a2 by simp_all
qed


lemma lower_char_idem: "lower_char (lower_char c) = lower_char c"
  by (cases c) (simp add: Let_def)

lemma lower_idem: "lower (lower s) = lower s"
  by (simp add: lower_def lower_char_idem)

lemma init_config_no_assert: "fst (init_config cfg m g) \<noteq> Inl AssertionError"
  by (simp add: init_config_def)

lemma build_placeholders_no_assert: "fst (build_placeholders cfg m g) \<noteq> Inl AssertionError"
  by (simp add: build_placeholders_def Let_def)

lemma multi_cell_error: "multi_cell cfg d = Inl e \<Longrightarrow> e = ValueError"
  by (auto simp: multi_cell_def Let_def split: if_splits)

lemma multi_cell_Inr: "multi_cell cfg d = Inr c \<Longrightarrow> \<exists>cells. c = MultiRNNCell cells"
  by (auto simp: multi_cell_def Let_def split: if_splits)

lemma multi_cell_positive:
  "0 < d \<Longrightarrow> multi_cell cfg d = Inr (MultiRNNCell (replicate (nat d) (build_single_cell cfg)))"
  by (simp add: multi_cell_def Let_def)

lemma multi_cell_nonpositive: "d \<le> 0 \<Longrightarrow> multi_cell cfg d = Inl ValueError"
  by (simp add: multi_cell_def Let_def)

lemma build_encoder_error:
  "build_encoder cfg m g = (Inl e, g') \<Longrightarrow> e = ValueError"
  by (auto simp: build_encoder_def build_encoder_cell_def Let_def
      split: if_splits sum.splits option.splits dest: multi_cell_error dest!: multi_cell_Inr)

lemma build_encoder_succeeds:
  "use_bidirectional cfg \<or> 0 < encoder_depth cfg \<Longrightarrow>
     \<exists>m' g'. build_encoder cfg m g = (Inr m', g')"
  by (auto simp: build_encoder_def build_encoder_cell_def Let_def multi_cell_positive
      build_single_cell_def split: sum.splits option.splits)

lemma build_encoder_fails:
  "\<not> use_bidirectional cfg \<Longrightarrow> encoder_depth cfg \<le> 0 \<Longrightarrow>
     \<exists>g'. build_encoder cfg m g = (Inl ValueError, g')"
  by (simp add: build_encoder_def build_encoder_cell_def Let_def multi_cell_nonpositive)

text \<open>
  The state \<open>build_encoder\<close> sets is a tuple of tensors, one per layer of the encoder;
  the bidirectional encoder has one layer at least, whatever \<open>encoder_depth\<close> says.
\<close>

lemma build_encoder_layers:
  assumes "build_encoder cfg m g = (Inr m', g')"
  shows "\<exists>ts. encoder_last_state m' = Some (Tuple (map Tensor ts))
           \<and> int (length ts) =
               (if use_bidirectional cfg then max 1 (encoder_depth cfg) else encoder_depth cfg)"
proof (cases "use_bidirectional cfg")
  case True
  consider "encoder_depth cfg < 2" | "encoder_depth cfg = 2" | "2 < encoder_depth cfg"
    by linarith
  then show ?thesis
  proof cases
    case 1
    with True assms have "encoder_last_state m' = Some (Tuple (map Tensor [Bi_fw]))"
      by (auto simp: build_encoder_def Let_def)
    moreover have "int (length [Bi_fw]) = max 1 (encoder_depth cfg)" using 1 by simp
    ultimately show ?thesis using True by (simp only: if_True) blast
  next
    case 2
    with True assms have "encoder_last_state m' = Some (Tuple (map Tensor [Bi_fw, Upper 0]))"
      by (auto simp: build_encoder_def Let_def build_single_cell_def)
    moreover have "int (length [Bi_fw, Upper 0]) = max 1 (encoder_depth cfg)" using 2 by simp
    ultimately show ?thesis using True by (simp only: if_True) blast
  next
    case 3
    then have p: "0 < encoder_depth cfg - 1" "encoder_depth cfg - 1 \<noteq> 0" by simp_all
    with True 3 assms have "encoder_last_state m' =
        Some (Tuple (map Tensor (Bi_fw # map Upper [0..<nat (encoder_depth cfg - 1)])))"
      by (auto simp: build_encoder_def Let_def build_encoder_cell_def multi_cell_positive
          comp_def)
    moreover have "int (length (Bi_fw # map Upper [0..<nat (encoder_depth cfg - 1)])) =
        max 1 (encoder_depth cfg)" using 3 by simp
    ultimately show ?thesis using True by (simp only: if_True) blast
  qed
next
  case False
  show ?thesis
  proof (cases "0 < encoder_depth cfg")
    case True
    with False assms have "encoder_last_state m' =
        Some (Tuple (map Tensor (map Stack [0..<nat (encoder_depth cfg)])))"
      by (auto simp: build_encoder_def Let_def build_encoder_cell_def multi_cell_positive
          comp_def)
    moreover have "int (length (map Stack [0..<nat (encoder_depth cfg)])) = encoder_depth cfg"
      using True by simp
    ultimately show ?thesis using False by (simp only: if_False) blast
  next
    case d: False
    with False build_encoder_fails [of cfg m g] assms show ?thesis by auto
  qed
qed

lemma cell_call_error: "cell_call cell st = Inl e \<Longrightarrow> e = ValueError \<or> e = IndexError"
  by (cases "(cell, st)" rule: cell_call.cases) (auto split: if_splits)

lemma dynamic_rnn_build_error:
  "dynamic_rnn_build cell st = Inl e \<Longrightarrow> e = ValueError \<or> e = IndexError"
  by (auto simp: dynamic_rnn_build_def split: sum.splits if_splits dest: cell_call_error)

lemma decoder_loop_build_error:
  "decoder_loop_build cell k st = Inl e \<Longrightarrow> e = ValueError \<or> e = IndexError"
  by (induction k arbitrary: st) (auto split: sum.splits dest: cell_call_error)

lemma same_structure_tensors:
  "same_structure (Tuple (map Tensor as)) (Tuple (map Tensor bs)) = (length as = length bs)"
proof (induction as arbitrary: bs)
  case Nil
  then show ?case by (cases bs) simp_all
next
  case (Cons a as)
  then show ?case by (cases bs) simp_all
qed

text \<open>
  What \<open>dynamic_rnn\<close> makes of a decoder cell and a tuple of tensors: the tuple must have
  as many entries as the cell has layers.
\<close>

lemma dynamic_rnn_build_tuple:
  "dynamic_rnn_build (MultiRNNCell cells) (Tuple (map Tensor ts)) =
     (if length ts < length cells then Inl IndexError
      else if length cells < length ts then Inl ValueError
      else Inr (Tuple (map Tensor (map Decoder [0..<length cells]))))"
  using same_structure_tensors [of ts "map Decoder [0..<length cells]"]
  by (auto simp: dynamic_rnn_build_def comp_def)

lemma build_decoder_error:
  "build_decoder cfg m g = (Inl e, g') \<Longrightarrow>
     e = ValueError \<or> e = IndexError \<or> e = AttributeError ''encoder_last_state''"
  by (auto simp: build_decoder_def build_decoder_cell_def Let_def
      split: if_splits sum.splits option.splits
      dest: multi_cell_error dynamic_rnn_build_error decoder_loop_build_error)

text \<open>
  \<open>build_decoder\<close> in mode \<open>train\<close>, on an initial state with \<open>length ts\<close> layers: it
  needs a positive \<open>decoder_depth\<close>, equal to the number of layers of the state.
\<close>

lemma build_decoder_train:
  assumes "mode m = ''train''" and "encoder_last_state m = Some (Tuple (map Tensor ts))"
  shows "0 < decoder_depth cfg \<Longrightarrow> decoder_depth cfg = int (length ts) \<Longrightarrow>
           \<exists>m' g'. build_decoder cfg m g = (Inr m', g')"
    and "0 < decoder_depth cfg \<Longrightarrow> int (length ts) < decoder_depth cfg \<Longrightarrow>
           \<exists>g'. build_decoder cfg m g = (Inl IndexError, g')"
    and "decoder_depth cfg \<le> 0 \<or> decoder_depth cfg < int (length ts) \<Longrightarrow>
           \<exists>g'. build_decoder cfg m g = (Inl ValueError, g')"
proof -
  assume "0 < decoder_depth cfg" "decoder_depth cfg = int (length ts)"
  then show "\<exists>m' g'. build_decoder cfg m g = (Inr m', g')"
    using assms
    by (simp add: build_decoder_def build_decoder_cell_def Let_def multi_cell_positive
        dynamic_rnn_build_tuple)
next
  assume d: "0 < decoder_depth cfg" "int (length ts) < decoder_depth cfg"
  then have "length ts < nat (decoder_depth cfg)" by linarith
  with d show "\<exists>g'. build_decoder cfg m g = (Inl IndexError, g')"
    using assms
    by (simp add: build_decoder_def build_decoder_cell_def Let_def multi_cell_positive
        dynamic_rnn_build_tuple)
next
  assume a: "decoder_depth cfg \<le> 0 \<or> decoder_depth cfg < int (length ts)"
  show "\<exists>g'. build_decoder cfg m g = (Inl ValueError, g')"
  proof (cases "decoder_depth cfg \<le> 0")
    case True
    then show ?thesis
      using assms
      by (simp add: build_decoder_def build_decoder_cell_def Let_def multi_cell_nonpositive)
  next
    case False
    with a have d: "0 < decoder_depth cfg" "decoder_depth cfg < int (length ts)" by simp_all
    then have "nat (decoder_depth cfg) < length ts" by linarith
    with d show ?thesis
      using assms
      by (simp add: build_decoder_def build_decoder_cell_def Let_def multi_cell_positive
          dynamic_rnn_build_tuple)
  qed
qed

lemma getattrs_error: "getattrs m ns = Some e \<Longrightarrow> \<exists>n \<in> set ns. e = AttributeError n"
  by (induction ns) (auto simp: getattr_def split: if_splits option.splits)

lemma getattrs_None: "set ns \<subseteq> set (attrs m) \<Longrightarrow> getattrs m ns = None"
  by (induction ns) (auto simp: getattr_def)

lemma getattrs_first_missing:
  "set ns \<subseteq> set (attrs m) \<Longrightarrow> n \<notin> set (attrs m) \<Longrightarrow>
     getattrs m (ns @ n # rest) = Some (AttributeError n)"
  by (induction ns) (auto simp: getattr_def)

lemma build_optimizer_error:
  "build_optimizer cfg m g = (Inl e, g') \<Longrightarrow> \<exists>n. e = AttributeError n"
  by (auto simp: build_optimizer_def Let_def simp del: getattrs.simps
      split: if_splits option.splits dest!: getattrs_error)

lemma build_optimizer_no_optimizer:
  assumes "mode m = ''train''" and "lower (optimizer_type cfg) \<noteq> ''adam''"
    and "''loss'' \<in> set (attrs m)" and "''optimizer'' \<notin> set (attrs m)"
  shows "build_optimizer cfg m g =
           (Inl (AttributeError ''optimizer''), g @ [''gradients'', ''clip_gradients''])"
proof -
  have 1: "getattrs (setattrs [''trainable_verbs''] m) [''loss'', ''trainable_verbs''] = None"
    using assms(3) by (intro getattrs_None) simp
  have 2: "getattrs (setattrs [''gradients'', ''clip_gradients'']
               (setattrs [''trainable_verbs''] m))
             ([] @ ''optimizer'' # [''clip_gradients'', ''trainable_verbs'', ''global_step''])
           = Some (AttributeError ''optimizer'')"
    using assms(4) by (intro getattrs_first_missing) simp_all
  show ?thesis
    using assms(1,2) 1 2 by (simp add: build_optimizer_def Let_def del: getattrs.simps)
qed

lemma and_then_Inl:
  "and_then r f = (Inl e, g') \<Longrightarrow>
     r = (Inl e, g') \<or> (\<exists>m g. r = (Inr m, g) \<and> f m g = (Inl e, g'))"
  by (auto simp: and_then_def split: prod.splits sum.splits)

lemma and_then_cases:
  "(\<exists>e g'. r = (Inl e, g') \<and> and_then r f = (Inl e, g')) \<or>
   (\<exists>m g. r = (Inr m, g) \<and> and_then r f = f m g)"
  by (cases r; cases "fst r") (auto simp: and_then_def)


lemma and_then_no_assert:
  assumes "fst r \<noteq> Inl AssertionError" and "\<And>m g. fst (f m g) \<noteq> Inl AssertionError"
  shows "fst (and_then r f) \<noteq> Inl AssertionError"
  using assms and_then_cases [of r f] by auto

lemma build_encoder_no_assert: "fst (build_encoder cfg m g) \<noteq> Inl AssertionError"
  by (cases "build_encoder cfg m g") (auto dest: build_encoder_error)

lemma build_decoder_no_assert: "fst (build_decoder cfg m g) \<noteq> Inl AssertionError"
  by (cases "build_decoder cfg m g") (auto dest: build_decoder_error)

lemma build_optimizer_no_assert: "fst (build_optimizer cfg m g) \<noteq> Inl AssertionError"
  by (cases "build_optimizer cfg m g") (auto dest: build_optimizer_error)

text \<open>
  C10. The mode string is compared after \<open>lower()\<close>. When its lower-cased form is
  \<open>train\<close> or \<open>inference\<close>, construction gives what it gives for the lower-cased
  string, does not raise \<open>AssertionError\<close>, and a model it returns has the lower-cased
  string as its \<open>mode\<close>. For every other string it raises \<open>AssertionError\<close> and leaves
  the graph as it found it.
\<close>

theorem construct_mode_case_insensitive:
  "(lower mode_arg \<in> set [''train'', ''inference''] \<longrightarrow>
      construct cfg mode_arg g = construct cfg (lower mode_arg) g
      \<and> fst (construct cfg mode_arg g) \<noteq> Inl AssertionError
      \<and> (\<forall>m g'. construct cfg mode_arg g = (Inr m, g') \<longrightarrow> mode m = lower mode_arg))
   \<and> (lower mode_arg \<notin> set [''train'', ''inference''] \<longrightarrow>
        construct cfg mode_arg g = (Inl AssertionError, g))"
proof (intro conjI impI allI)
  assume v: "lower mode_arg \<in> set [''train'', ''inference'']"
  then have v': "lower (lower mode_arg) \<in> set [''train'', ''inference'']"
    by (simp only: lower_idem)
  show "construct cfg mode_arg g = construct cfg (lower mode_arg) g"
    by (simp only: construct_valid [OF v] construct_valid [OF v'] lower_idem)
  show "fst (construct cfg mode_arg g) \<noteq> Inl AssertionError"
    unfolding construct_valid [OF v]
    by (intro and_then_no_assert init_config_no_assert build_placeholders_no_assert
        build_encoder_no_assert build_decoder_no_assert build_optimizer_no_assert)
next
  fix m g'
  assume "construct cfg mode_arg g = (Inr m, g')"
  from construct_chain [OF this] obtain m0 g0 m1 g1 m2 g2 m3 g3 where
    i: "init_config cfg \<lparr>mode = lower mode_arg, attrs = [''mode'', ''logger''],
              encoder_last_state = None\<rparr> g = (Inr m0, g0)"
    and p: "build_placeholders cfg m0 g0 = (Inr m1, g1)"
    and e: "build_encoder cfg m1 g1 = (Inr m2, g2)"
    and d: "build_decoder cfg m2 g2 = (Inr m3, g3)"
    and o: "build_optimizer cfg m3 g3 = (Inr m, g')"
    by blast
  from construct_modes(5) [OF i p e d o] show "mode m = lower mode_arg" by simp
next
  assume "lower mode_arg \<notin> set [''train'', ''inference'']"
  then show "construct cfg mode_arg g = (Inl AssertionError, g)"
    by (rule construct_invalid)
qed

text \<open>
  C9. On any model the constructor returns: in mode \<open>train\<close>, \<open>inference\<close> raises
  \<open>AttributeError\<close> on \<open>self.decoder_predicts\<close>, and neither \<open>decoder_predicts\<close>
  nor \<open>decoder_scores\<close> was ever set; in mode \<open>inference\<close>, \<open>train\<close> and \<open>eval\<close>
  raise \<open>AttributeError\<close> on \<open>self.decoder_inputs_length\<close>, and none of \<open>loss\<close>,
  \<open>train_op\<close> and \<open>decoder_inputs_length\<close> was ever set. All three fail before
  \<open>sess.run\<close> is reached.
\<close>

theorem modes_build_disjoint_operations:
  assumes "construct cfg mode_arg g = (Inr m, g')"
  shows "(mode m = ''train'' \<longrightarrow>
            inference_request m = Inl (AttributeError ''decoder_predicts'')
            \<and> ''decoder_predicts'' \<notin> set (attrs m) \<and> ''decoder_scores'' \<notin> set (attrs m))
       \<and> (mode m = ''inference'' \<longrightarrow>
            train_request cfg m = Inl (AttributeError ''decoder_inputs_length'')
            \<and> eval_request m = Inl (AttributeError ''decoder_inputs_length'')
            \<and> ''loss'' \<notin> set (attrs m) \<and> ''train_op'' \<notin> set (attrs m)
            \<and> ''decoder_inputs_length'' \<notin> set (attrs m))"
proof (intro conjI impI)
  assume t: "mode m = ''train''"
  note a = train_model_attrs [OF assms t]
  have "getattrs m ([''encoder_inputs'', ''encoder_inputs_length'', ''keep_prob''] @
          ''decoder_predicts'' # [''decoder_scores'']) = Some (AttributeError ''decoder_predicts'')"
    using a by (intro getattrs_first_missing) simp_all
  then show "inference_request m = Inl (AttributeError ''decoder_predicts'')"
    by (simp add: inference_request_def del: getattrs.simps)
  from a show "''decoder_predicts'' \<notin> set (attrs m)" "''decoder_scores'' \<notin> set (attrs m)"
    by simp_all
next
  assume "mode m = ''inference''"
  then have n: "mode m \<noteq> ''train''" by simp
  note a = inference_model_attrs [OF assms n]
  have "getattrs m ([''encoder_inputs'', ''encoder_inputs_length'', ''decoder_inputs''] @
          ''decoder_inputs_length'' # [''keep_prob'', ''dropout_rate'', ''loss'', ''train_op''])
        = Some (AttributeError ''decoder_inputs_length'')"
    using a by (intro getattrs_first_missing) simp_all
  then show "train_request cfg m = Inl (AttributeError ''decoder_inputs_length'')"
    by (simp add: train_request_def del: getattrs.simps)
  have "getattrs m ([''encoder_inputs'', ''encoder_inputs_length'', ''decoder_inputs''] @
          ''decoder_inputs_length'' # [''keep_prob'', ''loss''])
        = Some (AttributeError ''decoder_inputs_length'')"
    using a by (intro getattrs_first_missing) simp_all
  then show "eval_request m = Inl (AttributeError ''decoder_inputs_length'')"
    by (simp add: eval_request_def del: getattrs.simps)
  from a show "''loss'' \<notin> set (attrs m)" "''train_op'' \<notin> set (attrs m)"
    "''decoder_inputs_length'' \<notin> set (attrs m)"
    by simp_all
qed


lemma build_placeholders_succeeds:
  "\<exists>m' g'. build_placeholders cfg m g = (Inr m', g')"
  by (simp add: build_placeholders_def Let_def)

lemma before_optimizer:
  fixes cfg :: config and g :: graph and mode_arg :: string
  assumes v: "lower mode_arg = ''train''"
    and n: "layers = (if use_bidirectional cfg then max 1 (encoder_depth cfg)
                      else encoder_depth cfg)"
  defines "m00 \<equiv> \<lparr>mode = lower mode_arg, attrs = [''mode'', ''logger''],
              encoder_last_state = None\<rparr>"
  defines "r \<equiv> and_then (and_then (and_then (init_config cfg m00 g)
          (build_placeholders cfg)) (build_encoder cfg)) (build_decoder cfg)"
  shows "0 < decoder_depth cfg \<and> decoder_depth cfg = layers \<Longrightarrow>
           \<exists>m3 g3. r = (Inr m3, g3) \<and> mode m3 = ''train'' \<and> ''loss'' \<in> set (attrs m3)
              \<and> ''optimizer'' \<notin> set (attrs m3)"
    and "0 < layers \<and> layers < decoder_depth cfg \<Longrightarrow> \<exists>g'. r = (Inl IndexError, g')"
    and "layers \<le> 0 \<or> decoder_depth cfg \<le> 0 \<or> decoder_depth cfg < layers \<Longrightarrow>
           \<exists>g'. r = (Inl ValueError, g')"
proof -
  obtain m0 g0 where i: "init_config cfg m00 g = (Inr m0, g0)"
    by (simp add: init_config_def)
  obtain m1 g1 where p: "build_placeholders cfg m0 g0 = (Inr m1, g1)"
    using build_placeholders_succeeds by blast
  have mm: "mode m0 = ''train''" "mode m1 = ''train''"
    using init_config_attrs [OF i] build_placeholders_mode [OF p] v by (simp_all add: m00_def)
  note I = init_config_attrs [OF i, THEN conjunct2]
    and P = build_placeholders_attrs_train [OF p mm(1), THEN conjunct2]
  have a1: "''optimizer'' \<notin> set (attrs m1)"
    unfolding P I by (simp add: m00_def)
  have r1: "r = and_then (build_encoder cfg m1 g1) (build_decoder cfg)"
    by (simp add: r_def i p and_then_def)
  have pos: "0 < layers \<Longrightarrow> use_bidirectional cfg \<or> 0 < encoder_depth cfg"
    using n by (simp split: if_splits)
  have encoded: "\<exists>m2 g2 ts. build_encoder cfg m1 g1 = (Inr m2, g2) \<and> mode m2 = ''train''
          \<and> ''optimizer'' \<notin> set (attrs m2) \<and> r = build_decoder cfg m2 g2
          \<and> encoder_last_state m2 = Some (Tuple (map Tensor ts)) \<and> int (length ts) = layers"
    if "0 < layers"
  proof -
    from pos [OF that] obtain m2 g2 where e: "build_encoder cfg m1 g1 = (Inr m2, g2)"
      using build_encoder_succeeds by blast
    note E = build_encoder_attrs [OF e]
    have m2: "mode m2 = ''train''" using E mm by simp
    have "''optimizer'' \<notin> set [''encoder_embeddings'', ''encoder_inputs_embedded'',
            ''encoder_inputs_embedded_dense'', ''encoder_cell'', ''encoder_outputs'',
            ''encoder_last_state'']" by simp
    with a1 E have a2: "''optimizer'' \<notin> set (attrs m2)" by blast
    have r2: "r = build_decoder cfg m2 g2"
      by (simp add: r1 e and_then_def)
    from build_encoder_layers [OF e] n obtain ts where
      "encoder_last_state m2 = Some (Tuple (map Tensor ts))" "int (length ts) = layers"
      by auto
    with e m2 a2 r2 show ?thesis by blast
  qed
  {
    assume ok: "0 < decoder_depth cfg \<and> decoder_depth cfg = layers"
    then have "0 < layers" by simp
    from encoded [OF this] obtain m2 g2 ts where m2: "mode m2 = ''train''"
      and a2: "''optimizer'' \<notin> set (attrs m2)" and r2: "r = build_decoder cfg m2 g2"
      and st: "encoder_last_state m2 = Some (Tuple (map Tensor ts))"
      and len: "int (length ts) = layers"
      by blast
    from build_decoder_train(1) [OF m2 st, of cfg g2] ok len
    obtain m3 g3 where d: "build_decoder cfg m2 g2 = (Inr m3, g3)" by auto
    note D = build_decoder_attrs_train [OF d m2]
    have "mode m3 = ''train''" using D m2 by simp
    moreover have "''loss'' \<in> set (attrs m3)" using D by simp
    moreover have "''optimizer'' \<notin> set (attrs m3)" using D a2 by simp
    ultimately show "\<exists>m3 g3. r = (Inr m3, g3) \<and> mode m3 = ''train'' \<and> ''loss'' \<in> set (attrs m3)
              \<and> ''optimizer'' \<notin> set (attrs m3)"
      using r2 d by simp
  }
  {
    assume deep: "0 < layers \<and> layers < decoder_depth cfg"
    from encoded obtain m2 g2 ts where m2: "mode m2 = ''train''"
      and r2: "r = build_decoder cfg m2 g2"
      and st: "encoder_last_state m2 = Some (Tuple (map Tensor ts))"
      and len: "int (length ts) = layers"
      using deep by blast
    from build_decoder_train(2) [OF m2 st, of cfg g2] deep len r2
    show "\<exists>g'. r = (Inl IndexError, g')" by auto
  }
  {
    assume bad: "layers \<le> 0 \<or> decoder_depth cfg \<le> 0 \<or> decoder_depth cfg < layers"
    show "\<exists>g'. r = (Inl ValueError, g')"
    proof (cases "0 < layers")
      case False
      with n have "\<not> use_bidirectional cfg" "encoder_depth cfg \<le> 0"
        by (simp_all split: if_splits)
      from build_encoder_fails [OF this, of m1 g1] r1 show ?thesis
        by (auto simp: and_then_def)
    next
      case True
      from encoded [OF this] obtain m2 g2 ts where m2: "mode m2 = ''train''"
        and r2: "r = build_decoder cfg m2 g2"
        and st: "encoder_last_state m2 = Some (Tuple (map Tensor ts))"
        and len: "int (length ts) = layers"
        by blast
      from build_decoder_train(3) [OF m2 st, of cfg g2] True bad len r2
      show ?thesis by auto
    qed
  }
qed

text \<open>
  C8, as amended. In mode \<open>train\<close>, an \<open>optimizer_type\<close> whose lower-cased form is not
  \<open>adam\<close> makes the constructor raise: no optimizer is chosen by default and no model is
  returned. For a configuration with positive sizes, the exception is the
  \<open>AttributeError\<close> for \<open>self.optimizer\<close>, raised by \<open>build_optimizer\<close>, when
  \<open>decoder_depth\<close> is positive and equal to the number of layers of the encoder's last
  state (\<open>encoder_depth\<close>, or 1 at least for the bidirectional encoder). Otherwise
  \<open>build_decoder\<close> or \<open>build_encoder\<close> has raised before: \<open>IndexError\<close> when the
  decoder is deeper than the encoder's state, \<open>ValueError\<close> when it is less deep or a
  stack of cells is empty.
\<close>

theorem unsupported_optimizer_fails_at_construction:
  assumes "lower mode_arg = ''train''" and "lower (optimizer_type cfg) \<noteq> ''adam''"
    and "layers = (if use_bidirectional cfg then max 1 (encoder_depth cfg)
                   else encoder_depth cfg)"
  shows "\<exists>e g'. construct cfg mode_arg g = (Inl e, g')
           \<and> (0 < hidden_units cfg \<and> 0 < embedding_size cfg
                \<and> 0 < encoder_vocab_size cfg \<and> 0 < decoder_vocab_size cfg \<longrightarrow>
                (0 < decoder_depth cfg \<and> decoder_depth cfg = layers
                   \<longrightarrow> e = AttributeError ''optimizer'')
              \<and> (0 < layers \<and> layers < decoder_depth cfg \<longrightarrow> e = IndexError)
              \<and> (layers \<le> 0 \<or> decoder_depth cfg \<le> 0 \<or> decoder_depth cfg < layers
                   \<longrightarrow> e = ValueError))"
proof -
  let ?r = "and_then (and_then (and_then
      (init_config cfg \<lparr>mode = lower mode_arg, attrs = [''mode'', ''logger''],
              encoder_last_state = None\<rparr> g)
          (build_placeholders cfg)) (build_encoder cfg)) (build_decoder cfg)"
  have c: "construct cfg mode_arg g = and_then ?r (build_optimizer cfg)"
    using assms(1) by (intro construct_valid) simp
  note b = before_optimizer [OF assms(1,3), of g]
  consider (ok) "0 < decoder_depth cfg \<and> decoder_depth cfg = layers"
    | (deep) "0 < layers \<and> layers < decoder_depth cfg"
    | (bad) "layers \<le> 0 \<or> decoder_depth cfg \<le> 0 \<or> decoder_depth cfg < layers"
    by linarith
  then show ?thesis
  proof cases
    case ok
    from b(1) [OF ok] obtain m3 g3 where s: "?r = (Inr m3, g3)" and t: "mode m3 = ''train''"
      and l: "''loss'' \<in> set (attrs m3)" and o: "''optimizer'' \<notin> set (attrs m3)"
      by blast
    have "construct cfg mode_arg g = build_optimizer cfg m3 g3"
      unfolding c s by (simp add: and_then_def)
    with build_optimizer_no_optimizer [OF t assms(2) l o, of g3]
    have "construct cfg mode_arg g =
            (Inl (AttributeError ''optimizer''), g3 @ [''gradients'', ''clip_gradients''])"
      by simp
    with ok show ?thesis by simp
  next
    case deep
    from b(2) [OF deep] obtain g' where f: "?r = (Inl IndexError, g')" by blast
    have "construct cfg mode_arg g = (Inl IndexError, g')"
      unfolding c f by (simp add: and_then_def)
    with deep show ?thesis by simp
  next
    case bad
    from b(3) [OF bad] obtain g' where f: "?r = (Inl ValueError, g')" by blast
    have "construct cfg mode_arg g = (Inl ValueError, g')"
      unfolding c f by (simp add: and_then_def)
    with bad show ?thesis by auto
  qed
qed


lemma decoder_loop_build_numeral:
  "decoder_loop_build cell (numeral n) st =
     (case cell_call cell st of
        Inl e \<Rightarrow> Inl e
      | Inr st' \<Rightarrow> decoder_loop_build cell (pred_numeral n) st')"
  by (simp add: numeral_eq_Suc)

lemmas construct_eval = construct_def and_then_def init_config_def build_placeholders_def
  build_encoder_def build_decoder_def build_optimizer_def build_encoder_cell_def
  build_decoder_cell_def multi_cell_def build_single_cell_def getattr_def setattrs_def
  dynamic_rnn_build_def decoder_loop_build_numeral lower_def Let_def example_config_def

theorem construct_mode_case_insensitive_witness:
  "lower ''INFERENCE'' \<in> set [''train'', ''inference'']
   \<and> construct example_config ''INFERENCE'' [] = construct example_config ''inference'' []
   \<and> fst (construct example_config ''INFERENCE'' []) \<noteq> Inl AssertionError
   \<and> lower ''training'' \<notin> set [''train'', ''inference'']
   \<and> construct example_config ''training'' [] = (Inl AssertionError, [])"
proof -
  have 1: "lower ''INFERENCE'' = ''inference''" by (simp add: lower_def)
  have 2: "lower ''training'' = ''training''" by (simp add: lower_def)
  show ?thesis
    using construct_mode_case_insensitive [of "''INFERENCE''" example_config "[]"]
      construct_mode_case_insensitive [of "''training''" example_config "[]"]
    unfolding 1 2 by auto
qed

theorem modes_build_disjoint_operations_witness:
  "(\<exists>m g'. construct example_config ''train'' [] = (Inr m, g') \<and> mode m = ''train''
       \<and> inference_request m = Inl (AttributeError ''decoder_predicts''))
   \<and> (\<exists>m g'. construct example_config ''inference'' [] = (Inr m, g') \<and> mode m = ''inference''
       \<and> train_request example_config m = Inl (AttributeError ''decoder_inputs_length'')
       \<and> eval_request m = Inl (AttributeError ''decoder_inputs_length''))"
proof -
  obtain m g' where t: "construct example_config ''train'' [] = (Inr m, g')"
    and tm: "mode m = ''train''"
    by (simp add: construct_eval)
  obtain n h' where i: "construct example_config ''inference'' [] = (Inr n, h')"
    and im: "mode n = ''inference''"
    by (simp add: construct_eval)
  from modes_build_disjoint_operations [OF t] modes_build_disjoint_operations [OF i] t tm i im
  show ?thesis by simp
qed

theorem unsupported_optimizer_fails_at_construction_witness:
  "(\<exists>g'. construct (example_config\<lparr>optimizer_type := ''sgd''\<rparr>) ''train'' []
           = (Inl (AttributeError ''optimizer''), g'))
   \<and> (\<exists>g'. construct (example_config\<lparr>optimizer_type := ''sgd'', decoder_depth := 2\<rparr>)
              ''train'' [] = (Inl IndexError, g'))
   \<and> (\<exists>g'. construct (example_config\<lparr>optimizer_type := ''sgd'', encoder_depth := 2\<rparr>)
              ''train'' [] = (Inl ValueError, g'))"
proof -
  have 1: "lower ''train'' = ''train''" by (simp add: lower_def)
  have 2: "lower (optimizer_type (example_config\<lparr>optimizer_type := ''sgd''\<rparr>)) \<noteq> ''adam''"
    "lower (optimizer_type (example_config\<lparr>optimizer_type := ''sgd'', decoder_depth := 2\<rparr>))
       \<noteq> ''adam''"
    "lower (optimizer_type (example_config\<lparr>optimizer_type := ''sgd'', encoder_depth := 2\<rparr>))
       \<noteq> ''adam''"
    by (simp_all add: lower_def)
  have 3: "(1 :: int) = (if use_bidirectional (example_config\<lparr>optimizer_type := ''sgd''\<rparr>)
        then max 1 (encoder_depth (example_config\<lparr>optimizer_type := ''sgd''\<rparr>))
        else encoder_depth (example_config\<lparr>optimizer_type := ''sgd''\<rparr>))"
    "(1 :: int) =
       (if use_bidirectional (example_config\<lparr>optimizer_type := ''sgd'', decoder_depth := 2\<rparr>)
        then max 1 (encoder_depth (example_config\<lparr>optimizer_type := ''sgd'', decoder_depth := 2\<rparr>))
        else encoder_depth (example_config\<lparr>optimizer_type := ''sgd'', decoder_depth := 2\<rparr>))"
    "(2 :: int) =
       (if use_bidirectional (example_config\<lparr>optimizer_type := ''sgd'', encoder_depth := 2\<rparr>)
        then max 1 (encoder_depth (example_config\<lparr>optimizer_type := ''sgd'', encoder_depth := 2\<rparr>))
        else encoder_depth (example_config\<lparr>optimizer_type := ''sgd'', encoder_depth := 2\<rparr>))"
    by (simp_all add: example_config_def)
  have 4: "0 < hidden_units example_config \<and> 0 < embedding_size example_config
      \<and> 0 < encoder_vocab_size example_config \<and> 0 < decoder_vocab_size example_config"
    "decoder_depth example_config = 1" "encoder_depth example_config = 1"
    by (simp_all add: example_config_def)
  from unsupported_optimizer_fails_at_construction [OF 1 2(1) 3(1), of "[]"]
    unsupported_optimizer_fails_at_construction [OF 1 2(2) 3(2), of "[]"]
    unsupported_optimizer_fails_at_construction [OF 1 2(3) 3(3), of "[]"] 4
  show ?thesis by auto
qed

text \<open>
  C8 as stated fails twice: \<open>Adam\<close> is not the string \<open>adam\<close>, yet the model is
  built; and with \<open>sgd\<close> the exception is an \<open>AttributeError\<close>, the class has no
  configuration error of its own.
\<close>

theorem optimizer_type_counterexample:
  "''Adam'' \<noteq> ''adam''
   \<and> \<not> isl (fst (construct (example_config\<lparr>optimizer_type := ''Adam''\<rparr>) ''train'' []))
   \<and> fst (construct (example_config\<lparr>optimizer_type := ''sgd''\<rparr>) ''train'' [])
       = Inl (AttributeError ''optimizer'')"
  by (simp add: construct_eval)

section \<open>The bidirectional encoder's last state\<close>

text \<open>
  C5. With \<open>use_bidirectional\<close>, \<open>build_encoder\<close> returns, and
  \<open>encoder_last_state\<close> is the tuple of the forward cell's last state followed by the
  last states of the upper recurrence: none for \<open>encoder_depth = 1\<close>, the state of the
  single upper cell for \<open>encoder_depth = 2\<close>, the \<open>encoder_depth - 1\<close> states of the
  upper stack for \<open>encoder_depth > 2\<close>.
\<close>

theorem bidirectional_encoder_last_state:
  assumes "use_bidirectional cfg"
  shows "\<exists>m' g'. build_encoder cfg m g = (Inr m', g')
           \<and> (encoder_depth cfg = 1 \<longrightarrow> encoder_last_state m' = Some (Tuple [Tensor Bi_fw]))
           \<and> (encoder_depth cfg = 2 \<longrightarrow>
                encoder_last_state m' = Some (Tuple [Tensor Bi_fw, Tensor (Upper 0)]))
           \<and> (2 < encoder_depth cfg \<longrightarrow>
                encoder_last_state m' =
                  Some (Tuple (Tensor Bi_fw #
                          map (\<lambda>k. Tensor (Upper k)) [0..<nat (encoder_depth cfg - 1)])))"
proof -
  consider "encoder_depth cfg < 2" | "encoder_depth cfg = 2" | "2 < encoder_depth cfg"
    by linarith
  then show ?thesis
  proof cases
    case 1
    with assms show ?thesis by (simp add: build_encoder_def Let_def)
  next
    case 2
    with assms show ?thesis
      by (simp add: build_encoder_def Let_def build_single_cell_def)
  next
    case 3
    then have "0 < encoder_depth cfg - 1" "encoder_depth cfg - 1 \<noteq> 0" by simp_all
    with assms 3 show ?thesis
      by (simp add: build_encoder_def Let_def build_encoder_cell_def multi_cell_positive)
  qed
qed

theorem bidirectional_encoder_last_state_witness:
  "(\<exists>m' g'. build_encoder example_config
              \<lparr>mode = ''train'', attrs = [], encoder_last_state = None\<rparr> [] = (Inr m', g')
       \<and> encoder_last_state m' = Some (Tuple [Tensor Bi_fw]))
   \<and> (\<exists>m' g'. build_encoder (example_config\<lparr>encoder_depth := 2\<rparr>)
              \<lparr>mode = ''train'', attrs = [], encoder_last_state = None\<rparr> [] = (Inr m', g')
       \<and> encoder_last_state m' = Some (Tuple [Tensor Bi_fw, Tensor (Upper 0)]))
   \<and> (\<exists>m' g'. build_encoder (example_config\<lparr>encoder_depth := 4\<rparr>)
              \<lparr>mode = ''train'', attrs = [], encoder_last_state = None\<rparr> [] = (Inr m', g')
       \<and> encoder_last_state m' =
           Some (Tuple [Tensor Bi_fw, Tensor (Upper 0), Tensor (Upper 1), Tensor (Upper 2)]))"
proof -
  have u: "use_bidirectional example_config"
    "use_bidirectional (example_config\<lparr>encoder_depth := 2\<rparr>)"
    "use_bidirectional (example_config\<lparr>encoder_depth := 4\<rparr>)"
    by (simp_all add: example_config_def)
  have d: "encoder_depth example_config = 1"
    "encoder_depth (example_config\<lparr>encoder_depth := 2\<rparr>) = 2"
    "encoder_depth (example_config\<lparr>encoder_depth := 4\<rparr>) = 4"
    by (simp_all add: example_config_def)
  have n: "[0..<nat (4 - 1)] = [0, 1, 2]"
    by (simp add: upt_rec)
  show ?thesis
    using bidirectional_encoder_last_state [OF u(1),
        of "\<lparr>mode = ''train'', attrs = [], encoder_last_state = None\<rparr>" "[]"]
      bidirectional_encoder_last_state [OF u(2),
        of "\<lparr>mode = ''train'', attrs = [], encoder_last_state = None\<rparr>" "[]"]
      bidirectional_encoder_last_state [OF u(3),
        of "\<lparr>mode = ''train'', attrs = [], encoder_last_state = None\<rparr>" "[]"]
    unfolding d n by simp
qed

section \<open>Greedy decoding\<close>


lemma reduce_max_Max: "xs \<noteq> [] \<Longrightarrow> reduce_max xs = Max (set xs)"
proof (cases xs)
  case Nil
  moreover assume "xs \<noteq> []"
  ultimately show ?thesis by simp
next
  case (Cons a list)
  show ?thesis
    unfolding Cons reduce_max_def list.sel by (rule Max.set_eq_fold [symmetric])
qed

lemma length_takeWhile_less: "\<exists>x \<in> set xs. \<not> P x \<Longrightarrow> length (takeWhile P xs) < length xs"
  by (induction xs) auto

lemma argmax_less: "xs \<noteq> [] \<Longrightarrow> argmax xs < length xs"
proof -
  assume ne: "xs \<noteq> []"
  then have "reduce_max xs \<in> set xs"
    by (simp add: reduce_max_Max)
  then have "\<exists>x \<in> set xs. \<not> x \<noteq> reduce_max xs" by blast
  then show ?thesis
    unfolding argmax_def by (rule length_takeWhile_less)
qed

lemma nth_argmax: "xs \<noteq> [] \<Longrightarrow> xs ! argmax xs = reduce_max xs"
proof -
  assume ne: "xs \<noteq> []"
  from argmax_less [OF ne] have "argmax xs < length xs" .
  then have "\<not> (xs ! argmax xs \<noteq> reduce_max xs)"
    unfolding argmax_def by (rule nth_length_takeWhile)
  then show ?thesis by simp
qed

lemma length_softmax [simp]: "length (softmax xs) = length xs"
  by (simp add: softmax_def)

lemma length_dense [simp]: "length (dense units unit x) = units"
  by (simp add: dense_def)

lemma sum_list_exp_nonneg: "0 \<le> sum_list (map exp (xs :: real list))"
  by (induction xs) simp_all

lemma sum_list_exp_pos: "xs \<noteq> [] \<Longrightarrow> 0 < sum_list (map exp (xs :: real list))"
  by (cases xs) (simp_all add: add_pos_nonneg sum_list_exp_nonneg)

lemma exp_le_sum_list: "x \<in> set xs \<Longrightarrow> exp x \<le> sum_list (map exp (xs :: real list))"
proof (induction xs)
  case Nil
  then show ?case by simp
next
  case (Cons a xs)
  have s: "0 \<le> sum_list (map exp xs)" by (rule sum_list_exp_nonneg)
  have a: "0 < exp a" by simp
  show ?case
  proof (cases "x = a")
    case True
    with s show ?thesis by simp
  next
    case False
    with Cons have "exp x \<le> sum_list (map exp xs)" by simp
    then show ?thesis by (simp add: add_increasing)
  qed
qed

lemma softmax_range:
  assumes "p \<in> set (softmax xs)"
  shows "0 < p \<and> p \<le> 1"
proof -
  from assms obtain x where x: "x \<in> set xs" and p: "p = exp x / sum_list (map exp xs)"
    by (auto simp: softmax_def)
  from x have "xs \<noteq> []" by auto
  then have pos: "0 < sum_list (map exp xs)" by (rule sum_list_exp_pos)
  from exp_le_sum_list [OF x] pos show ?thesis
    by (simp add: p)
qed

lemma sum_list_divide: "sum_list (map (\<lambda>x. f x / c) xs) = sum_list (map f xs) / (c :: real)"
  by (induction xs) (simp_all add: add_divide_distrib)

lemma sum_list_softmax: "xs \<noteq> [] \<Longrightarrow> sum_list (softmax xs) = 1"
proof -
  assume "xs \<noteq> []"
  then have pos: "0 < sum_list (map exp xs)" by (rule sum_list_exp_pos)
  have "sum_list (softmax xs) = sum_list (map exp xs) / sum_list (map exp xs)"
    unfolding softmax_def by (rule sum_list_divide)
  with pos show ?thesis by simp
qed


lemma spec_greedy_decode_Suc:
  "spec_greedy_decode dec units (Suc k) x s =
     (argmax (softmax (dense units (logits_unit dec) (fst (decoder_cell dec x s)))),
      softmax (dense units (logits_unit dec) (fst (decoder_cell dec x s))) !
        argmax (softmax (dense units (logits_unit dec) (fst (decoder_cell dec x s)))))
     # spec_greedy_decode dec units k
         (embedding_lookup dec
            (int (argmax (softmax (dense units (logits_unit dec) (fst (decoder_cell dec x s)))))))
         (snd (decoder_cell dec x s))"
  by (simp add: Let_def case_prod_beta)

lemma length_spec_greedy_decode [simp]: "length (spec_greedy_decode dec units k x s) = k"
  by (induction k arbitrary: x s) (simp_all add: Let_def case_prod_beta)

lemma decode_step_fields:
  assumes "length (input st) = B" and "length (state st) = B"
  shows "input (decode_step dec units st) =
           map (\<lambda>i. embedding_lookup dec (int (argmax (softmax (dense units (logits_unit dec)
                  (fst (decoder_cell dec (input st ! i) (state st ! i)))))))) [0..<B]"
    and "state (decode_step dec units st) =
           map (\<lambda>i. snd (decoder_cell dec (input st ! i) (state st ! i))) [0..<B]"
    and "decoder_predicts (decode_step dec units st) = decoder_predicts st @
           [map (\<lambda>i. argmax (softmax (dense units (logits_unit dec)
                  (fst (decoder_cell dec (input st ! i) (state st ! i)))))) [0..<B]]"
    and "decoder_scores (decode_step dec units st) = decoder_scores st @
           [map (\<lambda>i. reduce_max (softmax (dense units (logits_unit dec)
                  (fst (decoder_cell dec (input st ! i) (state st ! i)))))) [0..<B]]"
  using assms
  by (auto simp: decode_step_def Let_def intro!: nth_equalityI)


lemma upt_Suc_shift: "[0..<Suc k] = 0 # map Suc [0..<k]"
  by (simp add: upt_conv_Cons map_Suc_upt del: upt_Suc)

lemma decoder_loop_rows:
  assumes "0 < units" and "length (input st) = B" and "length (state st) = B"
  shows "decoder_predicts (decoder_loop dec units k st) = decoder_predicts st @
           map (\<lambda>t. map (\<lambda>i. fst (spec_greedy_decode dec units k (input st ! i) (state st ! i) ! t))
                  [0..<B]) [0..<k]
       \<and> decoder_scores (decoder_loop dec units k st) = decoder_scores st @
           map (\<lambda>t. map (\<lambda>i. snd (spec_greedy_decode dec units k (input st ! i) (state st ! i) ! t))
                  [0..<B]) [0..<k]"
  using assms(2,3)
proof (induction k arbitrary: st)
  case 0
  then show ?case by simp
next
  case (Suc k)
  let ?st = "decode_step dec units st"
  let ?probs = "\<lambda>i. softmax (dense units (logits_unit dec)
                  (fst (decoder_cell dec (input st ! i) (state st ! i))))"
  note f = decode_step_fields [OF Suc.prems, of dec units]
  have len: "length (input ?st) = B" "length (state ?st) = B"
    by (simp_all add: f)
  have inp: "\<And>i. i < B \<Longrightarrow> input ?st ! i = embedding_lookup dec (int (argmax (?probs i)))"
    and sta: "\<And>i. i < B \<Longrightarrow> state ?st ! i = snd (decoder_cell dec (input st ! i) (state st ! i))"
    by (simp_all add: f)
  have score: "\<And>i. ?probs i ! argmax (?probs i) = reduce_max (?probs i)"
    using assms(1) by (intro nth_argmax) (auto simp flip: length_0_conv)
  have rest: "\<And>t i. i < B \<Longrightarrow>
      spec_greedy_decode dec units (Suc k) (input st ! i) (state st ! i) ! Suc t =
      spec_greedy_decode dec units k (input ?st ! i) (state ?st ! i) ! t"
    by (simp only: spec_greedy_decode_Suc nth_Cons_Suc inp sta)
  have first: "\<And>i. spec_greedy_decode dec units (Suc k) (input st ! i) (state st ! i) ! 0 =
      (argmax (?probs i), reduce_max (?probs i))"
    by (simp only: spec_greedy_decode_Suc nth_Cons_0 score)
  from Suc.IH [OF len]
  show ?case
    by (simp add: f(3,4) upt_Suc_shift comp_def first rest del: upt_Suc
        spec_greedy_decode.simps cong: map_cong)
qed


lemma stack_axis1_table:
  assumes "0 < n"
  shows "stack_axis1 (map (\<lambda>t. map (\<lambda>i. f i t) [0..<B]) [0..<n]) =
           Inr (map (\<lambda>i. map (\<lambda>t. f i t) [0..<n]) [0..<B])"
proof -
  from assms obtain k where n: "n = Suc k" by (cases n) auto
  let ?vs = "map (\<lambda>t. map (\<lambda>i. f i t) [0..<B]) [0..<n]"
  have hd: "?vs = map (\<lambda>i. f i 0) [0..<B] # map (\<lambda>t. map (\<lambda>i. f i t) [0..<B]) (map Suc [0..<k])"
    unfolding n upt_Suc_shift by simp
  have all: "list_all (\<lambda>w. length w = B) ?vs"
    by (simp add: list_all_iff)
  have rows: "map (\<lambda>i. map (\<lambda>w. w ! i) ?vs) [0..<B] = map (\<lambda>i. map (\<lambda>t. f i t) [0..<n]) [0..<B]"
    by (simp add: comp_def cong: map_cong)
  show ?thesis
    unfolding stack_axis1_def
    by (subst (1) hd) (simp only: list.case length_map length_upt diff_zero all rows if_True)
qed

lemma map_nth_upt: "map (\<lambda>t. f (xs ! t)) [0..<length xs] = map f xs"
  by (intro nth_equalityI) simp_all

lemma valid_id_vocab: "valid_id vocab_size t \<Longrightarrow> 0 < vocab_size"
  by (simp add: valid_id_def)

lemma build_decoder_inference_rows:
  assumes "0 < decoder_max_time_steps cfg" and "valid_id (decoder_vocab_size cfg) GO"
    and "length initial = B"
  shows "build_decoder_inference cfg GO dec B initial =
           Inr (map (\<lambda>i. map fst (spec_greedy_decode dec (nat (decoder_vocab_size cfg))
                                 (nat (decoder_max_time_steps cfg))
                                 (embedding_lookup dec (sint GO)) (initial ! i))) [0..<B],
                map (\<lambda>i. map snd (spec_greedy_decode dec (nat (decoder_vocab_size cfg))
                                 (nat (decoder_max_time_steps cfg))
                                 (embedding_lookup dec (sint GO)) (initial ! i))) [0..<B])"
proof -
  let ?units = "nat (decoder_vocab_size cfg)" and ?n = "nat (decoder_max_time_steps cfg)"
  let ?st0 = "\<lparr> input = map (\<lambda>t. embedding_lookup dec (sint t))
                             (map (\<lambda>x. x * GO) (replicate B 1)),
                  state = initial,
                  decoder_outputs = [], decoder_logits = [], decoder_probabilities = [],
                  decoder_predicts = [], decoder_scores = [] \<rparr>"
  let ?G = "\<lambda>i. spec_greedy_decode dec ?units ?n (embedding_lookup dec (sint GO)) (initial ! i)"
  have u: "0 < ?units" and n: "0 < ?n"
    using assms(1) valid_id_vocab [OF assms(2)] by simp_all
  have v: "list_all (valid_id (decoder_vocab_size cfg)) (map (\<lambda>x. x * GO) (replicate B 1))"
    using assms(2) by (simp add: list_all_iff)
  have l: "length (input ?st0) = B" "length (state ?st0) = B"
    using assms(3) by simp_all
  have i0: "\<And>i. i < B \<Longrightarrow> input ?st0 ! i = embedding_lookup dec (sint GO)"
    by simp
  note rows = decoder_loop_rows [OF u l, of dec ?n]
  have p: "decoder_predicts (decoder_loop dec ?units ?n ?st0) =
             map (\<lambda>t. map (\<lambda>i. fst (?G i ! t)) [0..<B]) [0..<?n]"
    using rows [THEN conjunct1] i0 by (simp cong: map_cong)
  have s: "decoder_scores (decoder_loop dec ?units ?n ?st0) =
             map (\<lambda>t. map (\<lambda>i. snd (?G i ! t)) [0..<B]) [0..<?n]"
    using rows [THEN conjunct2] i0 by (simp cong: map_cong)
  have p': "stack_axis1 (decoder_predicts (decoder_loop dec ?units ?n ?st0)) =
              Inr (map (\<lambda>i. map fst (?G i)) [0..<B])"
    unfolding p stack_axis1_table [OF n]
    using map_nth_upt [of fst "?G _"] by simp
  have s': "stack_axis1 (decoder_scores (decoder_loop dec ?units ?n ?st0)) =
              Inr (map (\<lambda>i. map snd (?G i)) [0..<B])"
    unfolding s stack_axis1_table [OF n]
    using map_nth_upt [of snd "?G _"] by simp
  show ?thesis
    unfolding build_decoder_inference_def Let_def p' s' using u v by simp
qed

lemma spec_greedy_decode_range:
  assumes "0 < units" and "(p, c) \<in> set (spec_greedy_decode dec units k x s)"
  shows "p < units \<and> 0 < c \<and> c \<le> 1"
  using assms(2)
proof (induction k arbitrary: x s)
  case 0
  then show ?case by simp
next
  case (Suc k)
  let ?probs = "softmax (dense units (logits_unit dec) (fst (decoder_cell dec x s)))"
  have ne: "?probs \<noteq> []" using assms(1) by (auto simp flip: length_0_conv)
  from Suc.prems consider "p = argmax ?probs \<and> c = ?probs ! argmax ?probs"
    | "(p, c) \<in> set (spec_greedy_decode dec units k
          (embedding_lookup dec (int (argmax ?probs))) (snd (decoder_cell dec x s)))"
    unfolding spec_greedy_decode_Suc by auto
  then show ?case
  proof cases
    case 1
    from argmax_less [OF ne] have a: "argmax ?probs < units" by simp
    then have "?probs ! argmax ?probs \<in> set ?probs" by simp
    from softmax_range [OF this] a 1 show ?thesis by simp
  next
    case 2
    then show ?thesis by (rule Suc.IH)
  qed
qed

lemma run_encoder_rows:
  "encoder_batch_ok cfg encoder_inputs encoder_inputs_length \<Longrightarrow>
     run_encoder cfg encoder encoder_inputs encoder_inputs_length =
       Inr (map (\<lambda>i. encoder (encoder_inputs ! i) (encoder_inputs_length ! i))
              [0..<length encoder_inputs])"
  by (auto simp: run_encoder_def encoder_batch_ok_def intro!: nth_equalityI)

lemma build_decoder_inference_steps:
  "build_decoder cfg m g = (Inr m', g') \<Longrightarrow> mode m \<noteq> ''train'' \<Longrightarrow>
     0 < decoder_max_time_steps cfg"
  by (auto simp: build_decoder_def Let_def split: sum.splits if_splits option.splits)

lemma inference_model_steps:
  assumes "construct cfg mode_arg g = (Inr m, g')" and "mode m = ''inference''"
  shows "0 < decoder_max_time_steps cfg"
proof -
  from construct_chain [OF assms(1)] obtain m0 g0 m1 g1 m2 g2 m3 g3 where
    i: "init_config cfg \<lparr>mode = lower mode_arg, attrs = [''mode'', ''logger''],
              encoder_last_state = None\<rparr> g = (Inr m0, g0)"
    and p: "build_placeholders cfg m0 g0 = (Inr m1, g1)"
    and e: "build_encoder cfg m1 g1 = (Inr m2, g2)"
    and d: "build_decoder cfg m2 g2 = (Inr m3, g3)"
    and o: "build_optimizer cfg m3 g3 = (Inr m, g')"
    by blast
  from construct_modes(2) [OF i p e d o] assms(2) have "mode m2 \<noteq> ''train''" by simp
  with d show ?thesis by (rule build_decoder_inference_steps)
qed

lemma inference_request_ok:
  assumes "construct cfg mode_arg g = (Inr m, g')" and "mode m = ''inference''"
  shows "inference_request m =
           Inr \<lparr>keep_prob_fed = 1, fetches = [''decoder_predicts'', ''decoder_scores'']\<rparr>"
proof -
  from assms(2) have n: "mode m \<noteq> ''train''" by simp
  note a = inference_model_attrs [OF assms(1) n]
  have "getattrs m [''encoder_inputs'', ''encoder_inputs_length'', ''keep_prob'',
                    ''decoder_predicts'', ''decoder_scores''] = None"
    using a by (intro getattrs_None) simp
  then show ?thesis by (simp add: inference_request_def del: getattrs.simps)
qed

lemma inference_rows:
  assumes "construct cfg mode_arg g = (Inr m, g')" and "mode m = ''inference''"
    and "valid_id (decoder_vocab_size cfg) GO"
    and "encoder_batch_ok cfg encoder_inputs encoder_inputs_length"
  shows "inference m cfg GO encoder dec encoder_inputs encoder_inputs_length =
           Inr (map (\<lambda>i. map fst (spec_greedy_decode dec (nat (decoder_vocab_size cfg))
                                 (nat (decoder_max_time_steps cfg))
                                 (embedding_lookup dec (sint GO))
                                 (encoder (encoder_inputs ! i) (encoder_inputs_length ! i))))
                  [0..<length encoder_inputs],
                map (\<lambda>i. map snd (spec_greedy_decode dec (nat (decoder_vocab_size cfg))
                                 (nat (decoder_max_time_steps cfg))
                                 (embedding_lookup dec (sint GO))
                                 (encoder (encoder_inputs ! i) (encoder_inputs_length ! i))))
                  [0..<length encoder_inputs])"
  unfolding inference_def inference_request_ok [OF assms(1,2)]
    run_encoder_rows [OF assms(4)] sum.case
  by (subst build_decoder_inference_rows [OF inference_model_steps [OF assms(1,2)] assms(3)])
    (simp_all cong: map_cong)

text \<open>
  C4. On a model the constructor returned in mode \<open>inference\<close> (which needs a positive
  step count), with \<open>GO\<close> an id of the decoder vocabulary and an encoder batch the
  encoder accepts: the graph the loop of \<open>build_decoder\<close> builds computes, for every row
  of the batch, exactly the greedy recursion of the specification, started from the
  embedded \<open>GO\<close> token and the row's last encoder state. Predictions and scores are its
  two components, step by step, and there are \<open>decoder_max_time_steps\<close> of them
  whatever tokens are predicted.
\<close>

theorem inference_decoder_is_greedy_loop:
  assumes "construct cfg mode_arg g = (Inr m, g')" and "mode m = ''inference''"
    and "valid_id (decoder_vocab_size cfg) GO"
    and "encoder_batch_ok cfg encoder_inputs encoder_inputs_length"
  shows "\<exists>predicts scores.
           inference m cfg GO encoder dec encoder_inputs encoder_inputs_length
             = Inr (predicts, scores)
         \<and> length predicts = length encoder_inputs \<and> length scores = length encoder_inputs
         \<and> (\<forall>i < length encoder_inputs.
               zip (predicts ! i) (scores ! i) =
                 spec_greedy_decode dec (nat (decoder_vocab_size cfg))
                   (nat (decoder_max_time_steps cfg))
                   (embedding_lookup dec (sint GO))
                   (encoder (encoder_inputs ! i) (encoder_inputs_length ! i))
             \<and> length (predicts ! i) = nat (decoder_max_time_steps cfg)
             \<and> length (scores ! i) = nat (decoder_max_time_steps cfg))"
  unfolding inference_rows [OF assms]
  by (simp add: zip_map_fst_snd)

theorem inference_decoder_is_greedy_loop_witness:
  "\<exists>m g' predicts scores.
     construct example_config ''inference'' [] = (Inr m, g')
     \<and> inference m example_config 1 example_encoder example_decoder
          [[4, 5, 6], [4, 5, 0]] [3, 2] = Inr (predicts, scores)
     \<and> length predicts = 2 \<and> length scores = 2
     \<and> (\<forall>i < 2.
           zip (predicts ! i) (scores ! i) = spec_greedy_decode example_decoder 10 2 () ()
         \<and> length (predicts ! i) = 2 \<and> length (scores ! i) = 2)"
proof -
  obtain m g' where c: "construct example_config ''inference'' [] = (Inr m, g')"
    and i: "mode m = ''inference''"
    by (simp add: construct_eval)
  have v: "valid_id (decoder_vocab_size example_config) 1"
    by (simp add: example_config_def valid_id_def)
  have b: "encoder_batch_ok example_config [[4, 5, 6], [4, 5, 0]] [3, 2]"
    by (simp add: encoder_batch_ok_def valid_id_def example_config_def)
  have e: "nat (decoder_vocab_size example_config) = 10"
    "nat (decoder_max_time_steps example_config) = 2"
    by (simp_all add: example_config_def)
  from inference_decoder_is_greedy_loop [OF c i v b, of example_encoder example_decoder] c
  show ?thesis unfolding e by (auto simp: example_encoder_def)
qed

text \<open>
  C3. On a model the constructor returned in mode \<open>inference\<close>, with \<open>GO\<close> an id of
  the decoder vocabulary and an encoder batch the encoder accepts,
  \<open>inference\<close> returns: one row of predictions and one row of scores per example, each
  of \<open>decoder_max_time_steps\<close> entries, every prediction an index below
  \<open>decoder_vocab_size\<close>, every score between 0 and 1.
\<close>

theorem inference_output_shape_and_range:
  assumes "construct cfg mode_arg g = (Inr m, g')" and "mode m = ''inference''"
    and "valid_id (decoder_vocab_size cfg) GO"
    and "encoder_batch_ok cfg encoder_inputs encoder_inputs_length"
  shows "\<exists>predicts scores.
           inference m cfg GO encoder dec encoder_inputs encoder_inputs_length
             = Inr (predicts, scores)
         \<and> length predicts = length encoder_inputs \<and> length scores = length encoder_inputs
         \<and> (\<forall>row \<in> set predicts. int (length row) = decoder_max_time_steps cfg
               \<and> (\<forall>p \<in> set row. 0 \<le> int p \<and> int p < decoder_vocab_size cfg))
         \<and> (\<forall>row \<in> set scores. int (length row) = decoder_max_time_steps cfg
               \<and> (\<forall>c \<in> set row. 0 \<le> c \<and> c \<le> 1))"
proof -
  note n = inference_model_steps [OF assms(1,2)]
  let ?B = "length encoder_inputs"
  let ?G = "\<lambda>i. spec_greedy_decode dec (nat (decoder_vocab_size cfg))
                   (nat (decoder_max_time_steps cfg)) (embedding_lookup dec (sint GO))
                   (encoder (encoder_inputs ! i) (encoder_inputs_length ! i))"
  note v = valid_id_vocab [OF assms(3)]
  have u: "0 < nat (decoder_vocab_size cfg)" using v by simp
  have r: "inference m cfg GO encoder dec encoder_inputs encoder_inputs_length =
             Inr (map (\<lambda>i. map fst (?G i)) [0..<?B], map (\<lambda>i. map snd (?G i)) [0..<?B])"
    by (rule inference_rows [OF assms])
  have p: "\<And>i q. q \<in> set (map fst (?G i)) \<Longrightarrow> int q < decoder_vocab_size cfg"
  proof -
    fix i q assume "q \<in> set (map fst (?G i))"
    then obtain c where "(q, c) \<in> set (?G i)" by auto
    from spec_greedy_decode_range [OF u this] v
    show "int q < decoder_vocab_size cfg" by linarith
  qed
  have s: "\<And>i c. c \<in> set (map snd (?G i)) \<Longrightarrow> 0 \<le> c \<and> c \<le> 1"
  proof -
    fix i c assume "c \<in> set (map snd (?G i))"
    then obtain q where "(q, c) \<in> set (?G i)" by auto
    from spec_greedy_decode_range [OF u this] show "0 \<le> c \<and> c \<le> 1" by simp
  qed
  have l: "\<And>i. int (length (?G i)) = decoder_max_time_steps cfg"
    using n by simp
  have rp: "\<forall>row \<in> set (map (\<lambda>i. map fst (?G i)) [0..<?B]).
              int (length row) = decoder_max_time_steps cfg
              \<and> (\<forall>q \<in> set row. 0 \<le> int q \<and> int q < decoder_vocab_size cfg)"
  proof
    fix row assume "row \<in> set (map (\<lambda>i. map fst (?G i)) [0..<?B])"
    then obtain i where row: "row = map fst (?G i)" by auto
    have "int (length row) = decoder_max_time_steps cfg"
      unfolding row length_map by (rule l)
    moreover have "\<forall>q \<in> set row. 0 \<le> int q \<and> int q < decoder_vocab_size cfg"
      unfolding row using p [of _ i] by simp
    ultimately show "int (length row) = decoder_max_time_steps cfg
              \<and> (\<forall>q \<in> set row. 0 \<le> int q \<and> int q < decoder_vocab_size cfg)" ..
  qed
  have rs: "\<forall>row \<in> set (map (\<lambda>i. map snd (?G i)) [0..<?B]).
              int (length row) = decoder_max_time_steps cfg
              \<and> (\<forall>c \<in> set row. 0 \<le> c \<and> c \<le> 1)"
  proof
    fix row assume "row \<in> set (map (\<lambda>i. map snd (?G i)) [0..<?B])"
    then obtain i where row: "row = map snd (?G i)" by auto
    have "int (length row) = decoder_max_time_steps cfg"
      unfolding row length_map by (rule l)
    moreover have "\<forall>c \<in> set row. 0 \<le> c \<and> c \<le> 1"
      unfolding row using s [of _ i] by blast
    ultimately show "int (length row) = decoder_max_time_steps cfg
              \<and> (\<forall>c \<in> set row. 0 \<le> c \<and> c \<le> 1)" ..
  qed
  have len: "length (map (\<lambda>i. map fst (?G i)) [0..<?B]) = ?B"
    "length (map (\<lambda>i. map snd (?G i)) [0..<?B]) = ?B"
    by simp_all
  from r rp rs len show ?thesis by blast
qed

theorem inference_output_shape_and_range_witness:
  "\<exists>m g' predicts scores.
     construct example_config ''inference'' [] = (Inr m, g')
     \<and> inference m example_config 1 example_encoder
         example_decoder [[4, 5, 6], [4, 5, 0]] [3, 2]
       = Inr (predicts, scores)
     \<and> length predicts = 2 \<and> length scores = 2
     \<and> (\<forall>row \<in> set predicts. int (length row) = 2 \<and> (\<forall>p \<in> set row. 0 \<le> int p \<and> int p < 10))
     \<and> (\<forall>row \<in> set scores. int (length row) = 2 \<and> (\<forall>c \<in> set row. 0 \<le> c \<and> c \<le> 1))"
proof -
  obtain m g' where c: "construct example_config ''inference'' [] = (Inr m, g')"
    and i: "mode m = ''inference''"
    by (simp add: construct_eval)
  have v: "valid_id (decoder_vocab_size example_config) 1"
    by (simp add: example_config_def valid_id_def)
  have b: "encoder_batch_ok example_config [[4, 5, 6], [4, 5, 0]] [3, 2]"
    by (simp add: encoder_batch_ok_def valid_id_def example_config_def)
  have e: "decoder_vocab_size example_config = 10" "decoder_max_time_steps example_config = 2"
    by (simp_all add: example_config_def)
  from inference_output_shape_and_range [OF c i v b, of example_encoder
      example_decoder] c
  show ?thesis unfolding e by auto
qed

section \<open>The masked loss\<close>




lemma length_dynamic_rnn_row [simp]:
  "length (dynamic_rnn_row cell z len t xs s) = length xs"
  by (induction xs arbitrary: t s) (simp_all add: Let_def case_prod_beta)

lemma dynamic_rnn_row_prefix:
  assumes "length xs = length xs'" and "take n xs = take n xs'" and "len \<le> int (t + n)"
  shows "dynamic_rnn_row cell z len t xs s = dynamic_rnn_row cell z len t xs' s"
  using assms
proof (induction xs xs' arbitrary: t n s rule: list_induct2)
  case Nil
  then show ?case by simp
next
  case (Cons x xs y ys)
  show ?case
  proof (cases "int t < len")
    case True
    with Cons.prems(2) obtain n' where n: "n = Suc n'" by (cases n) auto
    with Cons.prems(1) have xy: "x = y" and tl: "take n' xs = take n' ys" by simp_all
    have "len \<le> int (Suc t + n')" using Cons.prems(2) n by simp
    from Cons.IH [OF tl this] True xy show ?thesis
      by (simp add: Let_def case_prod_beta)
  next
    case False
    then have "len \<le> int (Suc t + 0)" by simp
    moreover have "take 0 xs = take 0 ys" by simp
    ultimately have "dynamic_rnn_row cell z len (Suc t) xs s = dynamic_rnn_row cell z len (Suc t) ys s"
      by (rule Cons.IH [rotated])
    with False show ?thesis by simp
  qed
qed

lemma map2_concat:
  assumes "length A = length B" and "\<forall>k < length A. length (A ! k) = length (B ! k)"
  shows "map2 f (concat A) (concat B) = concat (map2 (map2 f) A B)"
  using assms
proof (induction A B rule: list_induct2)
  case Nil
  then show ?case by simp
next
  case (Cons a A b B)
  from Cons.prems have ab: "length a = length b" by auto
  from Cons.prems have "\<forall>k < length A. length (A ! k) = length (B ! k)" by auto
  with Cons.IH have "map2 f (concat A) (concat B) = concat (map2 (map2 f) A B)" by simp
  with ab show ?case by simp
qed

lemma length_concat_uniform:
  "\<forall>r \<in> set R. length r = W \<Longrightarrow> length (concat R) = length R * W"
  by (induction R) simp_all

lemma slice_concat_uniform:
  "\<forall>r \<in> set R. length r = W \<Longrightarrow> i < length R \<Longrightarrow> take W (drop (i * W) (concat R)) = R ! i"
proof (induction R arbitrary: i)
  case Nil
  then show ?case by simp
next
  case (Cons r R)
  show ?case
  proof (cases i)
    case 0
    with Cons.prems show ?thesis by simp
  next
    case (Suc k)
    with Cons.prems have "take W (drop (k * W) (concat R)) = R ! k" by (intro Cons.IH) simp_all
    with Cons.prems Suc show ?thesis by simp
  qed
qed


lemma build_placeholders_train_value:
  assumes "length decoder_inputs = length encoder_inputs"
  shows "build_placeholders_train GO EOS encoder_inputs decoder_inputs decoder_inputs_length =
           Inr \<lparr> decoder_start_token = replicate (length encoder_inputs) [GO],
                 decoder_end_token = replicate (length encoder_inputs) [EOS],
                 decoder_inputs_train = map ((#) GO) decoder_inputs,
                 decoder_inputs_train_length = map (\<lambda>l. l + 1) decoder_inputs_length,
                 decoder_targets_train = map (\<lambda>r. r @ [EOS]) decoder_inputs,
                 decoder_targets_train_length = map (\<lambda>l. l + 1) decoder_inputs_length \<rparr>"
  using assms
  by (simp add: build_placeholders_train_def concat_last_def token_column Let_def
      map2_append_replicate_left map2_append_replicate_right)

lemma train_graph_value:
  assumes "length encoder_inputs = B"
    and "encoder_batch_ok cfg encoder_inputs encoder_inputs_length"
    and "length X = B" and "length L = B"
    and "valid_id (decoder_vocab_size cfg) GO"
    and "list_all (list_all (valid_id (decoder_vocab_size cfg))) X"
  shows "\<exists>ph d. train_graph cfg GO EOS encoder dec encoder_inputs encoder_inputs_length X L
                  = Inr (ph, d)
           \<and> decoder_targets_train ph = map (\<lambda>r. r @ [EOS]) X
           \<and> decoder_inputs_train_length ph = map (\<lambda>l. l + 1) L
           \<and> decoder_logits_train d =
               map (\<lambda>k. map (dense (nat (decoder_vocab_size cfg)) (logits_unit dec))
                          (dynamic_rnn_row (decoder_cell dec)
                             (replicate (nat (hidden_units cfg)) 0) (sint (L ! k + 1)) 0
                             (map (\<lambda>t. embedding_lookup dec (sint t)) (GO # X ! k))
                             (encoder (encoder_inputs ! k) (encoder_inputs_length ! k))))
                 [0..<B]
           \<and> decoder_masks d =
               sequence_mask (map (\<lambda>l. l + 1) L) (reduce_max_int32 (map (\<lambda>l. l + 1) L))"
proof -
  have e: "run_encoder cfg encoder encoder_inputs encoder_inputs_length =
             Inr (map (\<lambda>i. encoder (encoder_inputs ! i) (encoder_inputs_length ! i)) [0..<B])"
    using run_encoder_rows [OF assms(2), of encoder] assms(1) by simp
  have p: "build_placeholders_train GO EOS encoder_inputs X L =
           Inr \<lparr> decoder_start_token = replicate (length encoder_inputs) [GO],
                 decoder_end_token = replicate (length encoder_inputs) [EOS],
                 decoder_inputs_train = map ((#) GO) X,
                 decoder_inputs_train_length = map (\<lambda>l. l + 1) L,
                 decoder_targets_train = map (\<lambda>r. r @ [EOS]) X,
                 decoder_targets_train_length = map (\<lambda>l. l + 1) L \<rparr>"
    using assms(1,3) by (intro build_placeholders_train_value) simp
  have rows: "map (\<lambda>(xs, len, s).
                         dynamic_rnn_row (decoder_cell dec)
                           (replicate (nat (hidden_units cfg)) 0) (sint len) 0 xs s)
                (zip (map (map (\<lambda>t. embedding_lookup dec (sint t))) (map ((#) GO) X))
                   (zip (map (\<lambda>l. l + 1) L)
                      (map (\<lambda>i. encoder (encoder_inputs ! i) (encoder_inputs_length ! i))
                         [0..<B])))
            = map (\<lambda>k. dynamic_rnn_row (decoder_cell dec)
                             (replicate (nat (hidden_units cfg)) 0) (sint (L ! k + 1)) 0
                             (map (\<lambda>t. embedding_lookup dec (sint t)) (GO # X ! k))
                             (encoder (encoder_inputs ! k) (encoder_inputs_length ! k)))
                 [0..<B]"
    using assms(3,4) by (intro nth_equalityI) (simp_all del: dynamic_rnn_row.simps list.map(2))
  have v: "list_all (list_all (valid_id (decoder_vocab_size cfg))) (map ((#) GO) X)"
    using assms(5,6) by (simp add: list_all_iff)
  show ?thesis
    unfolding train_graph_def e p sum.case build_decoder_train_def Let_def
    using assms(3,4) rows v by (simp del: dynamic_rnn_row.simps list.map(2))
qed

lemma masked_row_agree:
  assumes "length ts = length ts'" and "take n ts = take n ts'" and "len \<le> int n"
  shows "map2 (*) (map2 f ls ts) (map (\<lambda>j. if int j < len then 1 else 0 :: real) [0..<W]) =
         map2 (*) (map2 f ls ts') (map (\<lambda>j. if int j < len then 1 else 0) [0..<W])"
proof (intro nth_equalityI)
  show "length (map2 (*) (map2 f ls ts) (map (\<lambda>j. if int j < len then 1 else 0 :: real) [0..<W])) =
        length (map2 (*) (map2 f ls ts') (map (\<lambda>j. if int j < len then 1 else 0) [0..<W]))"
    using assms(1) by simp
next
  fix j
  assume "j < length (map2 (*) (map2 f ls ts) (map (\<lambda>j. if int j < len then 1 else 0 :: real) [0..<W]))"
  then have j: "j < length ls" "j < length ts" "j < length ts'" "j < W"
    using assms(1) by simp_all
  show "map2 (*) (map2 f ls ts) (map (\<lambda>j. if int j < len then 1 else 0 :: real) [0..<W]) ! j =
        map2 (*) (map2 f ls ts') (map (\<lambda>j. if int j < len then 1 else 0) [0..<W]) ! j"
  proof (cases "int j < len")
    case True
    with assms(3) have "j < n" by simp
    then have "ts ! j = take n ts ! j" "ts' ! j = take n ts' ! j" by simp_all
    with assms(2) have "ts ! j = ts' ! j" by simp
    with j show ?thesis by simp
  next
    case False
    with j show ?thesis by simp
  qed
qed


lemma weighted_crossent_rows:
  assumes "length logits = B" and "length targets = B" and "length weights = B"
    and "\<forall>r \<in> set logits. length r = W" and "\<forall>r \<in> set targets. length r = W"
    and "\<forall>r \<in> set weights. length r = W"
    and "\<forall>r \<in> set logits. \<forall>v \<in> set r. length v = N"
    and "\<forall>r \<in> set targets. \<forall>t \<in> set r. valid_id (int N) t"
  shows "weighted_crossent logits targets weights =
           Inr (concat (map2 (map2 (*)) (map2 (map2 sparse_softmax_cross_entropy) logits targets)
                          weights))"
proof -
  let ?C = "map2 (map2 sparse_softmax_cross_entropy) logits targets"
  have lt: "\<forall>k < length logits. length (logits ! k) = length (targets ! k)"
    using assms by simp
  have c: "map2 sparse_softmax_cross_entropy (concat logits) (concat targets) = concat ?C"
    using assms(1,2) lt by (intro map2_concat) simp_all
  have cw: "\<forall>r \<in> set ?C. length r = W"
    using assms(1,2,4,5) by (auto simp: set_zip)
  have "\<forall>k < length ?C. length (?C ! k) = length (weights ! k)"
    using assms by simp
  then have m: "map2 (*) (concat ?C) (concat weights) = concat (map2 (map2 (*)) ?C weights)"
    using assms(1,2,3) by (intro map2_concat) simp_all
  have len: "length (concat logits) = length (concat targets)"
    "length (concat ?C) = length (concat weights)"
    using length_concat_uniform [OF assms(4)] length_concat_uniform [OF assms(5)]
      length_concat_uniform [OF assms(6)] length_concat_uniform [OF cw] assms(1,2,3)
    by simp_all
  have valid: "list_all (valid_id (int N)) (concat targets)"
    using assms(8) by (auto simp: list_all_iff)
  have ok: "list_all (valid_id (int (case concat logits of [] \<Rightarrow> 0 | v # _ \<Rightarrow> length v)))
              (concat targets)"
  proof (cases "concat logits")
    case Nil
    with len(1) have e: "concat targets = []" by simp
    show ?thesis unfolding e by simp
  next
    case (Cons v vs)
    then have "v \<in> set (concat logits)" by simp
    with assms(7) have "length v = N" by auto
    with Cons valid show ?thesis by (simp only: list.case)
  qed
  show ?thesis
    unfolding weighted_crossent_def Let_def c broadcast_mul_def
    using len m ok by simp
qed

lemma train_graph_rows:
  assumes "length encoder_inputs = B"
    and "encoder_batch_ok cfg encoder_inputs encoder_inputs_length"
    and "length X = B" and "length L = B"
    and "\<forall>row \<in> set X. length row = T"
    and "sint (reduce_max_int32 (map (\<lambda>l. l + 1) L)) = int T + 1"
    and "valid_id (decoder_vocab_size cfg) GO" and "valid_id (decoder_vocab_size cfg) EOS"
    and "list_all (list_all (valid_id (decoder_vocab_size cfg))) X"
  shows "\<exists>ph d.
           train_graph cfg GO EOS encoder dec encoder_inputs encoder_inputs_length X L
             = Inr (ph, d)
         \<and> decoder_inputs_train_length ph = map (\<lambda>l. l + 1) L
         \<and> decoder_targets_train ph = map (\<lambda>r. r @ [EOS]) X
         \<and> decoder_masks d =
             sequence_mask (map (\<lambda>l. l + 1) L) (reduce_max_int32 (map (\<lambda>l. l + 1) L))
         \<and> weighted_crossent (decoder_logits_train d) (decoder_targets_train ph)
              (decoder_masks d) =
             Inr (concat (map (\<lambda>k.
                    map2 (*)
                      (map2 sparse_softmax_cross_entropy
                         (map (dense (nat (decoder_vocab_size cfg)) (logits_unit dec))
                            (dynamic_rnn_row (decoder_cell dec)
                               (replicate (nat (hidden_units cfg)) 0) (sint (L ! k + 1)) 0
                               (map (\<lambda>t. embedding_lookup dec (sint t)) (GO # X ! k))
                               (encoder (encoder_inputs ! k) (encoder_inputs_length ! k))))
                         (X ! k @ [EOS]))
                      (map (\<lambda>j. if int j < sint (L ! k + 1) then 1 else 0) [0..<Suc T]))
                  [0..<B]))"
proof -
  from train_graph_value [OF assms(1-4,7,9), of EOS encoder dec]
  obtain ph d where g: "train_graph cfg GO EOS encoder dec encoder_inputs
        encoder_inputs_length X L = Inr (ph, d)"
    and t: "decoder_targets_train ph = map (\<lambda>r. r @ [EOS]) X"
    and tl: "decoder_inputs_train_length ph = map (\<lambda>l. l + 1) L"
    and l: "decoder_logits_train d =
               map (\<lambda>k. map (dense (nat (decoder_vocab_size cfg)) (logits_unit dec))
                          (dynamic_rnn_row (decoder_cell dec)
                             (replicate (nat (hidden_units cfg)) 0) (sint (L ! k + 1)) 0
                             (map (\<lambda>t. embedding_lookup dec (sint t)) (GO # X ! k))
                             (encoder (encoder_inputs ! k) (encoder_inputs_length ! k))))
                 [0..<B]"
    and m: "decoder_masks d =
               sequence_mask (map (\<lambda>l. l + 1) L) (reduce_max_int32 (map (\<lambda>l. l + 1) L))"
    by blast
  have w: "nat (sint (reduce_max_int32 (map (\<lambda>l. l + 1) L))) = Suc T"
    using assms(6) by simp
  have lt: "length (decoder_targets_train ph) = B"
    "\<forall>r \<in> set (decoder_targets_train ph). length r = Suc T"
    using assms(3,5) by (auto simp: t)
  have ll: "length (decoder_logits_train d) = B"
    "\<forall>r \<in> set (decoder_logits_train d). length r = Suc T"
    using assms(3,5) by (auto simp: l simp del: dynamic_rnn_row.simps)
  have lm: "length (decoder_masks d) = B" "\<forall>r \<in> set (decoder_masks d). length r = Suc T"
    using assms(4) w by (auto simp: m sequence_mask_def)
  have v: "int (nat (decoder_vocab_size cfg)) = decoder_vocab_size cfg"
    using valid_id_vocab [OF assms(7)] by simp
  have lv: "\<forall>r \<in> set (decoder_logits_train d). \<forall>v \<in> set r.
              length v = nat (decoder_vocab_size cfg)"
    by (auto simp: l simp del: dynamic_rnn_row.simps)
  have tv: "\<forall>r \<in> set (decoder_targets_train ph). \<forall>t \<in> set r.
              valid_id (int (nat (decoder_vocab_size cfg))) t"
    unfolding v using assms(8,9) by (auto simp: t list_all_iff)
  let ?R = "map2 (map2 (*)) (map2 (map2 sparse_softmax_cross_entropy)
              (decoder_logits_train d) (decoder_targets_train ph)) (decoder_masks d)"
  have wc: "weighted_crossent (decoder_logits_train d) (decoder_targets_train ph)
               (decoder_masks d) = Inr (concat ?R)"
    using ll lt lm lv tv by (intro weighted_crossent_rows)
  have rows: "?R = map (\<lambda>k.
                    map2 (*)
                      (map2 sparse_softmax_cross_entropy
                         (map (dense (nat (decoder_vocab_size cfg)) (logits_unit dec))
                            (dynamic_rnn_row (decoder_cell dec)
                               (replicate (nat (hidden_units cfg)) 0) (sint (L ! k + 1)) 0
                               (map (\<lambda>t. embedding_lookup dec (sint t)) (GO # X ! k))
                               (encoder (encoder_inputs ! k) (encoder_inputs_length ! k))))
                         (X ! k @ [EOS]))
                      (map (\<lambda>j. if int j < sint (L ! k + 1) then 1 else 0) [0..<Suc T]))
                  [0..<B]"
    using assms(3,4) ll(1) lt(1) lm(1)
    by (intro nth_equalityI)
      (simp_all add: l t m w sequence_mask_def del: dynamic_rnn_row.simps list.map(2) upt_Suc)
  from g tl t m wc show ?thesis unfolding rows by blast
qed

lemma example_loss_value:
  assumes "length encoder_inputs = B"
    and "encoder_batch_ok cfg encoder_inputs encoder_inputs_length"
    and "length X = B" and "length L = B"
    and "\<forall>row \<in> set X. length row = T"
    and "sint (reduce_max_int32 (map (\<lambda>l. l + 1) L)) = int T + 1"
    and "valid_id (decoder_vocab_size cfg) GO" and "valid_id (decoder_vocab_size cfg) EOS"
    and "list_all (list_all (valid_id (decoder_vocab_size cfg))) X"
    and "i < B"
  shows "example_loss cfg GO EOS encoder dec encoder_inputs encoder_inputs_length X L i =
           Inr (sum_list
                  (map2 (*)
                     (map2 sparse_softmax_cross_entropy
                        (map (dense (nat (decoder_vocab_size cfg)) (logits_unit dec))
                           (dynamic_rnn_row (decoder_cell dec)
                              (replicate (nat (hidden_units cfg)) 0) (sint (L ! i + 1)) 0
                              (map (\<lambda>t. embedding_lookup dec (sint t)) (GO # X ! i))
                              (encoder (encoder_inputs ! i) (encoder_inputs_length ! i))))
                        (X ! i @ [EOS]))
                     (map (\<lambda>j. if int j < sint (L ! i + 1) then 1 else 0) [0..<Suc T]))
                / (sum_list (concat (sequence_mask (map (\<lambda>l. l + 1) L)
                                        (reduce_max_int32 (map (\<lambda>l. l + 1) L))))
                   + 1 / 10 ^ 12))"
proof -
  let ?row = "\<lambda>k. map2 (*)
                      (map2 sparse_softmax_cross_entropy
                         (map (dense (nat (decoder_vocab_size cfg)) (logits_unit dec))
                            (dynamic_rnn_row (decoder_cell dec)
                               (replicate (nat (hidden_units cfg)) 0) (sint (L ! k + 1)) 0
                               (map (\<lambda>t. embedding_lookup dec (sint t)) (GO # X ! k))
                               (encoder (encoder_inputs ! k) (encoder_inputs_length ! k))))
                         (X ! k @ [EOS]))
                      (map (\<lambda>j. if int j < sint (L ! k + 1) then 1 else 0) [0..<Suc T])"
  from train_graph_rows [OF assms(1-9), of encoder dec]
  obtain ph d where g: "train_graph cfg GO EOS encoder dec encoder_inputs
        encoder_inputs_length X L = Inr (ph, d)"
    and t: "decoder_targets_train ph = map (\<lambda>r. r @ [EOS]) X"
    and m: "decoder_masks d =
               sequence_mask (map (\<lambda>l. l + 1) L) (reduce_max_int32 (map (\<lambda>l. l + 1) L))"
    and wc: "weighted_crossent (decoder_logits_train d) (decoder_targets_train ph)
              (decoder_masks d) = Inr (concat (map ?row [0..<B]))"
    by blast
  have len: "\<not> length (decoder_targets_train ph) \<le> i"
    using assms(3,10) by (simp add: t)
  have wi: "length (decoder_targets_train ph ! i) = Suc T"
    using assms(3,5,10) by (simp add: t)
  have "\<forall>r \<in> set (map ?row [0..<B]). length r = Suc T"
    using assms(3,5) by (auto simp del: dynamic_rnn_row.simps upt_Suc)
  then have "take (Suc T) (drop (i * Suc T) (concat (map ?row [0..<B]))) = map ?row [0..<B] ! i"
    using assms(10) by (intro slice_concat_uniform) simp_all
  also have "\<dots> = ?row i" using assms(10) by simp
  finally have slice: "take (Suc T) (drop (i * Suc T) (concat (map ?row [0..<B]))) = ?row i" .
  have "example_loss cfg GO EOS encoder dec encoder_inputs encoder_inputs_length X L i =
          Inr (sum_list (?row i) / (sum_list (concat (decoder_masks d)) + 1 / 10 ^ 12))"
    by (simp only: example_loss_def g sum.case prod.case wc Let_def len if_False wi slice)
  then show ?thesis by (simp only: m)
qed

lemma sum_list_concat_real: "sum_list (concat R) = sum_list (map sum_list (R :: real list list))"
  by (induction R) simp_all

lemma sint_add_one:
  assumes "sint (l :: int32) < 2 ^ 31 - 1"
  shows "sint (l + 1) = sint l + 1"
proof -
  have "- (2 ^ 31) \<le> sint l" using sint_ge [of l] by simp
  with assms have "signed_take_bit 31 (sint l + 1) = sint l + 1"
    by (intro signed_take_bit_int_eq_self) simp_all
  then show ?thesis by (simp add: sint_word_add)
qed

text \<open>
  The loss is the sum of the contributions of its examples, so \<open>example_loss\<close> is the
  share of one example in it.
\<close>

lemma loss_is_sum_of_example_losses:
  assumes "length encoder_inputs = B"
    and "encoder_batch_ok cfg encoder_inputs encoder_inputs_length"
    and "length X = B" and "length L = B"
    and "\<forall>row \<in> set X. length row = T"
    and "sint (reduce_max_int32 (map (\<lambda>l. l + 1) L)) = int T + 1"
    and "valid_id (decoder_vocab_size cfg) GO" and "valid_id (decoder_vocab_size cfg) EOS"
    and "list_all (list_all (valid_id (decoder_vocab_size cfg))) X"
  shows "\<exists>cs. length cs = B
           \<and> (\<forall>i < B. example_loss cfg GO EOS encoder dec encoder_inputs
                          encoder_inputs_length X L i = Inr (cs ! i))
           \<and> loss cfg GO EOS encoder dec encoder_inputs encoder_inputs_length X L
               = Inr (sum_list cs)"
proof -
  let ?row = "\<lambda>k. map2 (*)
                      (map2 sparse_softmax_cross_entropy
                         (map (dense (nat (decoder_vocab_size cfg)) (logits_unit dec))
                            (dynamic_rnn_row (decoder_cell dec)
                               (replicate (nat (hidden_units cfg)) 0) (sint (L ! k + 1)) 0
                               (map (\<lambda>t. embedding_lookup dec (sint t)) (GO # X ! k))
                               (encoder (encoder_inputs ! k) (encoder_inputs_length ! k))))
                         (X ! k @ [EOS]))
                      (map (\<lambda>j. if int j < sint (L ! k + 1) then 1 else 0) [0..<Suc T])"
  let ?total = "sum_list (concat (sequence_mask (map (\<lambda>l. l + 1) L)
                                        (reduce_max_int32 (map (\<lambda>l. l + 1) L))))
                   + 1 / 10 ^ 12"
  let ?cs = "map (\<lambda>k. sum_list (?row k) / ?total) [0..<B]"
  from train_graph_rows [OF assms(1-9), of encoder dec]
  obtain ph d where g: "train_graph cfg GO EOS encoder dec encoder_inputs
        encoder_inputs_length X L = Inr (ph, d)"
    and m: "decoder_masks d =
               sequence_mask (map (\<lambda>l. l + 1) L) (reduce_max_int32 (map (\<lambda>l. l + 1) L))"
    and wc: "weighted_crossent (decoder_logits_train d) (decoder_targets_train ph)
              (decoder_masks d) = Inr (concat (map ?row [0..<B]))"
    by blast
  have each: "\<forall>i < B. example_loss cfg GO EOS encoder dec encoder_inputs
                          encoder_inputs_length X L i = Inr (?cs ! i)"
    using example_loss_value [OF assms(1-9), of _ encoder dec] by simp
  have "sum_list ?cs = sum_list (map (\<lambda>k. sum_list (?row k)) [0..<B]) / ?total"
    by (rule sum_list_divide)
  also have "\<dots> = sum_list (concat (map ?row [0..<B])) / ?total"
    by (simp only: sum_list_concat_real map_map comp_def)
  finally have total: "sum_list ?cs = sum_list (concat (map ?row [0..<B])) / ?total" .
  have "loss cfg GO EOS encoder dec encoder_inputs encoder_inputs_length X L =
          Inr (sum_list (concat (map ?row [0..<B])) /
               (sum_list (concat (decoder_masks d)) + 1 / 10 ^ 12))"
    by (simp only: loss_def g sum.case prod.case sequence_loss_def wc Let_def)
  then have "loss cfg GO EOS encoder dec encoder_inputs encoder_inputs_length X L =
          Inr (sum_list ?cs)"
    by (simp only: m total)
  moreover have "length ?cs = B" by simp
  ultimately show ?thesis using each by blast
qed

text \<open>
  \<open>EOS\<close> is appended after the padding. In a row shorter than the batch is wide, the
  position after the last real token therefore has weight 1 and the row's first padding
  token as its target.
\<close>

lemma first_padding_token_is_a_target:
  assumes "length encoder_inputs = B"
    and "encoder_batch_ok cfg encoder_inputs encoder_inputs_length"
    and "length X = B" and "length L = B"
    and "\<forall>row \<in> set X. length row = T"
    and "sint (reduce_max_int32 (map (\<lambda>l. l + 1) L)) = int T + 1"
    and "valid_id (decoder_vocab_size cfg) GO" and "valid_id (decoder_vocab_size cfg) EOS"
    and "list_all (list_all (valid_id (decoder_vocab_size cfg))) X"
    and "i < B" and "0 \<le> sint (L ! i)" and "sint (L ! i) < int T"
  shows "\<exists>ph d. train_graph cfg GO EOS encoder dec encoder_inputs encoder_inputs_length X L
                  = Inr (ph, d)
           \<and> decoder_masks d ! i ! nat (sint (L ! i)) = 1
           \<and> decoder_targets_train ph ! i ! nat (sint (L ! i)) = X ! i ! nat (sint (L ! i))"
proof -
  from train_graph_rows [OF assms(1-9), of encoder dec]
  obtain ph d where g: "train_graph cfg GO EOS encoder dec encoder_inputs
        encoder_inputs_length X L = Inr (ph, d)"
    and t: "decoder_targets_train ph = map (\<lambda>r. r @ [EOS]) X"
    and m: "decoder_masks d =
               sequence_mask (map (\<lambda>l. l + 1) L) (reduce_max_int32 (map (\<lambda>l. l + 1) L))"
    by blast
  have w: "nat (sint (reduce_max_int32 (map (\<lambda>l. l + 1) L))) = Suc T"
    using assms(6) by simp
  have row: "length (X ! i) = T" using assms(3,5,10) by simp
  have n: "nat (sint (L ! i)) < T" using assms(11,12) by simp
  have "sint (L ! i) < 2 ^ 31 - 1"
    using assms(12) assms(6) sint_lt [of "reduce_max_int32 (map (\<lambda>l. l + 1) L)"] by simp
  then have s: "sint (L ! i + 1) = sint (L ! i) + 1"
    by (rule sint_add_one)
  have "decoder_masks d ! i ! nat (sint (L ! i)) = 1"
    using assms(4,10,11) n by (simp add: m w sequence_mask_def s del: upt_Suc)
  moreover have "decoder_targets_train ph ! i ! nat (sint (L ! i)) = X ! i ! nat (sint (L ! i))"
    using assms(3,10) n row by (simp add: t nth_append)
  ultimately show ?thesis using g by blast
qed


lemma nth_concat_uniform:
  "\<forall>r \<in> set R. length r = W \<Longrightarrow> i < length R \<Longrightarrow> j < W \<Longrightarrow>
     concat R ! (i * W + j) = R ! i ! j"
proof (induction R arbitrary: i)
  case Nil
  then show ?case by simp
next
  case (Cons r R)
  show ?case
  proof (cases i)
    case 0
    with Cons.prems show ?thesis by (simp add: nth_append)
  next
    case (Suc k)
    with Cons.prems have "concat R ! (k * W + j) = R ! k ! j" by (intro Cons.IH) simp_all
    with Cons.prems Suc show ?thesis by (simp add: nth_append)
  qed
qed

text \<open>
  C2, as amended. Take a training batch the encoder accepts, whose decoder rows are
  padded to the longest example of the batch (the largest \<open>decoder_inputs_length + 1\<close>
  is the width of the targets), all tokens being ids of the decoder vocabulary. The loss
  weights are the sequence mask of the lengths \<open>decoder_inputs_length + 1\<close>, as wide as
  the targets: the weight of position \<open>j\<close> of example \<open>i\<close> is 1 when \<open>j\<close> is below that
  length and 0 from there on, and from there on the weighted cross-entropy is 0. So the
  contribution of example \<open>i\<close> to the loss is the same for two such batches with the same
  lengths whose rows \<open>i\<close> agree on their first \<open>decoder_inputs_length + 1\<close> tokens,
  whatever padding follows. The first padding token of a row is among these tokens:
  nothing is said of a change of it.
\<close>

theorem padding_beyond_true_length_is_masked:
  assumes "length encoder_inputs = B"
    and "encoder_batch_ok cfg encoder_inputs encoder_inputs_length"
    and "length X = B" and "length X' = B" and "length L = B"
    and "\<forall>row \<in> set X. length row = T" and "\<forall>row \<in> set X'. length row = T"
    and "sint (reduce_max_int32 (map (\<lambda>l. l + 1) L)) = int T + 1"
    and "valid_id (decoder_vocab_size cfg) GO" and "valid_id (decoder_vocab_size cfg) EOS"
    and "list_all (list_all (valid_id (decoder_vocab_size cfg))) X"
    and "list_all (list_all (valid_id (decoder_vocab_size cfg))) X'"
    and "i < B"
    and "take (nat (sint (L ! i + 1))) (X ! i) = take (nat (sint (L ! i + 1))) (X' ! i)"
  shows "\<exists>ph d crossent c.
           train_graph cfg GO EOS encoder dec encoder_inputs encoder_inputs_length X L
             = Inr (ph, d)
         \<and> decoder_inputs_train_length ph = map (\<lambda>l. l + 1) L
         \<and> decoder_masks d =
             sequence_mask (decoder_inputs_train_length ph)
               (reduce_max_int32 (decoder_inputs_train_length ph))
         \<and> length (decoder_masks d) = B
         \<and> length (decoder_masks d ! i) = Suc T
         \<and> length (decoder_targets_train ph ! i) = Suc T
         \<and> (\<forall>j < Suc T. decoder_masks d ! i ! j
                            = (if int j < sint (decoder_inputs_train_length ph ! i) then 1 else 0))
         \<and> weighted_crossent (decoder_logits_train d) (decoder_targets_train ph)
              (decoder_masks d) = Inr crossent
         \<and> (\<forall>j < Suc T. sint (decoder_inputs_train_length ph ! i) \<le> int j
                \<longrightarrow> crossent ! (i * Suc T + j) = 0)
         \<and> example_loss cfg GO EOS encoder dec encoder_inputs encoder_inputs_length X L i
             = Inr c
         \<and> example_loss cfg GO EOS encoder dec encoder_inputs encoder_inputs_length X' L i
             = Inr c"
proof -
  let ?n = "nat (sint (L ! i + 1))"
  let ?emb = "\<lambda>t. embedding_lookup dec (sint t)"
  let ?row = "\<lambda>k. map2 (*)
                      (map2 sparse_softmax_cross_entropy
                         (map (dense (nat (decoder_vocab_size cfg)) (logits_unit dec))
                            (dynamic_rnn_row (decoder_cell dec)
                               (replicate (nat (hidden_units cfg)) 0) (sint (L ! k + 1)) 0
                               (map (\<lambda>t. embedding_lookup dec (sint t)) (GO # X ! k))
                               (encoder (encoder_inputs ! k) (encoder_inputs_length ! k))))
                         (X ! k @ [EOS]))
                      (map (\<lambda>j. if int j < sint (L ! k + 1) then 1 else 0) [0..<Suc T])"
  note hX = assms(1,2,3,5,6,8,9,10,11)
  note hX' = assms(1,2,4,5,7,8,9,10,12)
  from train_graph_rows [OF hX, of encoder dec]
  obtain ph d where g: "train_graph cfg GO EOS encoder dec encoder_inputs
        encoder_inputs_length X L = Inr (ph, d)"
    and tl: "decoder_inputs_train_length ph = map (\<lambda>l. l + 1) L"
    and t: "decoder_targets_train ph = map (\<lambda>r. r @ [EOS]) X"
    and m: "decoder_masks d =
               sequence_mask (map (\<lambda>l. l + 1) L) (reduce_max_int32 (map (\<lambda>l. l + 1) L))"
    and wc: "weighted_crossent (decoder_logits_train d) (decoder_targets_train ph)
              (decoder_masks d) = Inr (concat (map ?row [0..<B]))"
    by blast
  have w: "nat (sint (reduce_max_int32 (map (\<lambda>l. l + 1) L))) = Suc T"
    using assms(8) by simp
  have len: "decoder_inputs_train_length ph ! i = L ! i + 1"
    using assms(5,13) by (simp add: tl)
  have m': "decoder_masks d =
             sequence_mask (decoder_inputs_train_length ph)
               (reduce_max_int32 (decoder_inputs_train_length ph))"
    by (simp only: m tl)
  have shape: "length (decoder_masks d) = B" "length (decoder_masks d ! i) = Suc T"
    "length (decoder_targets_train ph ! i) = Suc T"
    using assms(3,5,6,13) by (simp_all add: m w t sequence_mask_def)
  have entries: "\<forall>j < Suc T. decoder_masks d ! i ! j
                    = (if int j < sint (decoder_inputs_train_length ph ! i) then 1 else 0)"
    using assms(5,13) by (simp add: len m w sequence_mask_def del: upt_Suc)
  have zero: "\<forall>j < Suc T. sint (decoder_inputs_train_length ph ! i) \<le> int j
                \<longrightarrow> concat (map ?row [0..<B]) ! (i * Suc T + j) = 0"
  proof (intro allI impI)
    fix j
    assume j: "j < Suc T" and z: "sint (decoder_inputs_train_length ph ! i) \<le> int j"
    have "\<forall>r \<in> set (map ?row [0..<B]). length r = Suc T"
      using assms(3,6) by (auto simp del: dynamic_rnn_row.simps upt_Suc)
    then have "concat (map ?row [0..<B]) ! (i * Suc T + j) = map ?row [0..<B] ! i ! j"
      using assms(13) j by (intro nth_concat_uniform) simp_all
    also have "\<dots> = ?row i ! j" using assms(13) by simp
    also have "\<dots> = 0"
      using j z assms(3,6,13)
      by (simp add: len del: dynamic_rnn_row.simps upt_Suc list.map(2))
    finally show "concat (map ?row [0..<B]) ! (i * Suc T + j) = 0" .
  qed
  have rows: "length (X ! i) = T" "length (X' ! i) = T"
    using assms(3,4,6,7,13) by simp_all
  have inputs: "take ?n (map ?emb (GO # X ! i)) = take ?n (map ?emb (GO # X' ! i))"
  proof (cases ?n)
    case 0
    then show ?thesis by simp
  next
    case (Suc k)
    have "take k (X ! i) = take k (take (Suc k) (X ! i))" by simp
    also have "\<dots> = take k (take (Suc k) (X' ! i))" using assms(14) Suc by simp
    also have "\<dots> = take k (X' ! i)" by simp
    finally show ?thesis by (simp add: Suc take_map)
  qed
  have outputs: "dynamic_rnn_row (decoder_cell dec) (replicate (nat (hidden_units cfg)) 0)
                   (sint (L ! i + 1)) 0 (map ?emb (GO # X ! i))
                   (encoder (encoder_inputs ! i) (encoder_inputs_length ! i))
               = dynamic_rnn_row (decoder_cell dec) (replicate (nat (hidden_units cfg)) 0)
                   (sint (L ! i + 1)) 0 (map ?emb (GO # X' ! i))
                   (encoder (encoder_inputs ! i) (encoder_inputs_length ! i))"
    using rows inputs by (intro dynamic_rnn_row_prefix [where n = ?n]) simp_all
  have targets: "take ?n (X ! i @ [EOS]) = take ?n (X' ! i @ [EOS])"
    using assms(14) rows by simp
  have masked: "\<And>ls. map2 (*) (map2 sparse_softmax_cross_entropy ls (X ! i @ [EOS]))
                     (map (\<lambda>j. if int j < sint (L ! i + 1) then 1 else 0 :: real) [0..<Suc T])
                 = map2 (*) (map2 sparse_softmax_cross_entropy ls (X' ! i @ [EOS]))
                     (map (\<lambda>j. if int j < sint (L ! i + 1) then 1 else 0) [0..<Suc T])"
    using rows targets by (intro masked_row_agree [where n = ?n]) simp_all
  have "example_loss cfg GO EOS encoder dec encoder_inputs encoder_inputs_length X L i =
        example_loss cfg GO EOS encoder dec encoder_inputs encoder_inputs_length X' L i"
    unfolding example_loss_value [OF hX assms(13)] example_loss_value [OF hX' assms(13)] outputs
    by (simp only: masked)
  with example_loss_value [OF hX assms(13), of encoder dec]
  obtain c where
    "example_loss cfg GO EOS encoder dec encoder_inputs encoder_inputs_length X L i = Inr c"
    "example_loss cfg GO EOS encoder dec encoder_inputs encoder_inputs_length X' L i = Inr c"
    by metis
  with g tl m' shape entries wc zero show ?thesis by blast
qed

theorem padding_beyond_true_length_is_masked_witness:
  "\<exists>ph d crossent c.
     train_graph example_config 1 2 example_encoder example_decoder
         [[4, 5, 6], [4, 5, 0]] [3, 2] [[7, 8, 9], [7, 0, 0]] [3, 1] = Inr (ph, d)
     \<and> decoder_inputs_train_length ph = [4, 2]
     \<and> decoder_masks d = [[1, 1, 1, 1], [1, 1, 0, 0]]
     \<and> weighted_crossent (decoder_logits_train d) (decoder_targets_train ph)
              (decoder_masks d) = Inr crossent
     \<and> crossent ! 6 = 0 \<and> crossent ! 7 = 0
     \<and> example_loss example_config 1 2 example_encoder example_decoder
         [[4, 5, 6], [4, 5, 0]] [3, 2] [[7, 8, 9], [7, 0, 0]] [3, 1] 1 = Inr c
     \<and> example_loss example_config 1 2 example_encoder example_decoder
         [[4, 5, 6], [4, 5, 0]] [3, 2] [[7, 8, 9], [7, 0, 5]] [3, 1] 1 = Inr c"
proof -
  have h: "length [[4, 5, 6], [4, 5, 0 :: int32]] = 2"
    "encoder_batch_ok example_config [[4, 5, 6], [4, 5, 0]] [3, 2]"
    "length [[7, 8, 9], [7, 0, 0 :: int32]] = 2" "length [[7, 8, 9], [7, 0, 5 :: int32]] = 2"
    "length [3, 1 :: int32] = 2"
    "\<forall>row \<in> set [[7, 8, 9], [7, 0, 0 :: int32]]. length row = 3"
    "\<forall>row \<in> set [[7, 8, 9], [7, 0, 5 :: int32]]. length row = 3"
    "sint (reduce_max_int32 (map (\<lambda>l. l + 1) [3, 1 :: int32])) = int 3 + 1"
    "valid_id (decoder_vocab_size example_config) 1"
    "valid_id (decoder_vocab_size example_config) 2"
    "list_all (list_all (valid_id (decoder_vocab_size example_config)))
       [[7, 8, 9], [7, 0, 0]]"
    "list_all (list_all (valid_id (decoder_vocab_size example_config)))
       [[7, 8, 9], [7, 0, 5]]"
    "(1 :: nat) < 2"
    "take (nat (sint ([3, 1 :: int32] ! 1 + 1))) ([[7, 8, 9], [7, 0, 0 :: int32]] ! 1) =
     take (nat (sint ([3, 1 :: int32] ! 1 + 1))) ([[7, 8, 9], [7, 0, 5 :: int32]] ! 1)"
    by (simp_all add: reduce_max_int32_def valid_id_def example_config_def
        encoder_batch_ok_def)
  have u: "[0..<4] = [0, 1, 2, 3]" by (simp add: upt_rec)
  from padding_beyond_true_length_is_masked [OF h, of example_encoder example_decoder]
  obtain ph d crossent c where
    1: "train_graph example_config 1 2 example_encoder example_decoder
         [[4, 5, 6], [4, 5, 0]] [3, 2] [[7, 8, 9], [7, 0, 0]] [3, 1] = Inr (ph, d)"
    and 2: "decoder_inputs_train_length ph = map (\<lambda>l. l + 1) [3, 1]"
    and 3: "decoder_masks d =
             sequence_mask (decoder_inputs_train_length ph)
               (reduce_max_int32 (decoder_inputs_train_length ph))"
    and 4: "weighted_crossent (decoder_logits_train d) (decoder_targets_train ph)
              (decoder_masks d) = Inr crossent"
    and 5: "\<forall>j < Suc 3. sint (decoder_inputs_train_length ph ! 1) \<le> int j
                \<longrightarrow> crossent ! (1 * Suc 3 + j) = 0"
    and 6: "example_loss example_config 1 2 example_encoder example_decoder
         [[4, 5, 6], [4, 5, 0]] [3, 2] [[7, 8, 9], [7, 0, 0]] [3, 1] 1 = Inr c"
      "example_loss example_config 1 2 example_encoder example_decoder
         [[4, 5, 6], [4, 5, 0]] [3, 2] [[7, 8, 9], [7, 0, 5]] [3, 1] 1 = Inr c"
    by blast
  have l: "decoder_inputs_train_length ph = [4, 2]" by (simp add: 2)
  have k: "decoder_masks d = [[1, 1, 1, 1], [1, 1, 0, 0]]"
    unfolding 3 l by (simp add: sequence_mask_def reduce_max_int32_def u)
  from 5 [rule_format, of 2] 5 [rule_format, of 3]
  have z: "crossent ! 6 = 0" "crossent ! 7 = 0" by (simp_all add: l)
  from 1 l k 4 z 6 show ?thesis by blast
qed

text \<open>
  The cross-entropy of a label that is an index of the logits, and its value for the
  logits of \<open>example_decoder_graded\<close>.
\<close>

lemma sparse_softmax_cross_entropy_value:
  assumes "nat (sint t) < length v"
  shows "sparse_softmax_cross_entropy v t = ln (sum_list (map exp v)) - v ! nat (sint t)"
proof -
  from assms have "v \<noteq> []" by auto
  then have S: "0 < sum_list (map exp v)" by (rule sum_list_exp_pos)
  have "softmax v ! nat (sint t) = exp (v ! nat (sint t)) / sum_list (map exp v)"
    using assms by (simp add: softmax_def)
  then show ?thesis
    using S by (simp add: sparse_softmax_cross_entropy_def ln_div)
qed

lemma graded_cross_entropy:
  "valid_id 10 t \<Longrightarrow>
   sparse_softmax_cross_entropy (map real [0..<10]) t
     = ln (sum_list (map exp (map real [0..<10]))) - real_of_int (sint t)"
proof -
  assume v: "valid_id 10 t"
  then have n: "nat (sint t) < 10" unfolding valid_id_def by linarith
  then have "map real [0..<10] ! nat (sint t) = real (nat (sint t))"
    by (simp del: upt_Suc map_map add: nth_map)
  also have "\<dots> = real_of_int (sint t)" using v by (simp add: valid_id_def)
  finally show ?thesis
    using sparse_softmax_cross_entropy_value [of t "map real [0..<10]"] n
    by (simp del: upt_Suc)
qed

text \<open>
  C2 as stated fails in two ways. The mask is as wide as the longest length of the
  batch, not as the padded targets: one more column of padding, which lies beyond the
  length of the second example before and after, and the weights no longer have the size
  of the cross-entropies; the loss and the contribution of the second example are an
  error, where they were numbers before. And \<open>EOS\<close> is appended after the padding
  (line 100), so the first padding token of the second example, at index
  \<open>decoder_inputs_length\<close>, is the target of a position of weight 1: with a decoder
  whose logits differ, another token there gives another contribution.
\<close>

theorem padding_counterexample:
  "\<not> isl (loss example_config 1 2 example_encoder example_decoder
             [[4, 5, 6], [4, 5, 0]] [3, 2] [[7, 8, 9], [7, 0, 0]] [3, 1])
   \<and> \<not> isl (example_loss example_config 1 2 example_encoder example_decoder
             [[4, 5, 6], [4, 5, 0]] [3, 2] [[7, 8, 9], [7, 0, 0]] [3, 1] 1)
   \<and> loss example_config 1 2 example_encoder example_decoder
        [[4, 5, 6], [4, 5, 0]] [3, 2] [[7, 8, 9, 0], [7, 0, 0, 0]] [3, 1]
       = Inl InvalidArgumentError
   \<and> example_loss example_config 1 2 example_encoder example_decoder
        [[4, 5, 6], [4, 5, 0]] [3, 2] [[7, 8, 9, 0], [7, 0, 0, 0]] [3, 1] 1
       = Inl InvalidArgumentError
   \<and> \<not> isl (example_loss example_config 1 2 example_encoder example_decoder_graded
             [[4, 5, 6], [4, 5, 0]] [3, 2] [[7, 8, 9], [7, 0, 0]] [3, 1] 1)
   \<and> \<not> isl (example_loss example_config 1 2 example_encoder example_decoder_graded
             [[4, 5, 6], [4, 5, 0]] [3, 2] [[7, 8, 9], [7, 5, 0]] [3, 1] 1)
   \<and> example_loss example_config 1 2 example_encoder example_decoder_graded
        [[4, 5, 6], [4, 5, 0]] [3, 2] [[7, 8, 9], [7, 0, 0]] [3, 1] 1
     \<noteq> example_loss example_config 1 2 example_encoder example_decoder_graded
        [[4, 5, 6], [4, 5, 0]] [3, 2] [[7, 8, 9], [7, 5, 0]] [3, 1] 1"
proof -
  have appended:
    "\<not> isl (loss example_config 1 2 example_encoder example_decoder
             [[4, 5, 6], [4, 5, 0]] [3, 2] [[7, 8, 9], [7, 0, 0]] [3, 1])
     \<and> \<not> isl (example_loss example_config 1 2 example_encoder example_decoder
             [[4, 5, 6], [4, 5, 0]] [3, 2] [[7, 8, 9], [7, 0, 0]] [3, 1] 1)
     \<and> loss example_config 1 2 example_encoder example_decoder
        [[4, 5, 6], [4, 5, 0]] [3, 2] [[7, 8, 9, 0], [7, 0, 0, 0]] [3, 1]
       = Inl InvalidArgumentError
     \<and> example_loss example_config 1 2 example_encoder example_decoder
        [[4, 5, 6], [4, 5, 0]] [3, 2] [[7, 8, 9, 0], [7, 0, 0, 0]] [3, 1] 1
       = Inl InvalidArgumentError"
    by (simp add: loss_def example_loss_def train_graph_def run_encoder_def
        build_placeholders_train_def concat_last_def times_scalar_def ones_def
        build_decoder_train_def sequence_loss_def weighted_crossent_def broadcast_mul_def
        sequence_mask_def reduce_max_int32_def Let_def example_config_def example_decoder_def
        example_encoder_def dense_def valid_id_def encoder_batch_ok_def)
  have h: "length [[4, 5, 6], [4, 5, 0 :: int32]] = 2"
    "encoder_batch_ok example_config [[4, 5, 6], [4, 5, 0]] [3, 2]"
    by (simp_all add: example_config_def encoder_batch_ok_def valid_id_def)
  have l: "length [3, 1 :: int32] = 2"
    "sint (reduce_max_int32 (map (\<lambda>l. l + 1) [3, 1 :: int32])) = int 3 + 1"
    "valid_id (decoder_vocab_size example_config) 1"
    "valid_id (decoder_vocab_size example_config) 2"
    by (simp_all add: reduce_max_int32_def valid_id_def example_config_def)
  have a: "length [[7, 8, 9], [7, 0, 0 :: int32]] = 2"
    "\<forall>row \<in> set [[7, 8, 9], [7, 0, 0 :: int32]]. length row = 3"
    "list_all (list_all (valid_id (decoder_vocab_size example_config)))
       [[7, 8, 9], [7, 0, 0]]"
    by (simp_all add: valid_id_def example_config_def)
  have b: "length [[7, 8, 9], [7, 5, 0 :: int32]] = 2"
    "\<forall>row \<in> set [[7, 8, 9], [7, 5, 0 :: int32]]. length row = 3"
    "list_all (list_all (valid_id (decoder_vocab_size example_config)))
       [[7, 8, 9], [7, 5, 0]]"
    by (simp_all add: valid_id_def example_config_def)
  have i: "(1 :: nat) < 2" by simp
  have d: "dense (nat (decoder_vocab_size example_config)) (\<lambda>k v. real k)
             = (\<lambda>x. map real [0..<10])"
    by (intro ext) (simp add: dense_def example_config_def del: upt_Suc)
  have v: "valid_id 10 7" "valid_id 10 0" "valid_id 10 5" "valid_id 10 2"
    by (simp_all add: valid_id_def)
  have u: "[0..<4] = [0, 1, 2, 3]" by (simp add: upt_rec)
  note A = example_loss_value [OF h a(1) l(1) a(2) l(2,3,4) a(3) i,
      of example_encoder example_decoder_graded]
  note B = example_loss_value [OF h b(1) l(1) b(2) l(2,3,4) b(3) i,
      of example_encoder example_decoder_graded]
  have numbers:
    "\<not> isl (example_loss example_config 1 2 example_encoder example_decoder_graded
             [[4, 5, 6], [4, 5, 0]] [3, 2] [[7, 8, 9], [7, 0, 0]] [3, 1] 1)"
    "\<not> isl (example_loss example_config 1 2 example_encoder example_decoder_graded
             [[4, 5, 6], [4, 5, 0]] [3, 2] [[7, 8, 9], [7, 5, 0]] [3, 1] 1)"
    unfolding A B by simp_all
  have differ:
    "example_loss example_config 1 2 example_encoder example_decoder_graded
        [[4, 5, 6], [4, 5, 0]] [3, 2] [[7, 8, 9], [7, 0, 0]] [3, 1] 1
     \<noteq> example_loss example_config 1 2 example_encoder example_decoder_graded
        [[4, 5, 6], [4, 5, 0]] [3, 2] [[7, 8, 9], [7, 5, 0]] [3, 1] 1"
    unfolding A B
    by (simp add: example_decoder_graded_def d u graded_cross_entropy [OF v(1)]
         graded_cross_entropy [OF v(2)] graded_cross_entropy [OF v(3)]
         graded_cross_entropy [OF v(4)] sequence_mask_def reduce_max_int32_def
         del: upt_Suc map_map)
  from appended numbers differ show ?thesis by blast
qed

section \<open>Gradient clipping\<close>

lemma sum_squares_scaled:
  "sum_list (map (\<lambda>t. case t of None \<Rightarrow> 0 | Some v \<Rightarrow> sum_list (map (\<lambda>x. x * x) v))
       (map (map_option (map (\<lambda>x. x * k))) gs))
   = k * k * sum_list (map (\<lambda>t. case t of None \<Rightarrow> 0 | Some v \<Rightarrow> sum_list (map (\<lambda>x. x * x) v)) gs)"
  for k :: real
proof (induction gs)
  case Nil
  then show ?case by simp
next
  case (Cons g gs)
  have "sum_list (map (\<lambda>x. x * x) (map (\<lambda>x. x * k) v)) = k * k * sum_list (map (\<lambda>x. x * x) v)"
    for v :: "real list"
    by (induction v) (simp_all add: algebra_simps)
  with Cons show ?case by (cases g) (simp_all add: algebra_simps)
qed

text \<open>Multiplying every entry by \<open>k\<close> multiplies the global norm by \<open>\<bar>k\<bar>\<close>.\<close>

lemma global_norm_scaled:
  "global_norm (map (map_option (map (\<lambda>x. x * k))) gs) = \<bar>k\<bar> * global_norm gs"
  unfolding global_norm_def sum_squares_scaled
  by (simp add: real_sqrt_mult)

lemma map_map_option_ident: "map (map_option (\<lambda>v. v)) gs = gs"
  by (induction gs) (simp_all add: option.map_ident)

text \<open>
  C6. With a positive \<open>max_gradient_norm\<close>, running \<open>train_op\<close> gives the optimizer
  the clipped gradients of the loss. When the global norm of the gradients exceeds
  \<open>max_gradient_norm\<close>, the clipped gradients are the gradients, every entry multiplied
  by the one factor \<open>max_gradient_norm / global_norm\<close>, which lies between 0 and 1, and
  their global norm is \<open>max_gradient_norm\<close>; otherwise they are the gradients as
  computed. (Over the reals: nothing is rounded.)
\<close>

theorem clip_gradients_global_norm:
  assumes "0 < max_gradient_norm cfg" and "gs = gradients net (variables sess) cells batch"
  shows "train_op cfg net cells batch sess =
           sess\<lparr>variables := apply_gradients net (variables sess) (clip_gradients cfg gs),
                global_step := global_step sess + 1\<rparr>
       \<and> (max_gradient_norm cfg < global_norm gs \<longrightarrow>
            clip_gradients cfg gs =
              map (map_option (map (\<lambda>x. x * (max_gradient_norm cfg / global_norm gs)))) gs
            \<and> 0 < max_gradient_norm cfg / global_norm gs
            \<and> max_gradient_norm cfg / global_norm gs < 1
            \<and> global_norm (clip_gradients cfg gs) = max_gradient_norm cfg)
       \<and> (global_norm gs \<le> max_gradient_norm cfg \<longrightarrow> clip_gradients cfg gs = gs)"
proof (intro conjI impI)
  show "train_op cfg net cells batch sess =
           sess\<lparr>variables := apply_gradients net (variables sess) (clip_gradients cfg gs),
                global_step := global_step sess + 1\<rparr>"
    by (simp add: train_op_def Let_def assms(2))
next
  assume over: "max_gradient_norm cfg < global_norm gs"
  with assms(1) have pos: "0 < global_norm gs" by simp
  from over have m: "max (global_norm gs) (max_gradient_norm cfg) = global_norm gs" by simp
  show c: "clip_gradients cfg gs =
          map (map_option (map (\<lambda>x. x * (max_gradient_norm cfg / global_norm gs)))) gs"
    by (simp add: clip_gradients_def clip_by_global_norm_def Let_def m)
  show "0 < max_gradient_norm cfg / global_norm gs" using assms(1) pos by simp
  show "max_gradient_norm cfg / global_norm gs < 1" using over pos by simp
  show "global_norm (clip_gradients cfg gs) = max_gradient_norm cfg"
    unfolding c global_norm_scaled using assms(1) pos by simp
next
  assume "global_norm gs \<le> max_gradient_norm cfg"
  then have m: "max (global_norm gs) (max_gradient_norm cfg) = max_gradient_norm cfg" by simp
  from assms(1) show "clip_gradients cfg gs = gs"
    by (simp add: clip_gradients_def clip_by_global_norm_def Let_def m map_map_option_ident)
qed

lemma sqrt_100: "sqrt 100 = 10"
  by (rule real_sqrt_unique) simp_all

lemma sqrt_25: "sqrt 25 = 5"
  by (rule real_sqrt_unique) simp_all

theorem clip_gradients_global_norm_witness:
  "0 < max_gradient_norm example_config
   \<and> global_norm [Some [6, 8], None] = 10
   \<and> train_op example_config
        \<lparr>gru_cell = (\<lambda>p k (x :: unit) (s :: unit). ([], s)), loss_tensor = (\<lambda>p c b. 0),
         gradients = (\<lambda>p c b. [Some [6, 8], None]), apply_gradients = (\<lambda>p gs. gs)\<rparr>
        (\<lambda>k (x :: unit) (s :: unit). ([], s)) () \<lparr>variables = [], global_step = 0\<rparr>
      = \<lparr>variables = [Some [3, 4], None], global_step = 1\<rparr>
   \<and> global_norm [Some [3, 4], None] = 5
   \<and> global_norm [Some [3], Some [4]] = 5
   \<and> train_op example_config
        \<lparr>gru_cell = (\<lambda>p k (x :: unit) (s :: unit). ([], s)), loss_tensor = (\<lambda>p c b. 0),
         gradients = (\<lambda>p c b. [Some [3], Some [4]]), apply_gradients = (\<lambda>p gs. gs)\<rparr>
        (\<lambda>k (x :: unit) (s :: unit). ([], s)) () \<lparr>variables = [], global_step = 0\<rparr>
      = \<lparr>variables = [Some [3], Some [4]], global_step = 1\<rparr>"
proof -
  have c: "max_gradient_norm example_config = 5" by (simp add: example_config_def)
  have p: "0 < max_gradient_norm example_config" by (simp add: c)
  have n: "global_norm [Some [6, 8], None] = 10" "global_norm [Some [3], Some [4]] = 5"
    "global_norm [Some [3, 4], None] = 5"
    by (simp_all add: global_norm_def sqrt_100 sqrt_25)
  have g: "[Some [6, 8], None] =
      gradients \<lparr>gru_cell = (\<lambda>p k (x :: unit) (s :: unit). ([], s)), loss_tensor = (\<lambda>p c b. 0),
         gradients = (\<lambda>p c b. [Some [6, 8], None]), apply_gradients = (\<lambda>p gs. gs)\<rparr>
        (variables \<lparr>variables = [], global_step = 0\<rparr>) (\<lambda>k (x :: unit) (s :: unit). ([], s)) ()"
    "[Some [3], Some [4]] =
      gradients \<lparr>gru_cell = (\<lambda>p k (x :: unit) (s :: unit). ([], s)), loss_tensor = (\<lambda>p c b. 0),
         gradients = (\<lambda>p c b. [Some [3], Some [4]]), apply_gradients = (\<lambda>p gs. gs)\<rparr>
        (variables \<lparr>variables = [], global_step = 0\<rparr>) (\<lambda>k (x :: unit) (s :: unit). ([], s)) ()"
    by simp_all
  from clip_gradients_global_norm [OF p g(1)] clip_gradients_global_norm [OF p g(2)]
  show ?thesis unfolding c n by auto
qed

section \<open>Evaluation is repeatable\<close>


lemma dropout_keep_all: "0 \<le> u \<Longrightarrow> u < 1 \<Longrightarrow> dropout 1 u x = x"
proof -
  assume "0 \<le> u" "u < 1"
  then have "\<lfloor>1 + u\<rfloor> = 1" by linarith
  then show ?thesis by (simp add: dropout_def)
qed

lemma map2_dropout_keep_all:
  assumes "\<forall>j. 0 \<le> noise j \<and> noise j < 1"
  shows "map2 (dropout 1) (map noise [0..<length out]) out = out"
  using assms by (intro nth_equalityI) (simp_all add: dropout_keep_all)

lemma single_cell_call_keep_all:
  assumes "\<forall>j. 0 \<le> noise j \<and> noise j < 1"
  shows "single_cell_call cfg 1 noise gru = gru"
proof (intro ext)
  fix x s
  show "single_cell_call cfg 1 noise gru x s = gru x s"
    by (simp add: single_cell_call_def Let_def case_prod_beta map2_dropout_keep_all [OF assms])
qed

lemma sess_run_eval:
  assumes "\<forall>k j. 0 \<le> noise k j \<and> noise k j < 1"
  shows "sess_run cfg net \<lparr>keep_prob_fed = 1, fetches = [''loss'']\<rparr> batch noise sess =
           (loss_tensor net (variables sess) (gru_cell net (variables sess)) batch, sess)"
proof -
  have "\<And>k. single_cell_call cfg 1 (noise k) (gru_cell net (variables sess) k) =
           gru_cell net (variables sess) k"
    using assms by (intro single_cell_call_keep_all) simp
  then show ?thesis by (simp add: sess_run_def)
qed

lemma eval_request_ok:
  assumes "construct cfg mode_arg g = (Inr m, g')" and "mode m = ''train''"
  shows "eval_request m = Inr \<lparr>keep_prob_fed = 1, fetches = [''loss'']\<rparr>"
proof -
  note a = train_model_attrs [OF assms]
  have "getattrs m [''encoder_inputs'', ''encoder_inputs_length'', ''decoder_inputs'',
                    ''decoder_inputs_length'', ''keep_prob'', ''loss''] = None"
    using a by (intro getattrs_None) simp
  then show ?thesis by (simp add: eval_request_def del: getattrs.simps)
qed

text \<open>
  C7. On a model built in mode \<open>train\<close>, \<open>eval\<close> feeds keep probability 1 and fetches
  the loss alone. Whatever the dropout draws of a run are (any values in \<open>[0, 1)\<close>), it
  returns the loss of the network without dropout and leaves the session as it was: a
  second call on the same batch, with other draws, returns the same loss.
\<close>

theorem eval_is_repeatable:
  assumes "construct cfg mode_arg g = (Inr m, g')" and "mode m = ''train''"
    and "\<forall>k j. 0 \<le> noise k j \<and> noise k j < 1"
    and "\<forall>k j. 0 \<le> noise' k j \<and> noise' k j < 1"
  shows "\<exists>l sess'. eval_request m = Inr \<lparr>keep_prob_fed = 1, fetches = [''loss'']\<rparr>
           \<and> eval_loss m cfg net batch noise sess = Inr (l, sess') \<and> sess' = sess
           \<and> eval_loss m cfg net batch noise' sess' = Inr (l, sess')"
  unfolding eval_loss_def eval_request_ok [OF assms(1,2)] sum.case
    sess_run_eval [OF assms(3)] sess_run_eval [OF assms(4)]
  by simp

theorem eval_is_repeatable_witness:
  "\<exists>m g' l sess'.
     construct example_config ''train'' [] = (Inr m, g')
     \<and> eval_loss m example_config
          \<lparr>gru_cell = (\<lambda>p k x s. ([p], s)),
           loss_tensor = (\<lambda>p cells b. sum_list (fst (cells 0 () ()))),
           gradients = (\<lambda>p cells b. [Some [1]]),
           apply_gradients = (\<lambda>p gs. p + 1)\<rparr>
          () (\<lambda>k j. 0) \<lparr>variables = 3, global_step = 0\<rparr> = Inr (l, sess')
     \<and> sess' = \<lparr>variables = 3, global_step = 0\<rparr>
     \<and> eval_loss m example_config
          \<lparr>gru_cell = (\<lambda>p k x s. ([p], s)),
           loss_tensor = (\<lambda>p cells b. sum_list (fst (cells 0 () ()))),
           gradients = (\<lambda>p cells b. [Some [1]]),
           apply_gradients = (\<lambda>p gs. p + 1)\<rparr>
          () (\<lambda>k j. 1 / 2) sess' = Inr (l, sess')"
proof -
  obtain m g' where c: "construct example_config ''train'' [] = (Inr m, g')"
    and t: "mode m = ''train''"
    by (simp add: construct_eval)
  have n: "\<forall>k j :: nat. (0 :: real) \<le> 0 \<and> (0 :: real) < 1"
    "\<forall>k j :: nat. (0 :: real) \<le> 1 / 2 \<and> (1 / 2 :: real) < 1"
    by simp_all
  from eval_is_repeatable [OF c t n, where net =
      "\<lparr>gru_cell = (\<lambda>p k x s. ([p], s)),
        loss_tensor = (\<lambda>p cells b. sum_list (fst (cells 0 () ()))),
        gradients = (\<lambda>p cells b. [Some [1]]),
        apply_gradients = (\<lambda>p gs. p + 1)\<rparr>"
      and batch = "()" and sess = "\<lparr>variables = 3, global_step = 0\<rparr>"] c
  show ?thesis by auto
qed

end
